theory Spec2Isabelle
  imports Complex_Main
begin

section \<open>C strings and characters\<close>

text \<open>
  A C string is modelled as a \<^typ>\<open>string\<close> (the bytes before the terminating NUL);
  a possibly-NULL \<^verbatim>\<open>char *\<close> is a \<^typ>\<open>string option\<close>.  The character
  classes are those of the C locale.  Memory is unbounded: \<^verbatim>\<open>malloc\<close> never fails.
\<close>

named_theorems ev \<open>equations that evaluate the model on concrete inputs\<close>

definition isspace :: "char \<Rightarrow> bool" where
  "isspace c = (let n = (of_char c :: nat) in n = 32 \<or> (9 \<le> n \<and> n \<le> 13))"

definition isdigit :: "char \<Rightarrow> bool" where
  "isdigit c = (let n = (of_char c :: nat) in 48 \<le> n \<and> n \<le> 57)"

definition isupper :: "char \<Rightarrow> bool" where
  "isupper c = (let n = (of_char c :: nat) in 65 \<le> n \<and> n \<le> 90)"

definition islower :: "char \<Rightarrow> bool" where
  "islower c = (let n = (of_char c :: nat) in 97 \<le> n \<and> n \<le> 122)"

definition isalpha :: "char \<Rightarrow> bool" where
  "isalpha c = (isupper c \<or> islower c)"

definition isalnum :: "char \<Rightarrow> bool" where
  "isalnum c = (isalpha c \<or> isdigit c)"

definition tolower :: "char \<Rightarrow> char" where
  "tolower c = (if isupper c then char_of ((of_char c :: nat) + 32) else c)"

definition digit_of :: "char \<Rightarrow> nat" where
  "digit_of c = (of_char c :: nat) - 48"

definition digit_char :: "nat \<Rightarrow> char" where
  "digit_char n = char_of (48 + n)"

text \<open>\<^verbatim>\<open>bcl_strcasecmp(s1, s2) == 0\<close>: equal after lowering every character.\<close>

definition bcl_strcasecmp_eq :: "string \<Rightarrow> string \<Rightarrow> bool" where
  "bcl_strcasecmp_eq s1 s2 = (map tolower s1 = map tolower s2)"

text \<open>
  \<^verbatim>\<open>bcl_strncasecmp(s1, s2, n) == 0\<close>: the loop compares lowered characters while both
  strings last and \<open>n > 0\<close>; it returns 0 when \<open>n\<close> characters agreed, or when both strings
  ended together.  That is equality of the lowered prefixes of length \<open>n\<close>.
\<close>

definition bcl_strncasecmp_eq :: "string \<Rightarrow> string \<Rightarrow> nat \<Rightarrow> bool" where
  "bcl_strncasecmp_eq s1 s2 n = (map tolower (take n s1) = map tolower (take n s2))"

definition skip_spaces :: "string \<Rightarrow> string" where
  "skip_spaces s = dropWhile isspace s"

text \<open>\<^verbatim>\<open>strtok_r\<close> run to exhaustion: the non-empty pieces between delimiter characters.\<close>

fun strtok_all :: "(char \<Rightarrow> bool) \<Rightarrow> string \<Rightarrow> string \<Rightarrow> string list" where
  "strtok_all d acc [] = (if acc = [] then [] else [rev acc])"
| "strtok_all d acc (c # cs) =
     (if d c then (if acc = [] then strtok_all d [] cs else rev acc # strtok_all d [] cs)
      else strtok_all d (c # acc) cs)"

definition split_lines :: "string \<Rightarrow> string list" where
  "split_lines code = strtok_all (\<lambda>c. c = CHR 0x0A) [] code"

definition is_blank :: "char \<Rightarrow> bool" where
  "is_blank c = (c = CHR '' '' \<or> c = CHR 0x09)"

definition rtrim :: "string \<Rightarrow> string" where
  "rtrim s = rev (dropWhile isspace (rev s))"

text \<open>Strings joined with single spaces, as the commands rebuild a text from \<^verbatim>\<open>argv\<close>.\<close>

fun join_args :: "string list \<Rightarrow> string" where
  "join_args [] = []"
| "join_args [a] = a"
| "join_args (a # b # rest) = a @ CHR '' '' # join_args (b # rest)"


section \<open>Numbers\<close>

text \<open>
  A C \<^verbatim>\<open>double\<close> is modelled by a real number and its arithmetic by exact
  arithmetic: rounding is not modelled, so the model is the code wherever the values
  met are represented exactly (integers below \<open>2^53\<close>, dyadic fractions).  Results that
  are not finite numbers in C (infinities, NaN), the negative zero, and the functions of
  \<^verbatim>\<open>libm\<close> that have no exact evaluation are outside the model: an operation that meets one
  stops with \<open>Unmodelled\<close>.  \<open>Fault\<close> stands for undefined behaviour of the C code (a write
  past a fixed-size array), \<open>Timeout\<close> for a computation that did not finish within the
  given number of nested evaluations.
\<close>

type_synonym double = real

datatype stop = Timeout | Fault | Unmodelled

type_synonym 'a outcome = "stop + 'a"

fun digits_value :: "nat \<Rightarrow> string \<Rightarrow> nat" where
  "digits_value acc [] = acc"
| "digits_value acc (c # cs) = digits_value (acc * 10 + digit_of c) cs"

text \<open>The optional exponent part of a decimal number: its value and the text after it.\<close>

definition exponent_part :: "string \<Rightarrow> int \<times> string" where
  "exponent_part r =
     (if r \<noteq> [] \<and> (hd r = CHR ''e'' \<or> hd r = CHR ''E'') then
        (let r1 = tl r;
             neg = (r1 \<noteq> [] \<and> hd r1 = CHR ''-'');
             r2 = (if r1 \<noteq> [] \<and> (hd r1 = CHR ''+'' \<or> hd r1 = CHR ''-'') then tl r1 else r1);
             ds = takeWhile isdigit r2
         in if ds = [] then (0, r)
            else ((if neg then - int (digits_value 0 ds) else int (digits_value 0 ds)),
                  dropWhile isdigit r2))
      else (0, r))"

definition scale10 :: "double \<Rightarrow> int \<Rightarrow> double" where
  "scale10 v e = (if e \<ge> 0 then v * 10 ^ nat e else v / 10 ^ nat (- e))"

text \<open>
  \<^verbatim>\<open>strtod\<close> of the C library, for decimal numbers: the value and the unread rest
  (\<^verbatim>\<open>endptr\<close>); without a number the value is 0 and the rest is the whole text.
  Hexadecimal numbers, \<^verbatim>\<open>inf\<close>, \<^verbatim>\<open>nan\<close> and a negative zero are outside the model.
\<close>

definition strtod :: "string \<Rightarrow> (double \<times> string) outcome" where
  "strtod str =
     (let s = skip_spaces str;
          neg = (s \<noteq> [] \<and> hd s = CHR ''-'');
          s1 = (if s \<noteq> [] \<and> (hd s = CHR ''+'' \<or> hd s = CHR ''-'') then tl s else s);
          ip = takeWhile isdigit s1;
          r1 = dropWhile isdigit s1;
          has_dot = (r1 \<noteq> [] \<and> hd r1 = CHR ''.'');
          fp = (if has_dot then takeWhile isdigit (tl r1) else []);
          r2 = (if has_dot then dropWhile isdigit (tl r1) else r1)
      in if bcl_strncasecmp_eq s1 ''0x'' 2 \<or> bcl_strncasecmp_eq s1 ''inf'' 3
            \<or> bcl_strncasecmp_eq s1 ''nan'' 3 then Inl Unmodelled
         else if ip = [] \<and> fp = [] then Inr (0, str)
         else let v = scale10 (of_nat (digits_value 0 ip)
                                + of_nat (digits_value 0 fp) / 10 ^ length fp)
                              (fst (exponent_part r2))
              in if neg \<and> v = 0 then Inl Unmodelled
                 else Inr (if neg then - v else v, snd (exponent_part r2)))"

definition atof :: "string \<Rightarrow> double outcome" where
  "atof s = map_sum id fst (strtod s)"

text \<open>\<^verbatim>\<open>bcl_str_to_number\<close>: the number and whether the whole text was one.\<close>

definition bcl_str_to_number :: "string \<Rightarrow> (double \<times> bool) outcome" where
  "bcl_str_to_number str =
     (if str = [] then Inr (0, False)
      else case strtod str of
             Inl e \<Rightarrow> Inl e
           | Inr (v, endptr) \<Rightarrow> Inr (v, skip_spaces endptr = []))"

function show_nat :: "nat \<Rightarrow> string" where
  "show_nat n = (if n < 10 then [digit_char n] else show_nat (n div 10) @ [digit_char (n mod 10)])"
  by pat_completeness auto
termination
  by (relation "measure id") auto

declare show_nat.simps [simp del]

definition round_half_even :: "double \<Rightarrow> int" where
  "round_half_even v =
     (let f = \<lfloor>v\<rfloor>; d = v - of_int f
      in if d < 1 / 2 then f else if d > 1 / 2 then f + 1 else if even f then f else f + 1)"

text \<open>\<^verbatim>\<open>snprintf(buf, 64, "%.0f", v)\<close>: the nearest integer, with the sign of \<open>v\<close>.\<close>

definition fmt_f0 :: "double \<Rightarrow> string" where
  "fmt_f0 v = take 63 ((if v < 0 then ''-'' else []) @ show_nat (nat \<bar>round_half_even v\<bar>))"

text \<open>
  \<^verbatim>\<open>snprintf(buf, 64, "%.15g", v)\<close> is used for values that are not integers; the text
  of a fraction to 15 significant digits is outside the model.
\<close>

definition fmt_g15 :: "double \<Rightarrow> string outcome" where
  "fmt_g15 v = Inl Unmodelled"

text \<open>The rendering shared by \<^verbatim>\<open>EXPR\<close> and the \<^verbatim>\<open>FOR\<close> counter.\<close>

definition render_number :: "double \<Rightarrow> string outcome" where
  "render_number v = (if v = of_int \<lfloor>v\<rfloor> then Inr (fmt_f0 v) else fmt_g15 v)"


section \<open>Blocks (bcl\_block.c)\<close>

datatype block_type_t =
    BLOCK_NONE | BLOCK_IF | BLOCK_ELSEIF | BLOCK_ELSE | BLOCK_WHILE | BLOCK_FOR
  | BLOCK_FOREACH | BLOCK_SWITCH | BLOCK_CASE | BLOCK_DEFAULT | BLOCK_PROC

text \<open>
  Blocks live in memory and refer to each other by pointer; the parser keeps pointers to
  the open blocks on its stack and mutates the blocks through them.  The model keeps an
  explicit store: a list of blocks, a pointer being an index into it.  An item that holds
  a block holds a pointer, which the executor of \<^verbatim>\<open>PROC\<close> later sets to NULL.
\<close>

datatype block_item_t = ITEM_LINE string | ITEM_BLOCK "nat option"

record bcl_block_t =
  btype :: block_type_t
  condition :: "string option"
  proc_name :: "string option"
  proc_params :: "string option"
  items :: "block_item_t list"
  children :: "nat list"
  start_line_num :: nat

definition block_create :: "block_type_t \<Rightarrow> bcl_block_t" where
  "block_create t = \<lparr> btype = t, condition = None, proc_name = None, proc_params = None,
      items = [], children = [], start_line_num = 0 \<rparr>"

definition block_add_line :: "bcl_block_t list \<Rightarrow> nat \<Rightarrow> string \<Rightarrow> bcl_block_t list" where
  "block_add_line h b line = h[b := (h ! b)\<lparr> items := items (h ! b) @ [ITEM_LINE line] \<rparr>]"

definition block_add_block_item :: "bcl_block_t list \<Rightarrow> nat \<Rightarrow> nat \<Rightarrow> bcl_block_t list" where
  "block_add_block_item h parent child =
     h[parent := (h ! parent)\<lparr> items := items (h ! parent) @ [ITEM_BLOCK (Some child)] \<rparr>]"

definition block_add_child :: "bcl_block_t list \<Rightarrow> nat \<Rightarrow> nat \<Rightarrow> bcl_block_t list" where
  "block_add_child h b child = h[b := (h ! b)\<lparr> children := children (h ! b) @ [child] \<rparr>]"


subsection \<open>Parsing utilities\<close>

definition get_first_token :: "string \<Rightarrow> string" where
  "get_first_token line = takeWhile (\<lambda>c. \<not> isspace c) (skip_spaces line)"

text \<open>A token of length 3 whose first 3 characters spell \<^verbatim>\<open>END\<close>: the token is \<^verbatim>\<open>END\<close>.\<close>

definition line_contains_end :: "string \<Rightarrow> bool" where
  "line_contains_end line =
     list_ex (\<lambda>t. bcl_strcasecmp_eq t ''END'') (strtok_all isspace [] line)"

text \<open>
  The scan of \<^verbatim>\<open>extract_condition\<close> for the end of the condition: the first whitespace
  character after which, spaces skipped, the text starts with \<^verbatim>\<open>THEN\<close> or \<^verbatim>\<open>DO\<close>
  (no word boundary is asked for after the keyword).
\<close>

fun scan_condition :: "string \<Rightarrow> string" where
  "scan_condition [] = []"
| "scan_condition (c # cs) =
     (if isspace c \<and> (bcl_strncasecmp_eq (skip_spaces cs) ''THEN'' 4
                      \<or> bcl_strncasecmp_eq (skip_spaces cs) ''DO'' 2)
      then [] else c # scan_condition cs)"

definition extract_condition :: "string \<Rightarrow> string \<Rightarrow> string option" where
  "extract_condition line keyword =
     (let p = skip_spaces line in
      if \<not> bcl_strncasecmp_eq p keyword (length keyword) then None
      else let p1 = skip_spaces (drop (length keyword) p);
               cond = rtrim (scan_condition p1)
           in if bcl_strcasecmp_eq keyword ''CASE'' \<and> length cond \<ge> 2
                 \<and> ((hd cond = CHR 0x22 \<and> last cond = CHR 0x22)
                    \<or> (hd cond = CHR 0x27 \<and> last cond = CHR 0x27))
              then Some (butlast (tl cond))
              else Some cond)"

text \<open>\<^verbatim>\<open>DO\<close> as a whole word at the start of the text.\<close>

definition do_word :: "string \<Rightarrow> bool" where
  "do_word p = (bcl_strncasecmp_eq p ''DO'' 2 \<and> (length p \<le> 2 \<or> isspace (p ! 2)))"

text \<open>
  The parameter scan of a \<^verbatim>\<open>PROC ... WITH\<close> line: the text before the first whitespace
  that is followed, spaces skipped, by the word \<^verbatim>\<open>DO\<close>; \<open>None\<close> when there is none.
\<close>

fun scan_params :: "string \<Rightarrow> string option" where
  "scan_params [] = None"
| "scan_params (c # cs) =
     (if isspace c \<and> do_word (skip_spaces (c # cs)) then Some []
      else map_option ((#) c) (scan_params cs))"

text \<open>
  The header of a \<^verbatim>\<open>PROC\<close> line: the name and the parameter text.  Without a \<^verbatim>\<open>DO\<close>
  the scan stops at the end of the line, where the source's last branch
  (\<^verbatim>\<open>*p && !do_pos\<close>) is false, so the parameters stay NULL.
\<close>

definition parse_proc_header :: "string \<Rightarrow> string option \<times> string option" where
  "parse_proc_header line =
     (let p = skip_spaces (drop 4 (skip_spaces line));
          name = takeWhile (\<lambda>c. \<not> isspace c) p;
          p1 = skip_spaces (dropWhile (\<lambda>c. \<not> isspace c) p);
          params =
            (if do_word p1 then None
             else if bcl_strncasecmp_eq p1 ''WITH'' 4 then
               (let p2 = skip_spaces (drop 4 p1) in
                if do_word p2 then None
                else (case scan_params p2 of
                        None \<Rightarrow> None
                      | Some ps \<Rightarrow> Some (rtrim ps)))
             else None)
      in (if name = [] then None else Some name, params))"


subsection \<open>The block parser\<close>

text \<open>
  The parser state: the store of blocks and the stack of open blocks, the top first and
  the root last, so that \<^verbatim>\<open>stack_top\<close> is the length of the list minus one.  The C array
  has 256 entries and no bound check on a push: a push onto a full stack writes past
  the array, which is undefined behaviour; the model stops there with
  \<open>Stack_overflow\<close>.  \<open>Stack_underflow\<close> stands for a read of the stack below the root.
\<close>

datatype parse_fault = Stack_overflow | Stack_underflow

record parser_state =
  heap :: "bcl_block_t list"
  stack :: "nat list"

definition STACK_SIZE :: nat where
  "STACK_SIZE = 256"

text \<open>\<^verbatim>\<open>stack[++stack_top] = b\<close>\<close>

definition push :: "parser_state \<Rightarrow> nat \<Rightarrow> parse_fault + parser_state" where
  "push st b = (if length (stack st) \<ge> STACK_SIZE then Inl Stack_overflow
                else Inr (st\<lparr> stack := b # stack st \<rparr>))"

text \<open>A new block of the given kind, entered as an item of the current top and pushed.\<close>

definition open_block :: "parser_state \<Rightarrow> bcl_block_t \<Rightarrow> parse_fault + parser_state" where
  "open_block st blk =
     (case stack st of
        [] \<Rightarrow> Inl Stack_underflow
      | current # _ \<Rightarrow>
          (let new = length (heap st);
               h = block_add_block_item (heap st @ [blk]) current new
           in push (st\<lparr> heap := h \<rparr>) new))"

text \<open>
  \<^verbatim>\<open>ELSEIF\<close>, \<^verbatim>\<open>ELSE\<close>: only when \<open>stack_top > 0\<close>; the top is popped, the new block
  becomes a child of the popped block, and is pushed.
\<close>

definition open_sibling :: "parser_state \<Rightarrow> bcl_block_t \<Rightarrow> parse_fault + parser_state" where
  "open_sibling st blk =
     (case stack st of
        if_block # below # rest \<Rightarrow>
          (let new = length (heap st);
               h = block_add_child (heap st @ [blk]) if_block new
           in push (st\<lparr> heap := h, stack := below # rest \<rparr>) new)
      | _ \<Rightarrow> Inr st)"

text \<open>
  \<^verbatim>\<open>CASE\<close>, \<^verbatim>\<open>DEFAULT\<close>: only when \<open>stack_top > 0\<close>; the top is popped first when its
  type is one of \<open>closes\<close> (\<^verbatim>\<open>CASE\<close> pops a Case or a Default, \<^verbatim>\<open>DEFAULT\<close> pops a Case
  only); the new block becomes a child of the block then on top, and is pushed.
\<close>

definition open_case ::
  "parser_state \<Rightarrow> block_type_t list \<Rightarrow> bcl_block_t \<Rightarrow> parse_fault + parser_state" where
  "open_case st closes blk =
     (case stack st of
        cur # below # rest \<Rightarrow>
          (let stk = (if List.member closes (btype (heap st ! cur)) then below # rest
                      else cur # below # rest);
               new = length (heap st);
               h = block_add_child (heap st @ [blk]) (hd stk) new
           in push (st\<lparr> heap := h, stack := stk \<rparr>) new)
      | _ \<Rightarrow> Inr st)"

text \<open>
  \<^verbatim>\<open>END\<close>: only when \<open>stack_top > 0\<close> the top is popped; when the popped block was a
  Case or a Default, \<open>stack_top\<close> is still positive and the block then on top is a
  Switch, that one is popped too.
\<close>

definition close_block :: "parser_state \<Rightarrow> parser_state" where
  "close_block st =
     (case stack st of
        cur # below # rest \<Rightarrow>
          (let current_type = btype (heap st ! cur) in
           if rest \<noteq> [] \<and> (current_type = BLOCK_CASE \<or> current_type = BLOCK_DEFAULT)
              \<and> btype (heap st ! below) = BLOCK_SWITCH
           then st\<lparr> stack := rest \<rparr>
           else st\<lparr> stack := below # rest \<rparr>)
      | _ \<Rightarrow> st)"

definition add_line :: "parser_state \<Rightarrow> string \<Rightarrow> parse_fault + parser_state" where
  "add_line st line =
     (case stack st of
        [] \<Rightarrow> Inl Stack_underflow
      | current # _ \<Rightarrow> Inr (st\<lparr> heap := block_add_line (heap st) current line \<rparr>))"

text \<open>One iteration of the parser's loop: line \<open>i\<close> (counted from 0) of the script.\<close>

definition parse_line_step :: "parser_state \<Rightarrow> nat \<Rightarrow> string \<Rightarrow> parse_fault + parser_state" where
  "parse_line_step st i line_text =
     (let p = skip_spaces line_text in
      if p = [] \<or> hd p = CHR ''#'' then Inr st
      else let first_token = get_first_token p;
               kw = (\<lambda>k. bcl_strcasecmp_eq first_token k);
               blk = (\<lambda>t k. (block_create t)\<lparr> condition := extract_condition line_text k,
                                               start_line_num := i + 1 \<rparr>)
      in if kw ''IF'' then
           (if line_contains_end line_text then add_line st line_text
            else open_block st (blk BLOCK_IF ''IF''))
         else if kw ''ELSEIF'' then open_sibling st (blk BLOCK_ELSEIF ''ELSEIF'')
         else if kw ''ELSE'' then
           open_sibling st ((block_create BLOCK_ELSE)\<lparr> start_line_num := i + 1 \<rparr>)
         else if kw ''WHILE'' then open_block st (blk BLOCK_WHILE ''WHILE'')
         else if kw ''FOR'' then open_block st (blk BLOCK_FOR ''FOR'')
         else if kw ''FOREACH'' then open_block st (blk BLOCK_FOREACH ''FOREACH'')
         else if kw ''SWITCH'' then open_block st (blk BLOCK_SWITCH ''SWITCH'')
         else if kw ''CASE'' then
           open_case st [BLOCK_CASE, BLOCK_DEFAULT] (blk BLOCK_CASE ''CASE'')
         else if kw ''DEFAULT'' then
           open_case st [BLOCK_CASE] ((block_create BLOCK_DEFAULT)\<lparr> start_line_num := i + 1 \<rparr>)
         else if kw ''PROC'' then
           open_block st ((block_create BLOCK_PROC)\<lparr> proc_name := fst (parse_proc_header line_text),
                             proc_params := snd (parse_proc_header line_text),
                             start_line_num := i + 1 \<rparr>)
         else if kw ''END'' then Inr (close_block st)
         else add_line st line_text)"

fun parse_lines :: "parser_state \<Rightarrow> nat \<Rightarrow> string list \<Rightarrow> parse_fault + parser_state" where
  "parse_lines st i [] = Inr st"
| "parse_lines st i (l # ls) =
     (case parse_line_step st i l of
        Inl f \<Rightarrow> Inl f
      | Inr st' \<Rightarrow> parse_lines st' (Suc i) ls)"

text \<open>
  \<^verbatim>\<open>bcl_parse_blocks\<close>, allocating in the store \<open>h\<close>: the root is the first block it
  creates, at address \<open>length h\<close>, and the result is the store with the tree in it (the
  state also shows the blocks left open at the end of the text).
\<close>

definition bcl_parse_blocks :: "bcl_block_t list \<Rightarrow> string \<Rightarrow> parse_fault + parser_state" where
  "bcl_parse_blocks h code =
     parse_lines \<lparr> heap = h @ [block_create BLOCK_NONE], stack = [length h] \<rparr> 0 (split_lines code)"


section \<open>Hash tables (bcl\_hash.c)\<close>

text \<open>
  A hash table maps keys, compared without regard to case, to values.  The model is an
  association list searched with \<^verbatim>\<open>bcl_strcasecmp\<close>; the order of its entries stands for
  nothing (the source chains entries in buckets).  An entry keeps the spelling of the
  key it was created with.
\<close>

type_synonym 'v bcl_hash_table_t = "(string \<times> 'v) list"

fun bcl_hash_get :: "'v bcl_hash_table_t \<Rightarrow> string \<Rightarrow> 'v option" where
  "bcl_hash_get [] key = None"
| "bcl_hash_get ((k, v) # t) key = (if bcl_strcasecmp_eq k key then Some v else bcl_hash_get t key)"

fun bcl_hash_set :: "'v bcl_hash_table_t \<Rightarrow> string \<Rightarrow> 'v \<Rightarrow> 'v bcl_hash_table_t" where
  "bcl_hash_set [] key val = [(key, val)]"
| "bcl_hash_set ((k, v) # t) key val =
     (if bcl_strcasecmp_eq k key then (k, val) # t else (k, v) # bcl_hash_set t key val)"

definition bcl_hash_exists :: "'v bcl_hash_table_t \<Rightarrow> string \<Rightarrow> bool" where
  "bcl_hash_exists t key = (bcl_hash_get t key \<noteq> None)"

fun bcl_hash_remove :: "'v bcl_hash_table_t \<Rightarrow> string \<Rightarrow> 'v bcl_hash_table_t" where
  "bcl_hash_remove [] key = []"
| "bcl_hash_remove ((k, v) # t) key =
     (if bcl_strcasecmp_eq k key then t else (k, v) # bcl_hash_remove t key)"


section \<open>The interpreter state (bcl.h, bcl\_interp.c)\<close>

datatype bcl_result_t = BCL_OK | BCL_ERROR | BCL_BREAK | BCL_CONTINUE | BCL_RETURN | BCL_EXIT

record bcl_procedure_t =
  pname :: string
  params :: "(string \<times> bool) list"
  body_block :: "nat option"

text \<open>A scope; its \<^verbatim>\<open>parent\<close> pointer, which no lookup follows, is left out.\<close>

record bcl_scope_t =
  vars :: "string bcl_hash_table_t"
  global_refs :: "string bcl_hash_table_t"
  global_prefixes :: "string bcl_hash_table_t"

text \<open>
  The interpreter: \<open>scope_stack\<close> has the current scope first, and \<^verbatim>\<open>scope_depth\<close> is its
  length.  \<open>blocks\<close> is the memory that holds the parsed blocks.  The table of procedures
  holds the procedure records themselves (the source stores a pointer printed as text).
  File handles, extensions, the event loop and the script arguments are left out.
\<close>

record bcl_interp_t =
  global_vars :: "string bcl_hash_table_t"
  procedures :: "bcl_procedure_t bcl_hash_table_t"
  blocks :: "bcl_block_t list"
  scope_stack :: "bcl_scope_t list"
  return_value :: "string option"
  exit_code :: int
  recursion_depth :: nat
  error_msg :: string

definition BCL_MAX_LINE_LEN :: nat where "BCL_MAX_LINE_LEN = 8192"
definition BCL_MAX_TOKEN_LEN :: nat where "BCL_MAX_TOKEN_LEN = 4096"
definition BCL_MAX_RECURSION :: nat where "BCL_MAX_RECURSION = 1000"
definition BCL_MAX_SCOPE_DEPTH :: nat where "BCL_MAX_SCOPE_DEPTH = 256"

definition bcl_interp_create :: bcl_interp_t where
  "bcl_interp_create = \<lparr> global_vars = [], procedures = [], blocks = [], scope_stack = [],
      return_value = None, exit_code = 0, recursion_depth = 0, error_msg = [] \<rparr>"

definition scope_depth :: "bcl_interp_t \<Rightarrow> nat" where
  "scope_depth interp = length (scope_stack interp)"

text \<open>\<^verbatim>\<open>bcl_set_error\<close>, the message already formatted.\<close>

definition bcl_set_error :: "bcl_interp_t \<Rightarrow> string \<Rightarrow> bcl_interp_t" where
  "bcl_set_error interp msg = interp\<lparr> error_msg := take (BCL_MAX_LINE_LEN - 1) msg \<rparr>"

definition scope_create :: bcl_scope_t where
  "scope_create = \<lparr> vars = [], global_refs = [], global_prefixes = [] \<rparr>"

definition bcl_scope_push :: "bcl_interp_t \<Rightarrow> bcl_result_t \<times> bcl_interp_t" where
  "bcl_scope_push interp =
     (if scope_depth interp \<ge> BCL_MAX_SCOPE_DEPTH
      then (BCL_ERROR, bcl_set_error interp ''Maximum scope depth exceeded'')
      else (BCL_OK, interp\<lparr> scope_stack := scope_create # scope_stack interp \<rparr>))"

definition bcl_scope_pop :: "bcl_interp_t \<Rightarrow> bcl_result_t \<times> bcl_interp_t" where
  "bcl_scope_pop interp =
     (if scope_depth interp = 0 then (BCL_ERROR, bcl_set_error interp ''No scope to pop'')
      else (BCL_OK, interp\<lparr> scope_stack := tl (scope_stack interp) \<rparr>))"

definition get_current_scope :: "bcl_interp_t \<Rightarrow> bcl_scope_t option" where
  "get_current_scope interp = (case scope_stack interp of [] \<Rightarrow> None | sc # _ \<Rightarrow> Some sc)"

text \<open>
  \<^verbatim>\<open>is_global_var\<close>: without a scope every name is global; with one, a name listed in
  \<open>global_refs\<close>, or a name with a \<open>(\<close> whose text up to and including the first \<open>(\<close>
  (shorter than 256 characters) is listed in \<open>global_prefixes\<close>.
\<close>

definition is_global_var :: "bcl_scope_t option \<Rightarrow> string \<Rightarrow> bool" where
  "is_global_var scope name =
     (case scope of
        None \<Rightarrow> True
      | Some sc \<Rightarrow>
          if bcl_hash_exists (global_refs sc) name then True
          else if CHR ''('' \<in> set name then
            (let prefix = takeWhile (\<lambda>c. c \<noteq> CHR ''('') name @ ''(''
             in length prefix < 256 \<and> bcl_hash_exists (global_prefixes sc) prefix)
          else False)"

definition bcl_var_set :: "bcl_interp_t \<Rightarrow> string \<Rightarrow> string \<Rightarrow> bcl_interp_t" where
  "bcl_var_set interp name val =
     (case scope_stack interp of
        [] \<Rightarrow> interp\<lparr> global_vars := bcl_hash_set (global_vars interp) name val \<rparr>
      | sc # rest \<Rightarrow>
          if is_global_var (Some sc) name
          then interp\<lparr> global_vars := bcl_hash_set (global_vars interp) name val \<rparr>
          else interp\<lparr> scope_stack := sc\<lparr> vars := bcl_hash_set (vars sc) name val \<rparr> # rest \<rparr>)"

definition bcl_var_get :: "bcl_interp_t \<Rightarrow> string \<Rightarrow> string option" where
  "bcl_var_get interp name =
     (case scope_stack interp of
        [] \<Rightarrow> bcl_hash_get (global_vars interp) name
      | sc # _ \<Rightarrow>
          (case bcl_hash_get (vars sc) name of
             Some v \<Rightarrow> Some v
           | None \<Rightarrow> bcl_hash_get (global_vars interp) name))"

definition bcl_var_exists :: "bcl_interp_t \<Rightarrow> string \<Rightarrow> bool" where
  "bcl_var_exists interp name =
     (case scope_stack interp of
        [] \<Rightarrow> bcl_hash_exists (global_vars interp) name
      | sc # _ \<Rightarrow> bcl_hash_exists (vars sc) name \<or> bcl_hash_exists (global_vars interp) name)"

definition bcl_var_unset :: "bcl_interp_t \<Rightarrow> string \<Rightarrow> bcl_interp_t" where
  "bcl_var_unset interp name =
     (case scope_stack interp of
        [] \<Rightarrow> interp\<lparr> global_vars := bcl_hash_remove (global_vars interp) name \<rparr>
      | sc # rest \<Rightarrow>
          if bcl_hash_exists (vars sc) name
          then interp\<lparr> scope_stack := sc\<lparr> vars := bcl_hash_remove (vars sc) name \<rparr> # rest \<rparr>
          else interp\<lparr> global_vars := bcl_hash_remove (global_vars interp) name \<rparr>)"

text \<open>\<^verbatim>\<open>bcl_value_to_bool\<close>: the empty text and \<^verbatim>\<open>0\<close> are false.\<close>

definition bcl_value_to_bool :: "string \<Rightarrow> bool" where
  "bcl_value_to_bool str = (str \<noteq> [] \<and> str \<noteq> ''0'')"


section \<open>The tokenizer (bcl\_parser.c)\<close>

definition needs_escape :: "char \<Rightarrow> bool" where
  "needs_escape c = List.member (''ntrabf'' @ [CHR 0x5C, CHR 0x22, CHR 0x27] @ ''udDwWsS[]'') c"

definition regex_escape :: "char \<Rightarrow> bool" where
  "regex_escape c = List.member ''dDwWsS[]'' c"

definition process_escape :: "char \<Rightarrow> char" where
  "process_escape c =
     (if c = CHR ''n'' then CHR 0x0A else if c = CHR ''t'' then CHR 0x09
      else if c = CHR ''r'' then CHR 0x0D else if c = CHR ''a'' then CHR 0x07
      else if c = CHR ''b'' then CHR 0x08 else if c = CHR ''f'' then CHR 0x0C
      else c)"

fun bcl_decode_escapes :: "string \<Rightarrow> string" where
  "bcl_decode_escapes [] = []"
| "bcl_decode_escapes [c] = [c]"
| "bcl_decode_escapes (c # d # rest) =
     (if c = CHR 0x5C then
        (if d = CHR ''u'' \<and> length rest \<ge> 4 then c # bcl_decode_escapes (d # rest)
         else if regex_escape d then c # d # bcl_decode_escapes rest
         else if needs_escape d then process_escape d # bcl_decode_escapes rest
         else c # bcl_decode_escapes (d # rest))
      else c # bcl_decode_escapes (d # rest))"

definition is_comment :: "string \<Rightarrow> bool" where
  "is_comment str = (case skip_spaces str of [] \<Rightarrow> False | c # _ \<Rightarrow> c = CHR ''#'')"

text \<open>
  The scans of \<^verbatim>\<open>bcl_next_token\<close>.  \<open>k\<close> is the room left in the token buffer
  (\<^verbatim>\<open>token_size - 1 - token_idx\<close>), \<open>acc\<close> the token so far, reversed; each returns the
  token and the unread rest of the line.
\<close>

fun scan_dquote :: "nat \<Rightarrow> string \<Rightarrow> string \<Rightarrow> string \<times> string" where
  "scan_dquote k acc [] = (rev acc, [])"
| "scan_dquote k acc (c # cs) =
     (if c = CHR 0x22 \<or> k = 0 then (rev acc, c # cs)
      else if c = CHR 0x5C \<and> cs \<noteq> [] \<and> 2 \<le> k then scan_dquote (k - 2) (hd cs # c # acc) (tl cs)
      else scan_dquote (k - 1) (c # acc) cs)"

fun scan_squote :: "nat \<Rightarrow> string \<Rightarrow> string \<Rightarrow> string \<times> string" where
  "scan_squote k acc [] = (rev acc, [])"
| "scan_squote k acc (c # cs) =
     (if c = CHR 0x27 \<or> k = 0 then (rev acc, c # cs)
      else scan_squote (k - 1) (c # acc) cs)"

fun scan_bracket :: "nat \<Rightarrow> nat \<Rightarrow> string \<Rightarrow> string \<Rightarrow> string \<times> string" where
  "scan_bracket k cnt acc [] = (rev acc, [])"
| "scan_bracket k cnt acc (c # cs) =
     (if cnt = 0 \<or> k = 0 then (rev acc, c # cs)
      else if c = CHR ''['' then scan_bracket (k - 1) (cnt + 1) (c # acc) cs
      else if c = CHR '']'' then
        (if cnt - 1 > 0 then scan_bracket (k - 1) (cnt - 1) (c # acc) cs
         else scan_bracket k (cnt - 1) acc cs)
      else scan_bracket (k - 1) cnt (c # acc) cs)"

fun scan_plain :: "nat \<Rightarrow> string \<Rightarrow> string \<Rightarrow> string \<times> string" where
  "scan_plain k acc [] = (rev acc, [])"
| "scan_plain k acc (c # cs) =
     (if isspace c \<or> c = CHR ''#'' \<or> k = 0 \<or> c = CHR ''['' \<or> c = CHR '']'' then (rev acc, c # cs)
      else scan_plain (k - 1) (c # acc) cs)"

text \<open>\<^verbatim>\<open>bcl_next_token\<close> on the unread part of a line: the token, if any, and the new rest.\<close>

definition bcl_next_token :: "string \<Rightarrow> string option \<times> string" where
  "bcl_next_token line =
     (case skip_spaces line of
        [] \<Rightarrow> (None, [])
      | c # cs \<Rightarrow>
          if c = CHR ''#'' then (None, c # cs)
          else if c = CHR 0x22 then
            (case scan_dquote (BCL_MAX_TOKEN_LEN - 1) [] cs of
               (tok, r) \<Rightarrow> (Some tok, if r \<noteq> [] \<and> hd r = CHR 0x22 then tl r else r))
          else if c = CHR 0x27 then
            (case scan_squote (BCL_MAX_TOKEN_LEN - 1) [] cs of
               (tok, r) \<Rightarrow> (Some tok, if r \<noteq> [] \<and> hd r = CHR 0x27 then tl r else r))
          else if c = CHR ''['' then
            (case scan_bracket (BCL_MAX_TOKEN_LEN - 1) 1 [] cs of (tok, r) \<Rightarrow> (Some tok, r))
          else
            (case scan_plain (BCL_MAX_TOKEN_LEN - 1) [] (c # cs) of
               (tok, r) \<Rightarrow> (if tok = [] then None else Some tok, r)))"

text \<open>The raw tokens of a line: at most \<open>n\<close> of them (the source stops at 256).\<close>

fun raw_tokens :: "nat \<Rightarrow> string \<Rightarrow> string list" where
  "raw_tokens n line =
     (if n = 0 then []
      else case bcl_next_token line of
             (None, _) \<Rightarrow> []
           | (Some tok, r) \<Rightarrow> tok # raw_tokens (n - 1) r)"

declare raw_tokens.simps [simp del]

definition is_name_char :: "char \<Rightarrow> bool" where
  "is_name_char c = (isalnum c \<or> c = CHR ''_'')"

text \<open>
  The index of an array reference, after its \<open>(\<close>: the text up to the matching \<open>)\<close>
  (\<open>d\<close> counts the open parentheses, \<open>k\<close> the room left in the 256-byte buffer).
\<close>

fun scan_index :: "nat \<Rightarrow> nat \<Rightarrow> string \<Rightarrow> string \<Rightarrow> string \<times> string" where
  "scan_index k d acc [] = (rev acc, [])"
| "scan_index k d acc (c # cs) =
     (if d = 0 \<or> k = 0 then (rev acc, c # cs)
      else if c = CHR ''('' then scan_index (k - 1) (d + 1) (c # acc) cs
      else if c = CHR '')'' then
        (if d = 1 then (rev acc, c # cs) else scan_index (k - 1) (d - 1) (c # acc) cs)
      else scan_index (k - 1) d (c # acc) cs)"

lemma scan_index_length:
  "scan_index k d acc s = (a, b) \<Longrightarrow> length b \<le> length s \<and> length a \<le> length acc + length s"
  by (induction k d acc s arbitrary: a b rule: scan_index.induct) (auto split: if_splits)

definition value_or_empty :: "string option \<Rightarrow> string" where
  "value_or_empty v = (case v of None \<Rightarrow> [] | Some x \<Rightarrow> x)"

text \<open>
  \<^verbatim>\<open>bcl_expand_vars\<close>: every \<open>$\<close> that is not the last character starts a reference; the
  name is the run of letters, digits and underscores after it (at most 255), and a \<open>(\<close>
  right after the name makes it an array element whose index is expanded first.  A
  variable that does not exist expands to nothing.
\<close>

function bcl_expand_vars :: "bcl_interp_t \<Rightarrow> string \<Rightarrow> string" where
  "bcl_expand_vars interp [] = []"
| "bcl_expand_vars interp (c # cs) =
     (if c = CHR ''$'' \<and> cs \<noteq> [] then
        (let varname = take 255 (takeWhile is_name_char cs);
             r = drop (length varname) cs
         in if r \<noteq> [] \<and> hd r = CHR ''('' then
              (case scan_index 255 1 [] (tl r) of
                 (index_str, r2) \<Rightarrow>
                   value_or_empty (bcl_var_get interp
                      (take 511 (varname @ ''('' @ bcl_expand_vars interp index_str @ '')'')))
                   @ bcl_expand_vars interp (if r2 \<noteq> [] \<and> hd r2 = CHR '')'' then tl r2 else r2))
            else value_or_empty (bcl_var_get interp varname) @ bcl_expand_vars interp r)
      else c # bcl_expand_vars interp cs)"
  by pat_completeness auto
termination
  apply (relation "measure (\<lambda>(interp, s). length s)")
  apply simp_all
  apply (auto dest!: scan_index_length [OF sym])
  done

declare bcl_expand_vars.simps [simp del]

text \<open>
  The text of a subcommand, after its \<open>[\<close>: up to the matching \<open>]\<close>, which stays unread
  (\<open>cnt\<close> counts the open brackets).
\<close>

fun match_bracket :: "nat \<Rightarrow> string \<Rightarrow> string \<Rightarrow> string \<times> string" where
  "match_bracket cnt acc [] = (rev acc, [])"
| "match_bracket cnt acc (c # cs) =
     (if c = CHR ''['' then match_bracket (cnt + 1) (c # acc) cs
      else if c = CHR '']'' then
        (if cnt - 1 = 0 then (rev acc, c # cs) else match_bracket (cnt - 1) (c # acc) cs)
      else match_bracket cnt (c # acc) cs)"

lemma match_bracket_length:
  "match_bracket cnt acc s = (a, b) \<Longrightarrow> length b \<le> length s \<and> length a \<le> length acc + length s"
  by (induction cnt acc s arbitrary: a b rule: match_bracket.induct) (auto split: if_splits)

text \<open>A result with whitespace is put in double quotes, its own double quotes escaped.\<close>

definition protect_result :: "string \<Rightarrow> string" where
  "protect_result r =
     (if list_ex isspace r
      then CHR 0x22 # concat (map (\<lambda>c. if c = CHR 0x22 then [CHR 0x5C, c] else [c]) r) @ [CHR 0x22]
      else r)"

text \<open>
  \<^verbatim>\<open>bcl_expand_subcommands\<close>.  Evaluating a subcommand runs the interpreter, which is
  the parameter \<open>ev\<close> here (\<^verbatim>\<open>bcl_eval_subcommand\<close>): it returns the text to insert and
  the interpreter after the evaluation.  \<open>acc\<close> is the output so far, reversed.
\<close>

function bcl_expand_subcommands ::
  "(bcl_interp_t \<Rightarrow> string \<Rightarrow> (string \<times> bcl_interp_t) outcome) \<Rightarrow> bcl_interp_t \<Rightarrow> string
     \<Rightarrow> string \<Rightarrow> (string \<times> bcl_interp_t) outcome" where
  "bcl_expand_subcommands ev interp acc [] = Inr (rev acc, interp)"
| "bcl_expand_subcommands ev interp acc (c # cs) =
     (if c = CHR ''['' then
        (case match_bracket 1 [] cs of
           (cmd, r) \<Rightarrow>
             (case bcl_expand_subcommands ev interp [] cmd of
                Inl e \<Rightarrow> Inl e
              | Inr (expanded_cmd, i1) \<Rightarrow>
                  (case ev i1 expanded_cmd of
                     Inl e \<Rightarrow> Inl e
                   | Inr (cmd_result, i2) \<Rightarrow>
                       bcl_expand_subcommands ev i2 (rev (protect_result cmd_result) @ acc)
                         (if r \<noteq> [] \<and> hd r = CHR '']'' then tl r else r))))
      else bcl_expand_subcommands ev interp (c # acc) cs)"
  by pat_completeness auto
termination
  apply (relation "measure (\<lambda>(ev, interp, acc, s). length s)")
  apply simp_all
  apply (auto dest!: match_bracket_length [OF sym])
  done

declare bcl_expand_subcommands.simps [simp del]

text \<open>
  \<^verbatim>\<open>bcl_parse_line\<close>: the arguments of a line, the command name first; none for a comment
  or an empty line.  Subcommands are expanded in the whole line first; then each raw
  token has its escapes decoded and its variables expanded.
\<close>

definition bcl_parse_line ::
  "(bcl_interp_t \<Rightarrow> string \<Rightarrow> (string \<times> bcl_interp_t) outcome) \<Rightarrow> bcl_interp_t \<Rightarrow> string
     \<Rightarrow> (string list \<times> bcl_interp_t) outcome" where
  "bcl_parse_line ev interp line =
     (if is_comment line then Inr ([], interp)
      else case bcl_expand_subcommands ev interp [] line of
             Inl e \<Rightarrow> Inl e
           | Inr (expanded_line, i1) \<Rightarrow>
               Inr (map (\<lambda>t. bcl_expand_vars i1 (bcl_decode_escapes t)) (raw_tokens 256 expanded_line),
                    i1))"


section \<open>The expression evaluator (bcl\_expr.c)\<close>

datatype token_type_t =
    TOK_NUMBER | TOK_PLUS | TOK_MINUS | TOK_MULTIPLY | TOK_DIVIDE | TOK_MODULO | TOK_POWER
  | TOK_LPAREN | TOK_RPAREN | TOK_COMMA | TOK_LT | TOK_LE | TOK_GT | TOK_GE | TOK_EQ | TOK_NE
  | TOK_AND | TOK_OR | TOK_NOT | TOK_FUNCTION | TOK_END

text \<open>
  A token.  The source reuses one struct for every token, so a field that a token's type
  does not use holds what an earlier token left there; it is never read, and is 0 or
  empty here.
\<close>

record expr_token_t =
  ttype :: token_type_t
  tvalue :: double
  func_name :: string

definition mk_token :: "token_type_t \<Rightarrow> expr_token_t" where
  "mk_token t = \<lparr> ttype = t, tvalue = 0, func_name = [] \<rparr>"

fun get_precedence :: "token_type_t \<Rightarrow> nat" where
  "get_precedence TOK_OR = 1"
| "get_precedence TOK_AND = 2"
| "get_precedence TOK_EQ = 3"
| "get_precedence TOK_NE = 3"
| "get_precedence TOK_LT = 4"
| "get_precedence TOK_LE = 4"
| "get_precedence TOK_GT = 4"
| "get_precedence TOK_GE = 4"
| "get_precedence TOK_PLUS = 5"
| "get_precedence TOK_MINUS = 5"
| "get_precedence TOK_MULTIPLY = 6"
| "get_precedence TOK_DIVIDE = 6"
| "get_precedence TOK_MODULO = 6"
| "get_precedence TOK_NOT = 7"
| "get_precedence TOK_POWER = 8"
| "get_precedence _ = 0"

definition is_right_associative :: "token_type_t \<Rightarrow> bool" where
  "is_right_associative t = (t = TOK_POWER \<or> t = TOK_NOT)"

text \<open>\<^verbatim>\<open>fmod\<close>: the remainder with the sign of the dividend; NaN for a zero divisor.\<close>

definition c_fmod :: "double \<Rightarrow> double \<Rightarrow> double outcome" where
  "c_fmod l r =
     (if r = 0 then Inl Unmodelled
      else let q = l / r;
               v = l - r * of_int (if q \<ge> 0 then \<lfloor>q\<rfloor> else \<lceil>q\<rceil>)
           in if v = 0 \<and> l < 0 then Inl Unmodelled else Inr v)"

text \<open>\<^verbatim>\<open>pow\<close>, for an exponent that is an integer.\<close>

definition c_pow :: "double \<Rightarrow> double \<Rightarrow> double outcome" where
  "c_pow l r =
     (if r = of_int \<lfloor>r\<rfloor> then
        (if r \<ge> 0 then Inr (l ^ nat \<lfloor>r\<rfloor>)
         else if l = 0 then Inl Unmodelled
         else Inr (1 / l ^ nat (- \<lfloor>r\<rfloor>)))
      else Inl Unmodelled)"

definition bool_value :: "bool \<Rightarrow> double" where
  "bool_value b = (if b then 1 else 0)"

fun apply_operator :: "token_type_t \<Rightarrow> double \<Rightarrow> double \<Rightarrow> double outcome" where
  "apply_operator TOK_PLUS left right = Inr (left + right)"
| "apply_operator TOK_MINUS left right = Inr (left - right)"
| "apply_operator TOK_MULTIPLY left right =
     (if left * right = 0 \<and> (left < 0 \<or> right < 0) then Inl Unmodelled else Inr (left * right))"
| "apply_operator TOK_DIVIDE left right =
     (if right \<noteq> 0 then (if left = 0 \<and> right < 0 then Inl Unmodelled else Inr (left / right))
      else Inr 0)"
| "apply_operator TOK_MODULO left right = c_fmod left right"
| "apply_operator TOK_POWER left right = c_pow left right"
| "apply_operator TOK_LT left right = Inr (bool_value (left < right))"
| "apply_operator TOK_LE left right = Inr (bool_value (left \<le> right))"
| "apply_operator TOK_GT left right = Inr (bool_value (left > right))"
| "apply_operator TOK_GE left right = Inr (bool_value (left \<ge> right))"
| "apply_operator TOK_EQ left right = Inr (bool_value (\<bar>left - right\<bar> < 1 / 10 ^ 10))"
| "apply_operator TOK_NE left right = Inr (bool_value (\<bar>left - right\<bar> \<ge> 1 / 10 ^ 10))"
| "apply_operator TOK_AND left right = Inr (bool_value (left \<noteq> 0 \<and> right \<noteq> 0))"
| "apply_operator TOK_OR left right = Inr (bool_value (left \<noteq> 0 \<or> right \<noteq> 0))"
| "apply_operator _ left right = Inr 0"

text \<open>
  The one-argument functions.  Those computed by \<^verbatim>\<open>libm\<close> with inexact results
  (and \<^verbatim>\<open>rand\<close>) are outside the model; a name that is no function gives 0.
\<close>

definition libm_functions :: "string list" where
  "libm_functions = [''sin'', ''cos'', ''tan'', ''asin'', ''acos'', ''atan'', ''sinh'', ''cosh'',
     ''tanh'', ''sqrt'', ''cbrt'', ''ln'', ''log'', ''log10'', ''log2'', ''exp'', ''rand'',
     ''rad'', ''deg'']"

definition eval_function :: "string \<Rightarrow> double \<Rightarrow> double outcome" where
  "eval_function name arg =
     (if list_ex (bcl_strcasecmp_eq name) libm_functions then Inl Unmodelled
      else if bcl_strcasecmp_eq name ''abs'' then Inr \<bar>arg\<bar>
      else if bcl_strcasecmp_eq name ''int'' then Inr (of_int \<lfloor>arg\<rfloor>)
      else if bcl_strcasecmp_eq name ''double'' then Inr arg
      else if bcl_strcasecmp_eq name ''ceil'' then
        (if - 1 < arg \<and> arg < 0 then Inl Unmodelled else Inr (of_int \<lceil>arg\<rceil>))
      else if bcl_strcasecmp_eq name ''floor'' then Inr (of_int \<lfloor>arg\<rfloor>)
      else if bcl_strcasecmp_eq name ''round'' then
        (if - 1 / 2 < arg \<and> arg < 0 then Inl Unmodelled
         else if arg \<ge> 0 then Inr (of_int \<lfloor>arg + 1 / 2\<rfloor>) else Inr (of_int \<lceil>arg - 1 / 2\<rceil>))
      else if bcl_strcasecmp_eq name ''sign'' then
        Inr (if arg > 0 then 1 else if arg < 0 then - 1 else 0)
      else Inr 0)"

definition eval_function2 :: "string \<Rightarrow> double \<Rightarrow> double \<Rightarrow> double outcome" where
  "eval_function2 name arg1 arg2 =
     (if bcl_strcasecmp_eq name ''pow'' then c_pow arg1 arg2
      else if bcl_strcasecmp_eq name ''hypot'' \<or> bcl_strcasecmp_eq name ''atan2'' then Inl Unmodelled
      else if bcl_strcasecmp_eq name ''min'' then Inr (if arg1 < arg2 then arg1 else arg2)
      else if bcl_strcasecmp_eq name ''max'' then Inr (if arg1 > arg2 then arg1 else arg2)
      else if bcl_strcasecmp_eq name ''fmod'' then c_fmod arg1 arg2
      else Inr 0)"

definition is_function2 :: "string \<Rightarrow> bool" where
  "is_function2 name =
     list_ex (bcl_strcasecmp_eq name) [''pow'', ''hypot'', ''atan2'', ''min'', ''max'', ''fmod'']"

definition is_func_char :: "char \<Rightarrow> bool" where
  "is_func_char c = (isalpha c \<or> c = CHR ''_'')"

definition word_token :: "string \<Rightarrow> expr_token_t" where
  "word_token w =
     (if bcl_strcasecmp_eq w ''AND'' then (mk_token TOK_AND)\<lparr> func_name := w \<rparr>
      else if bcl_strcasecmp_eq w ''OR'' then (mk_token TOK_OR)\<lparr> func_name := w \<rparr>
      else if bcl_strcasecmp_eq w ''NOT'' then (mk_token TOK_NOT)\<lparr> func_name := w \<rparr>
      else (mk_token TOK_FUNCTION)\<lparr> func_name := w \<rparr>)"

definition two_char_op :: "char \<Rightarrow> char \<Rightarrow> token_type_t option" where
  "two_char_op a b =
     (if a = CHR ''*'' \<and> b = CHR ''*'' then Some TOK_POWER
      else if a = CHR ''<'' \<and> b = CHR ''='' then Some TOK_LE
      else if a = CHR ''>'' \<and> b = CHR ''='' then Some TOK_GE
      else if a = CHR ''!'' \<and> b = CHR ''='' then Some TOK_NE
      else if a = CHR ''&'' \<and> b = CHR ''&'' then Some TOK_AND
      else if a = CHR ''|'' \<and> b = CHR ''|'' then Some TOK_OR
      else if a = CHR ''='' \<and> b = CHR ''='' then Some TOK_EQ
      else None)"

definition one_char_op :: "char \<Rightarrow> token_type_t option" where
  "one_char_op a =
     (if a = CHR ''+'' then Some TOK_PLUS else if a = CHR ''-'' then Some TOK_MINUS
      else if a = CHR ''*'' then Some TOK_MULTIPLY else if a = CHR ''/'' then Some TOK_DIVIDE
      else if a = CHR ''%'' then Some TOK_MODULO else if a = CHR ''^'' then Some TOK_POWER
      else if a = CHR ''('' then Some TOK_LPAREN else if a = CHR '')'' then Some TOK_RPAREN
      else if a = CHR '','' then Some TOK_COMMA else if a = CHR ''<'' then Some TOK_LT
      else if a = CHR ''>'' then Some TOK_GT else if a = CHR ''!'' then Some TOK_NOT
      else None)"

text \<open>\<^verbatim>\<open>parse_expr_token\<close>: the next token and the unread rest of the expression.\<close>

definition parse_expr_token :: "string \<Rightarrow> (expr_token_t \<times> string) outcome" where
  "parse_expr_token expr =
     (case skip_spaces expr of
        [] \<Rightarrow> Inr (mk_token TOK_END, [])
      | c # cs \<Rightarrow>
          if isdigit c \<or> (c = CHR ''.'' \<and> cs \<noteq> [] \<and> isdigit (hd cs)) then
            (case strtod (c # cs) of
               Inl e \<Rightarrow> Inl e
             | Inr (v, r) \<Rightarrow> Inr ((mk_token TOK_NUMBER)\<lparr> tvalue := v \<rparr>, r))
          else if is_func_char c then
            (let w = take 31 (takeWhile is_func_char (c # cs))
             in Inr (word_token w, drop (length w) (c # cs)))
          else (case (if cs = [] then None else two_char_op c (hd cs)) of
                  Some t \<Rightarrow> Inr (mk_token t, tl cs)
                | None \<Rightarrow>
                    (case one_char_op c of
                       Some t \<Rightarrow> Inr (mk_token t, cs)
                     | None \<Rightarrow> Inr (mk_token TOK_END, c # cs))))"

text \<open>
  The two stacks hold the top first.  An operator is applied only when the value stack
  holds its operands; otherwise it is dropped.
\<close>

definition apply_func :: "string \<Rightarrow> double list \<Rightarrow> double list outcome" where
  "apply_func name vs =
     (if is_function2 name then
        (case vs of
           arg2 # arg1 # rest \<Rightarrow> map_sum id (\<lambda>v. v # rest) (eval_function2 name arg1 arg2)
         | _ \<Rightarrow> Inr vs)
      else
        (case vs of
           arg # rest \<Rightarrow> map_sum id (\<lambda>v. v # rest) (eval_function name arg)
         | [] \<Rightarrow> Inr vs))"

definition apply_not :: "double list \<Rightarrow> double list" where
  "apply_not vs = (case vs of [] \<Rightarrow> [] | v # rest \<Rightarrow> (if v = 0 then 1 else 0) # rest)"

definition apply_binary :: "token_type_t \<Rightarrow> double list \<Rightarrow> double list outcome" where
  "apply_binary t vs =
     (case vs of
        right # left # rest \<Rightarrow> map_sum id (\<lambda>v. v # rest) (apply_operator t left right)
      | _ \<Rightarrow> Inr vs)"

definition apply_popped :: "expr_token_t \<Rightarrow> double list \<Rightarrow> double list outcome" where
  "apply_popped opr vs =
     (if ttype opr = TOK_NOT then Inr (apply_not vs) else apply_binary (ttype opr) vs)"

text \<open>On \<open>)\<close>: pop and apply down to the nearest \<open>(\<close>.\<close>

fun pop_to_lparen ::
  "double list \<Rightarrow> expr_token_t list \<Rightarrow> (double list \<times> expr_token_t list) outcome" where
  "pop_to_lparen vs [] = Inr (vs, [])"
| "pop_to_lparen vs (opr # os) =
     (if ttype opr = TOK_LPAREN then Inr (vs, opr # os)
      else case (if ttype opr = TOK_FUNCTION then apply_func (func_name opr) vs
                 else apply_popped opr vs) of
             Inl e \<Rightarrow> Inl e
           | Inr vs' \<Rightarrow> pop_to_lparen vs' os)"

definition close_paren ::
  "double list \<Rightarrow> expr_token_t list \<Rightarrow> (double list \<times> expr_token_t list) outcome" where
  "close_paren vs ops =
     (case pop_to_lparen vs ops of
        Inl e \<Rightarrow> Inl e
      | Inr (vs1, ops1) \<Rightarrow>
          (case tl ops1 of
             [] \<Rightarrow> Inr (vs1, [])
           | f # os \<Rightarrow>
               if ttype f = TOK_FUNCTION
               then map_sum id (\<lambda>vs2. (vs2, os)) (apply_func (func_name f) vs1)
               else Inr (vs1, f # os)))"

text \<open>On an operator: pop and apply the operators that bind at least as tightly.\<close>

fun pop_by_precedence ::
  "token_type_t \<Rightarrow> double list \<Rightarrow> expr_token_t list
     \<Rightarrow> (double list \<times> expr_token_t list) outcome" where
  "pop_by_precedence t vs [] = Inr (vs, [])"
| "pop_by_precedence t vs (opr # os) =
     (if ttype opr = TOK_LPAREN then Inr (vs, opr # os)
      else if get_precedence (ttype opr) > get_precedence t
              \<or> (get_precedence (ttype opr) = get_precedence t \<and> \<not> is_right_associative t)
      then (case apply_popped opr vs of
              Inl e \<Rightarrow> Inl e
            | Inr vs' \<Rightarrow> pop_by_precedence t vs' os)
      else Inr (vs, opr # os))"

text \<open>At the end of the expression: pop and apply what is left.\<close>

fun pop_all :: "double list \<Rightarrow> expr_token_t list \<Rightarrow> double list outcome" where
  "pop_all vs [] = Inr vs"
| "pop_all vs (opr # os) =
     (case apply_popped opr vs of
        Inl e \<Rightarrow> Inl e
      | Inr vs' \<Rightarrow> pop_all vs' os)"

definition EXPR_STACK_SIZE :: nat where
  "EXPR_STACK_SIZE = 256"

lemma exponent_part_length: "length (snd (exponent_part r)) \<le> length r"
  by (auto simp: exponent_part_def Let_def intro: le_trans [OF length_dropWhile_le])

lemma isdigit_not_space: "isdigit c \<Longrightarrow> \<not> isspace c"
  by (auto simp: isdigit_def isspace_def Let_def)

lemma dot_sign_classes:
  "\<not> isspace CHR ''.''" "\<not> isdigit CHR ''.''" "\<not> isdigit CHR ''+''" "\<not> isdigit CHR ''-''"
  by (auto simp: isdigit_def isspace_def Let_def)

lemma strtod_progress:
  assumes "strtod (c # cs) = Inr (v, r)"
    and "isdigit c \<or> (c = CHR ''.'' \<and> cs \<noteq> [] \<and> isdigit (hd cs))"
  shows "length r < length (c # cs)"
proof -
  from assms(2) have ns: "\<not> isspace c" using isdigit_not_space dot_sign_classes by auto
  from assms(2) have sg: "c \<noteq> CHR ''+''" "c \<noteq> CHR ''-''" using dot_sign_classes by auto
  show ?thesis
  proof (cases "isdigit c")
    case True
    have "length (dropWhile isdigit cs) \<le> length cs" by (rule length_dropWhile_le)
    moreover have "\<And>x. length (snd (exponent_part x)) \<le> length x" by (rule exponent_part_length)
    moreover have "length (dropWhile isdigit (tl (dropWhile isdigit cs))) \<le> length cs"
      by (metis length_dropWhile_le le_trans length_tl diff_le_self)
    ultimately show ?thesis using assms(1) True ns sg
      by (auto simp: strtod_def skip_spaces_def Let_def split: if_splits
               intro: le_imp_less_Suc le_trans)
  next
    case False
    with assms(2) obtain d ds where cs: "cs = d # ds" "isdigit d" "c = CHR ''.''" by (cases cs) auto
    have "length (snd (exponent_part (dropWhile isdigit ds))) \<le> length ds"
      by (rule le_trans [OF exponent_part_length length_dropWhile_le])
    then show ?thesis using assms(1) cs dot_sign_classes
      by (auto simp: strtod_def skip_spaces_def Let_def split: if_splits
               intro: le_imp_less_Suc le_trans)
  qed
qed

lemma parse_expr_token_progress:
  assumes "parse_expr_token s = Inr (tok, r)" and "ttype tok \<noteq> TOK_END"
  shows "length r < length s"
proof -
  have le: "length (skip_spaces s) \<le> length s" by (simp add: skip_spaces_def length_dropWhile_le)
  show ?thesis
  proof (cases "skip_spaces s")
    case Nil
    with assms show ?thesis by (auto simp: parse_expr_token_def mk_token_def)
  next
    case (Cons c cs)
    have "length r < length (c # cs)"
    proof (cases "isdigit c \<or> (c = CHR ''.'' \<and> cs \<noteq> [] \<and> isdigit (hd cs))")
      case True
      with assms(1) Cons obtain v where "strtod (c # cs) = Inr (v, r)"
        by (auto simp: parse_expr_token_def split: sum.splits)
      then show ?thesis using strtod_progress True by blast
    next
      case False
      then show ?thesis using assms Cons
        by (auto simp: parse_expr_token_def mk_token_def Let_def split: if_splits option.splits)
    qed
    with Cons le show ?thesis by simp
  qed
qed

text \<open>
  The loop of \<^verbatim>\<open>bcl_cmd_expr\<close> over the tokens of the expression, the two stacks in
  hand; at the end of the tokens what is left on the operator stack is applied, and the
  value stack is returned.  A push onto a full stack (256 entries, unchecked in the
  source) is a \<open>Fault\<close>.
\<close>

function expr_loop :: "double list \<Rightarrow> expr_token_t list \<Rightarrow> string \<Rightarrow> double list outcome" where
  "expr_loop vs ops s =
     (case parse_expr_token s of
        Inl e \<Rightarrow> Inl e
      | Inr (tok, rest) \<Rightarrow>
          if ttype tok = TOK_END then pop_all vs ops
          else if ttype tok = TOK_NUMBER then
            (if length vs \<ge> EXPR_STACK_SIZE then Inl Fault else expr_loop (tvalue tok # vs) ops rest)
          else if ttype tok = TOK_FUNCTION \<or> ttype tok = TOK_LPAREN then
            (if length ops \<ge> EXPR_STACK_SIZE then Inl Fault else expr_loop vs (tok # ops) rest)
          else if ttype tok = TOK_COMMA then expr_loop vs ops rest
          else if ttype tok = TOK_RPAREN then
            (case close_paren vs ops of
               Inl e \<Rightarrow> Inl e
             | Inr (vs', ops') \<Rightarrow> expr_loop vs' ops' rest)
          else
            (case pop_by_precedence (ttype tok) vs ops of
               Inl e \<Rightarrow> Inl e
             | Inr (vs', ops') \<Rightarrow>
                 if length ops' \<ge> EXPR_STACK_SIZE then Inl Fault
                 else expr_loop vs' (tok # ops') rest))"
  by pat_completeness auto
termination
  apply (relation "measure (\<lambda>(vs, ops, s). length s)")
  apply (auto dest: parse_expr_token_progress)
  done

declare expr_loop.simps [simp del]

text \<open>
  The result of a command: its signal, the value it leaves in \<^verbatim>\<open>*result\<close> (which may
  stay NULL) and the interpreter after it.
\<close>

type_synonym cmd_result = "(bcl_result_t \<times> string option \<times> bcl_interp_t) outcome"

definition cmd_error :: "bcl_interp_t \<Rightarrow> string \<Rightarrow> cmd_result" where
  "cmd_error interp msg = Inr (BCL_ERROR, None, bcl_set_error interp msg)"

definition bcl_cmd_expr :: "bcl_interp_t \<Rightarrow> string list \<Rightarrow> cmd_result" where
  "bcl_cmd_expr interp argv =
     (if argv = [] then
        cmd_error interp (''EXPR: wrong # args: should be '' @ [CHR 0x22] @ ''EXPR expression'' @ [CHR 0x22])
      else case expr_loop [] [] (join_args argv) of
             Inl e \<Rightarrow> Inl e
           | Inr vs \<Rightarrow>
               (case render_number (case vs of [] \<Rightarrow> 0 | v # _ \<Rightarrow> v) of
                  Inl e \<Rightarrow> Inl e
                | Inr buf \<Rightarrow> Inr (BCL_OK, Some buf, interp)))"


section \<open>Commands (bcl\_commands.c, bcl\_control.c)\<close>

definition quoted :: "string \<Rightarrow> string" where
  "quoted s = CHR 0x22 # s @ [CHR 0x22]"

definition bcl_cmd_set :: "bcl_interp_t \<Rightarrow> string list \<Rightarrow> cmd_result" where
  "bcl_cmd_set interp argv =
     (case argv of
        [varname] \<Rightarrow>
          (case bcl_var_get interp varname of
             None \<Rightarrow> cmd_error interp (''can't read '' @ quoted varname @ '': no such variable'')
           | Some v \<Rightarrow> Inr (BCL_OK, Some v, interp))
      | [varname, val] \<Rightarrow> Inr (BCL_OK, Some val, bcl_var_set interp varname val)
      | _ \<Rightarrow> cmd_error interp (''SET: wrong # args: should be '' @ quoted ''SET varname ?value?''))"

definition bcl_cmd_unset :: "bcl_interp_t \<Rightarrow> string list \<Rightarrow> cmd_result" where
  "bcl_cmd_unset interp argv =
     (case argv of
        [varname] \<Rightarrow> Inr (BCL_OK, Some [], bcl_var_unset interp varname)
      | _ \<Rightarrow> cmd_error interp (''UNSET: wrong # args: should be '' @ quoted ''UNSET varname''))"

definition expected_integer :: "bcl_interp_t \<Rightarrow> string \<Rightarrow> cmd_result" where
  "expected_integer interp got = cmd_error interp (''expected integer but got '' @ quoted got)"

definition bcl_cmd_incr :: "bcl_interp_t \<Rightarrow> string list \<Rightarrow> cmd_result" where
  "bcl_cmd_incr interp argv =
     (if length argv < 1 \<or> length argv > 2 then
        cmd_error interp (''INCR: wrong # args: should be '' @ quoted ''INCR varname ?increment?'')
      else
        (case (if length argv = 2 then bcl_str_to_number (argv ! 1) else Inr (1, True)) of
           Inl e \<Rightarrow> Inl e
         | Inr (increment, ok) \<Rightarrow>
             if \<not> ok then expected_integer interp (argv ! 1)
             else
               (case (case bcl_var_get interp (hd argv) of
                        None \<Rightarrow> Inr (0, True)
                      | Some v \<Rightarrow> bcl_str_to_number v) of
                  Inl e \<Rightarrow> Inl e
                | Inr (current, ok2) \<Rightarrow>
                    if \<not> ok2 then expected_integer interp (value_or_empty (bcl_var_get interp (hd argv)))
                    else let buf = fmt_f0 (current + increment)
                         in Inr (BCL_OK, Some buf, bcl_var_set interp (hd argv) buf))))"

definition bcl_cmd_append :: "bcl_interp_t \<Rightarrow> string list \<Rightarrow> cmd_result" where
  "bcl_cmd_append interp argv =
     (case argv of
        [] \<Rightarrow> cmd_error interp (''APPEND: wrong # args: should be '' @ quoted ''APPEND varname ?value ...?'')
      | varname # vals \<Rightarrow>
          (let str = value_or_empty (bcl_var_get interp varname) @ concat vals
           in Inr (BCL_OK, Some str, bcl_var_set interp varname str)))"

text \<open>
  \<^verbatim>\<open>GLOBAL\<close>: without a local scope it does nothing; with one, every argument is entered
  in the \<open>global_refs\<close> of the current scope.  Nothing enters \<open>global_prefixes\<close>.
\<close>

definition bcl_cmd_global :: "bcl_interp_t \<Rightarrow> string list \<Rightarrow> cmd_result" where
  "bcl_cmd_global interp argv =
     (if argv = [] then
        cmd_error interp (''GLOBAL: wrong # args: should be '' @ quoted ''GLOBAL varName ?varName ...?'')
      else case scope_stack interp of
             [] \<Rightarrow> Inr (BCL_OK, Some [], interp)
           | sc # rest \<Rightarrow>
               Inr (BCL_OK, Some [],
                    interp\<lparr> scope_stack :=
                      sc\<lparr> global_refs := fold (\<lambda>varname t. bcl_hash_set t varname ''1'') argv (global_refs sc) \<rparr>
                      # rest \<rparr>))"

definition bcl_cmd_break :: "bcl_interp_t \<Rightarrow> string list \<Rightarrow> cmd_result" where
  "bcl_cmd_break interp argv = Inr (BCL_BREAK, Some [], interp)"

definition bcl_cmd_continue :: "bcl_interp_t \<Rightarrow> string list \<Rightarrow> cmd_result" where
  "bcl_cmd_continue interp argv = Inr (BCL_CONTINUE, Some [], interp)"

definition bcl_cmd_return :: "bcl_interp_t \<Rightarrow> string list \<Rightarrow> cmd_result" where
  "bcl_cmd_return interp argv =
     Inr (BCL_RETURN, Some (join_args argv), interp\<lparr> return_value := Some (join_args argv) \<rparr>)"

text \<open>The cast \<^verbatim>\<open>(int)\<close> of a \<^verbatim>\<open>double\<close>: truncation, undefined outside the range of \<^verbatim>\<open>int\<close>.\<close>

definition double_to_int :: "double \<Rightarrow> int outcome" where
  "double_to_int v =
     (let t = (if v \<ge> 0 then \<lfloor>v\<rfloor> else \<lceil>v\<rceil>)
      in if - (2 ^ 31) \<le> t \<and> t < 2 ^ 31 then Inr t else Inl Fault)"

definition bcl_cmd_exit :: "bcl_interp_t \<Rightarrow> string list \<Rightarrow> cmd_result" where
  "bcl_cmd_exit interp argv =
     (case argv of
        [] \<Rightarrow> Inr (BCL_EXIT, Some [], interp\<lparr> exit_code := 0 \<rparr>)
      | a # _ \<Rightarrow>
          (case bcl_str_to_number a of
             Inl e \<Rightarrow> Inl e
           | Inr (v, ok) \<Rightarrow>
               (case double_to_int v of
                  Inl e \<Rightarrow> Inl e
                | Inr code \<Rightarrow>
                    if \<not> ok then expected_integer interp a
                    else Inr (BCL_EXIT, Some [], interp\<lparr> exit_code := code \<rparr>))))"

text \<open>
  The whitespace-separated tokens handed to \<^verbatim>\<open>EXPR\<close> by the condition evaluators: a
  token stops after 4095 characters (the rest starts the next token), and at most 256
  tokens are kept.
\<close>

fun cond_tokens :: "nat \<Rightarrow> string \<Rightarrow> string \<Rightarrow> string list" where
  "cond_tokens k acc [] = (if acc = [] then [] else [rev acc])"
| "cond_tokens k acc (c # cs) =
     (if isspace c then
        (if acc = [] then cond_tokens (BCL_MAX_TOKEN_LEN - 1) [] cs
         else rev acc # cond_tokens (BCL_MAX_TOKEN_LEN - 1) [] cs)
      else if k = 0 then rev acc # cond_tokens (BCL_MAX_TOKEN_LEN - 2) [c] cs
      else cond_tokens (k - 1) (c # acc) cs)"

text \<open>
  The common end of \<^verbatim>\<open>eval_condition\<close> and \<^verbatim>\<open>eval_block_condition\<close>: expand the
  variables, hand the tokens to \<^verbatim>\<open>EXPR\<close>, and read its result as a truth value.
\<close>

definition condition_value :: "bcl_interp_t \<Rightarrow> string \<Rightarrow> bool outcome" where
  "condition_value interp text =
     (let argv = take 256 (cond_tokens (BCL_MAX_TOKEN_LEN - 1) [] (bcl_expand_vars interp text))
      in if argv = [] then Inr False
         else case bcl_cmd_expr interp argv of
                Inl e \<Rightarrow> Inl e
              | Inr (res, result, _) \<Rightarrow>
                  Inr (res = BCL_OK \<and> result \<noteq> None \<and> bcl_value_to_bool (value_or_empty result)))"

definition eval_condition :: "bcl_interp_t \<Rightarrow> string \<Rightarrow> bool outcome" where
  "eval_condition interp cond = (if cond = [] then Inr False else condition_value interp cond)"


section \<open>The evaluator (bcl\_eval.c, bcl\_interp.c, bcl\_block.c)\<close>

text \<open>
  Executing a block, evaluating a text, calling a procedure and dispatching a command
  call each other.  Each function below takes the recursive entry points as the
  parameter \<open>self\<close>: \<open>self (Exec_block p)\<close> is \<^verbatim>\<open>bcl_exec_block\<close> on the block at \<open>p\<close> and
  \<open>self (Eval code)\<close> is \<^verbatim>\<open>bcl_eval\<close>.  The knot is tied by \<open>run\<close> below, by recursion on
  the number of nested evaluations allowed.
\<close>

datatype call = Exec_block "nat option" | Eval string

type_synonym knot = "call \<Rightarrow> bcl_interp_t \<Rightarrow> cmd_result"

definition exec_via :: "knot \<Rightarrow> bcl_interp_t \<Rightarrow> nat option \<Rightarrow> (bcl_result_t \<times> bcl_interp_t) outcome" where
  "exec_via self interp p = map_sum id (\<lambda>(res, _, i). (res, i)) (self (Exec_block p) interp)"

text \<open>\<^verbatim>\<open>bcl_eval_subcommand\<close>: the result of the text, or nothing unless it ended with Ok.\<close>

definition bcl_eval_subcommand :: "knot \<Rightarrow> bcl_interp_t \<Rightarrow> string \<Rightarrow> (string \<times> bcl_interp_t) outcome" where
  "bcl_eval_subcommand self interp cmd =
     map_sum id (\<lambda>(res, result, i). (if res \<noteq> BCL_OK then [] else value_or_empty result, i))
       (self (Eval cmd) interp)"

text \<open>
  The inline \<^verbatim>\<open>IF cond THEN cmd [ELSE cmd] END\<close> of one line (bcl\_control.c).
\<close>

definition find_keyword :: "string \<Rightarrow> string list \<Rightarrow> nat option" where
  "find_keyword k xs =
     (if list_ex (bcl_strcasecmp_eq k) xs
      then Some (length (takeWhile (\<lambda>x. \<not> bcl_strcasecmp_eq x k) xs)) else None)"

definition bcl_cmd_if :: "knot \<Rightarrow> bcl_interp_t \<Rightarrow> string list \<Rightarrow> cmd_result" where
  "bcl_cmd_if self interp argv =
     (if length argv < 4 then
        cmd_error interp (''IF: wrong # args: should be ''
           @ quoted ''IF condition THEN command [ELSE command] END'')
      else case find_keyword ''THEN'' (tl argv) of
             None \<Rightarrow> cmd_error interp ''IF: missing THEN keyword''
           | Some t \<Rightarrow>
               (case eval_condition interp (join_args (take (Suc t) argv)) of
                  Inl e \<Rightarrow> Inl e
                | Inr cond_result \<Rightarrow>
                    (let after = drop (Suc (Suc t)) argv in
                     case find_keyword ''END'' after of
                       None \<Rightarrow> cmd_error interp ''IF: missing END keyword''
                     | Some e \<Rightarrow>
                         (let body = take e after;
                              else_idx = find_keyword ''ELSE'' body;
                              cmd = (if cond_result then
                                       Some (case else_idx of None \<Rightarrow> body | Some l \<Rightarrow> take l body)
                                     else map_option (\<lambda>l. drop (Suc l) body) else_idx)
                          in case cmd of
                               None \<Rightarrow> Inr (BCL_OK, None, interp)
                             | Some ws \<Rightarrow>
                                 if join_args ws = [] then Inr (BCL_OK, None, interp)
                                 else self (Eval (join_args ws)) interp))))"

definition not_implemented :: "bcl_interp_t \<Rightarrow> string \<Rightarrow> cmd_result" where
  "not_implemented interp what =
     cmd_error interp (what @ '': multi-line control structures not yet implemented'')"

definition bcl_proc_define ::
  "bcl_interp_t \<Rightarrow> string \<Rightarrow> (string \<times> bool) list \<Rightarrow> nat option \<Rightarrow> bcl_interp_t" where
  "bcl_proc_define interp name ps body =
     interp\<lparr> procedures := bcl_hash_set (procedures interp) name
                \<lparr> pname = name, params = ps, body_block = body \<rparr> \<rparr>"

definition bcl_proc_exists :: "bcl_interp_t \<Rightarrow> string \<Rightarrow> bool" where
  "bcl_proc_exists interp name = bcl_hash_exists (procedures interp) name"

fun bind_params :: "bcl_interp_t \<Rightarrow> (string \<times> bool) list \<Rightarrow> string list \<Rightarrow> bcl_interp_t" where
  "bind_params interp (p # ps) (a # args) = bind_params (bcl_var_set interp (fst p) a) ps args"
| "bind_params interp _ _ = interp"

text \<open>
  \<^verbatim>\<open>bcl_proc_call\<close>: the number of arguments is checked against the number of required
  parameters; a scope is pushed; the parameters are bound by position; the body runs; a
  Return signal becomes Ok, its value the result; the scope is popped.
\<close>

definition bcl_proc_call :: "knot \<Rightarrow> bcl_interp_t \<Rightarrow> string \<Rightarrow> string list \<Rightarrow> cmd_result" where
  "bcl_proc_call self interp name args =
     (case bcl_hash_get (procedures interp) name of
        None \<Rightarrow> cmd_error interp (''invalid command name '' @ quoted name)
      | Some proc \<Rightarrow>
          if length args < length (filter (\<lambda>p. \<not> snd p) (params proc)) then
            cmd_error interp (''wrong # args: should be '' @ quoted (name @ '' param ...''))
          else
            (case bcl_scope_push interp of
               (res0, i1) \<Rightarrow>
                 if res0 \<noteq> BCL_OK then Inr (res0, None, i1)
                 else
                   (case (case body_block proc of
                            None \<Rightarrow> Inr (BCL_OK, bind_params i1 (params proc) args)
                          | Some b \<Rightarrow> exec_via self (bind_params i1 (params proc) args) (Some b)) of
                      Inl e \<Rightarrow> Inl e
                    | Inr (res, i3) \<Rightarrow>
                        if res = BCL_RETURN then
                          Inr (BCL_OK, Some (value_or_empty (return_value i3)),
                               snd (bcl_scope_pop (i3\<lparr> return_value := None \<rparr>)))
                        else Inr (res, Some [], snd (bcl_scope_pop i3)))))"

text \<open>
  The command table.  The commands of the variable, expression and control-flow groups
  are modelled; the others (input and output, arrays, lists, strings, files, the system)
  are leaves outside the model.
\<close>

definition command_table :: "string list" where
  "command_table = [''SET'', ''UNSET'', ''INCR'', ''APPEND'', ''GLOBAL'', ''PUTS'', ''PUTSN'', ''GETS'',
     ''EXPR'', ''IF'', ''WHILE'', ''FOR'', ''FOREACH'', ''SWITCH'', ''BREAK'', ''CONTINUE'', ''RETURN'',
     ''EXIT'', ''ARRAY'', ''BINARY'', ''LIST'', ''SPLIT'', ''JOIN'', ''LINDEX'', ''LRANGE'', ''LLENGTH'',
     ''LAPPEND'', ''LINSERT'', ''LREPLACE'', ''CONCAT'', ''LSORT'', ''LSEARCH'', ''INFO'', ''CLOCK'',
     ''STRING'', ''FORMAT'', ''SCAN'', ''REGEXP'', ''REGSUB'', ''OPEN'', ''CLOSE'', ''READ'', ''TELL'',
     ''SEEK'', ''EOF'', ''PWD'', ''FILE'', ''GLOB'', ''EVAL'', ''SOURCE'', ''LOAD'', ''ENV'', ''ARGV'',
     ''EXEC'', ''AFTER'', ''EVENT'']"

definition builtin :: "knot \<Rightarrow> string \<Rightarrow> bcl_interp_t \<Rightarrow> string list \<Rightarrow> cmd_result" where
  "builtin self cmd interp argv =
     (if cmd = ''SET'' then bcl_cmd_set interp argv
      else if cmd = ''UNSET'' then bcl_cmd_unset interp argv
      else if cmd = ''INCR'' then bcl_cmd_incr interp argv
      else if cmd = ''APPEND'' then bcl_cmd_append interp argv
      else if cmd = ''GLOBAL'' then bcl_cmd_global interp argv
      else if cmd = ''EXPR'' then bcl_cmd_expr interp argv
      else if cmd = ''IF'' then bcl_cmd_if self interp argv
      else if cmd = ''WHILE'' \<or> cmd = ''FOR'' \<or> cmd = ''FOREACH'' \<or> cmd = ''SWITCH''
        then not_implemented interp cmd
      else if cmd = ''BREAK'' then bcl_cmd_break interp argv
      else if cmd = ''CONTINUE'' then bcl_cmd_continue interp argv
      else if cmd = ''RETURN'' then bcl_cmd_return interp argv
      else if cmd = ''EXIT'' then bcl_cmd_exit interp argv
      else Inl Unmodelled)"

text \<open>
  \<^verbatim>\<open>bcl_dispatch_command\<close>: the command table first, then the procedures; no extension
  is loaded (\<^verbatim>\<open>LOAD\<close> is outside the model), so any other name is an error.
\<close>

definition bcl_dispatch_command :: "knot \<Rightarrow> bcl_interp_t \<Rightarrow> string \<Rightarrow> string list \<Rightarrow> cmd_result" where
  "bcl_dispatch_command self interp name argv =
     (case find (\<lambda>c. bcl_strcasecmp_eq c name) command_table of
        Some cmd \<Rightarrow> builtin self cmd interp argv
      | None \<Rightarrow>
          if bcl_proc_exists interp name then bcl_proc_call self interp name argv
          else cmd_error interp (''invalid command name '' @ quoted name))"

text \<open>
  The loop of \<^verbatim>\<open>bcl_eval\<close> over the lines of a text: it stops at the first command whose
  signal is not Ok; the result is that of the last command run.
\<close>

fun eval_lines :: "knot \<Rightarrow> bcl_interp_t \<Rightarrow> string option \<Rightarrow> string list \<Rightarrow> cmd_result" where
  "eval_lines self interp last_result [] = Inr (BCL_OK, Some (value_or_empty last_result), interp)"
| "eval_lines self interp last_result (line # rest) =
     (case bcl_parse_line (bcl_eval_subcommand self) interp line of
        Inl e \<Rightarrow> Inl e
      | Inr (argv, i1) \<Rightarrow>
          if argv = [] then eval_lines self i1 last_result rest
          else
            (case bcl_dispatch_command self i1 (hd argv) (tl argv) of
               Inl e \<Rightarrow> Inl e
             | Inr (res, cmd_result, i2) \<Rightarrow>
                 if res \<noteq> BCL_OK then Inr (res, Some (value_or_empty cmd_result), i2)
                 else eval_lines self i2 cmd_result rest))"

definition bcl_eval :: "knot \<Rightarrow> bcl_interp_t \<Rightarrow> string \<Rightarrow> cmd_result" where
  "bcl_eval self interp code = eval_lines self interp None (split_lines code)"


subsection \<open>Executing blocks\<close>

type_synonym exec_result = "(bcl_result_t \<times> bcl_interp_t) outcome"

text \<open>
  \<^verbatim>\<open>exec_block_items\<close>: the items in order, stopping at the first signal that is not
  Ok.  A line with no arguments is skipped; executing a NULL block pointer is an Error.
  The items are those the block has when the loop starts: the only writes to the items
  of an existing block are those of an executed \<^verbatim>\<open>PROC\<close> block to its own items, and a
  \<^verbatim>\<open>PROC\<close> block's items are never run through this loop.
\<close>

fun exec_block_items :: "knot \<Rightarrow> bcl_interp_t \<Rightarrow> block_item_t list \<Rightarrow> exec_result" where
  "exec_block_items self interp [] = Inr (BCL_OK, interp)"
| "exec_block_items self interp (ITEM_LINE line # rest) =
     (case bcl_parse_line (bcl_eval_subcommand self) interp line of
        Inl e \<Rightarrow> Inl e
      | Inr (argv, i1) \<Rightarrow>
          if argv = [] then exec_block_items self i1 rest
          else
            (case bcl_dispatch_command self i1 (hd argv) (tl argv) of
               Inl e \<Rightarrow> Inl e
             | Inr (res, _, i2) \<Rightarrow>
                 if res \<noteq> BCL_OK then Inr (res, i2) else exec_block_items self i2 rest))"
| "exec_block_items self interp (ITEM_BLOCK p # rest) =
     (case exec_via self interp p of
        Inl e \<Rightarrow> Inl e
      | Inr (res, i1) \<Rightarrow>
          if res \<noteq> BCL_OK then Inr (res, i1) else exec_block_items self i1 rest)"

text \<open>\<^verbatim>\<open>eval_block_condition\<close>: subcommands are expanded first, which may change the state.\<close>

definition eval_block_condition ::
  "knot \<Rightarrow> bcl_interp_t \<Rightarrow> string option \<Rightarrow> (bool \<times> bcl_interp_t) outcome" where
  "eval_block_condition self interp cond =
     (case cond of
        None \<Rightarrow> Inr (False, interp)
      | Some c \<Rightarrow>
          if c = [] then Inr (False, interp)
          else
            (case bcl_expand_subcommands (bcl_eval_subcommand self) interp [] c of
               Inl e \<Rightarrow> Inl e
             | Inr (with_cmds, i1) \<Rightarrow>
                 map_sum id (\<lambda>b. (b, i1)) (condition_value i1 with_cmds)))"

definition exec_error :: "bcl_interp_t \<Rightarrow> string \<Rightarrow> exec_result" where
  "exec_error interp msg = Inr (BCL_ERROR, bcl_set_error interp msg)"

text \<open>
  What the While loop of block \<open>b\<close> does with the signal of one run of its body: Break
  ends the loop with Ok, Continue and Ok go on to the next iteration (the block is
  executed again), anything else leaves the loop as it is.
\<close>

definition run_items :: "knot \<Rightarrow> block_item_t list \<Rightarrow> bcl_interp_t \<Rightarrow> exec_result" where
  "run_items self its interp = exec_block_items self interp its"


definition loop_step :: "knot \<Rightarrow> nat \<Rightarrow> bcl_result_t \<Rightarrow> bcl_interp_t \<Rightarrow> exec_result" where
  "loop_step self b res interp =
     (if res = BCL_BREAK then Inr (BCL_OK, interp)
      else if res = BCL_CONTINUE \<or> res = BCL_OK then exec_via self interp (Some b)
      else Inr (res, interp))"

text \<open>
  The \<^verbatim>\<open>for\<close> loop of a For block: \<open>body\<close> runs the items of the block.  The counter is
  rendered into the variable \<^verbatim>\<open>__FOR\<close> before each run.
\<close>

lemma for_loop_measure:
  fixes i fin paso :: real
  assumes "(paso > 0 \<and> i \<le> fin) \<or> (paso < 0 \<and> i \<ge> fin)"
  shows "nat (\<lfloor>(fin - (i + paso)) / paso\<rfloor> + 1) < nat (\<lfloor>(fin - i) / paso\<rfloor> + 1)"
proof -
  have nonneg: "0 \<le> (fin - i) / paso" using assms by (auto simp: divide_nonpos_neg)
  have step: "(fin - (i + paso)) / paso = (fin - i) / paso - 1" using assms
    by (auto simp: field_simps)
  have "\<lfloor>(fin - (i + paso)) / paso\<rfloor> = \<lfloor>(fin - i) / paso\<rfloor> - 1"
    unfolding step by linarith
  moreover have "0 \<le> \<lfloor>(fin - i) / paso\<rfloor>" using nonneg by simp
  ultimately show ?thesis by simp
qed

lemma for_loop_rel:
  fixes i fin paso :: real
  assumes "(paso > 0 \<and> i \<le> fin) \<or> (paso < 0 \<and> i \<ge> fin)"
  shows "((body, i2, i + paso, fin, paso), (body, interp, i, fin, paso))
           \<in> measure (\<lambda>(body, interp, i, fin, paso). nat (\<lfloor>(fin - i) / paso\<rfloor> + 1))"
  using for_loop_measure [OF assms] by simp

function for_loop ::
  "(bcl_interp_t \<Rightarrow> exec_result) \<Rightarrow> bcl_interp_t \<Rightarrow> double \<Rightarrow> double \<Rightarrow> double \<Rightarrow> exec_result" where
  "for_loop body interp i fin paso =
     (if (paso > 0 \<and> i \<le> fin) \<or> (paso < 0 \<and> i \<ge> fin) then
        (case render_number i of
           Inl e \<Rightarrow> Inl e
         | Inr for_value \<Rightarrow>
             (case body (bcl_var_set interp ''__FOR'' for_value) of
                Inl e \<Rightarrow> Inl e
              | Inr (res, i2) \<Rightarrow>
                  if res = BCL_BREAK then Inr (BCL_OK, i2)
                  else if res = BCL_CONTINUE \<or> res = BCL_OK then for_loop body i2 (i + paso) fin paso
                  else Inr (res, i2)))
      else Inr (BCL_OK, interp))"
  by pat_completeness auto
termination
  apply (relation "measure (\<lambda>(body, interp, i, fin, paso). nat (\<lfloor>(fin - i) / paso\<rfloor> + 1))")
    apply (rule wf_measure)
   apply (rule for_loop_rel, simp)+
  done

declare for_loop.simps [simp del]

text \<open>The loop of a ForEach block over the elements of its list.\<close>

fun foreach_loop ::
  "(bcl_interp_t \<Rightarrow> exec_result) \<Rightarrow> bcl_interp_t \<Rightarrow> string \<Rightarrow> string list \<Rightarrow> exec_result" where
  "foreach_loop body interp var [] = Inr (BCL_OK, interp)"
| "foreach_loop body interp var (item # rest) =
     (case body (bcl_var_set interp var item) of
        Inl e \<Rightarrow> Inl e
      | Inr (res, i2) \<Rightarrow>
          if res = BCL_BREAK then Inr (BCL_OK, i2)
          else if res = BCL_CONTINUE \<or> res = BCL_OK then foreach_loop body i2 var rest
          else Inr (res, i2))"

text \<open>One call of \<^verbatim>\<open>strtok_r\<close>: the token, if any, and the saved position after it.\<close>

definition strtok_r :: "(char \<Rightarrow> bool) \<Rightarrow> string \<Rightarrow> string option \<times> string" where
  "strtok_r d s =
     (let s1 = dropWhile d s
      in if s1 = [] then (None, [])
         else (Some (takeWhile (\<lambda>c. \<not> d c) s1), drop 1 (dropWhile (\<lambda>c. \<not> d c) s1)))"

text \<open>The operands of a For block: \<^verbatim>\<open>inicio TO fin [STEP paso]\<close>.\<close>

definition parse_for :: "string \<Rightarrow> (string \<times> string \<times> string option) option" where
  "parse_for cond =
     (case strtok_all is_blank [] cond of
        inicio_str # to_keyword # fin_str # extra \<Rightarrow>
          if \<not> bcl_strcasecmp_eq to_keyword ''TO'' then None
          else Some (inicio_str, fin_str,
                 (case extra of
                    step_keyword # paso_str # _ \<Rightarrow>
                      if bcl_strcasecmp_eq step_keyword ''STEP'' then Some paso_str else None
                  | _ \<Rightarrow> None))
      | _ \<Rightarrow> None)"

definition exec_for :: "knot \<Rightarrow> bcl_interp_t \<Rightarrow> bcl_block_t \<Rightarrow> exec_result" where
  "exec_for self interp blk =
     (case condition blk of
        None \<Rightarrow> exec_error interp ''FOR: missing condition''
      | Some cond \<Rightarrow>
          (case parse_for cond of
             None \<Rightarrow> exec_error interp
                       (''FOR: invalid syntax, expected '' @ [CHR 0x27]
                        @ ''inicio TO fin [STEP paso]'' @ [CHR 0x27])
           | Some (inicio_str, fin_str, paso_str) \<Rightarrow>
               (case atof inicio_str of
                  Inl e \<Rightarrow> Inl e
                | Inr inicio \<Rightarrow>
                    (case atof fin_str of
                       Inl e \<Rightarrow> Inl e
                     | Inr fin \<Rightarrow>
                         (case (case paso_str of None \<Rightarrow> Inr 1 | Some ps \<Rightarrow> atof ps) of
                            Inl e \<Rightarrow> Inl e
                          | Inr paso \<Rightarrow>
                              for_loop (run_items self (items blk)) interp inicio fin paso)))))"

definition list_delim :: "char \<Rightarrow> bool" where
  "list_delim c = (c = CHR '' '' \<or> c = CHR 0x09 \<or> c = CHR 0x0A)"

definition exec_foreach :: "knot \<Rightarrow> bcl_interp_t \<Rightarrow> bcl_block_t \<Rightarrow> exec_result" where
  "exec_foreach self interp blk =
     (case condition blk of
        None \<Rightarrow> exec_error interp ''FOREACH: missing condition''
      | Some cond \<Rightarrow>
          (case strtok_r is_blank cond of
             (None, _) \<Rightarrow> exec_error interp ''FOREACH: missing variable name''
           | (Some varname, save1) \<Rightarrow>
               (case strtok_r is_blank save1 of
                  (next_token, save2) \<Rightarrow>
                    (let lista_expr =
                           (case next_token of
                              None \<Rightarrow> []
                            | Some t \<Rightarrow>
                                if t = ''IN'' \<or> t = ''in'' then save2
                                else if save2 \<noteq> [] then t @ '' '' @ save2 else t)
                     in if lista_expr = [] then exec_error interp ''FOREACH: missing list''
                        else
                          foreach_loop (run_items self (items blk)) interp varname
                            (strtok_all list_delim []
                               (if hd lista_expr = CHR ''$''
                                then value_or_empty (bcl_var_get interp (tl lista_expr))
                                else lista_expr))))))"

text \<open>
  The parameters of a \<^verbatim>\<open>PROC\<close>: at most 32 names; a leading \<open>@\<close> marks an optional one;
  a name that is empty after the \<open>@\<close> is skipped.
\<close>

definition parse_params :: "string option \<Rightarrow> (string \<times> bool) list" where
  "parse_params ps =
     take 32 (concat (map (\<lambda>t. if hd t = CHR ''@'' then (if tl t = [] then [] else [(tl t, True)])
                                 else [(t, False)])
                          (strtok_all is_blank [] (value_or_empty ps))))"

text \<open>
  Executing a \<^verbatim>\<open>PROC\<close> block defines the procedure.  Its body is a new Sequence block
  that receives the items of the \<^verbatim>\<open>PROC\<close> block: lines are copied, block pointers are
  moved, the \<^verbatim>\<open>PROC\<close> block keeping NULL in their place (a NULL pointer is not added to
  the body).
\<close>

definition exec_proc :: "bcl_interp_t \<Rightarrow> nat \<Rightarrow> bcl_block_t \<Rightarrow> exec_result" where
  "exec_proc interp b blk =
     (case proc_name blk of
        None \<Rightarrow> exec_error interp ''PROC: missing procedure name''
      | Some name \<Rightarrow>
          (let body = (block_create BLOCK_NONE)
                 \<lparr> items := filter (\<lambda>it. it \<noteq> ITEM_BLOCK None) (items blk) \<rparr>;
               emptied = blk\<lparr> items := map (\<lambda>it. case it of ITEM_LINE l \<Rightarrow> ITEM_LINE l
                                                    | ITEM_BLOCK _ \<Rightarrow> ITEM_BLOCK None) (items blk) \<rparr>;
               body_ptr = length (blocks interp);
               i1 = interp\<lparr> blocks := (blocks interp)[b := emptied] @ [body] \<rparr>
           in Inr (BCL_OK, bcl_proc_define i1 name (parse_params (proc_params blk)) (Some body_ptr))))"

text \<open>
  The scan of a Switch block over its children, in order: a Case whose expanded label
  equals the value runs, and so does a Default as soon as the scan reaches it.
\<close>

fun exec_switch :: "knot \<Rightarrow> bcl_interp_t \<Rightarrow> string \<Rightarrow> nat list \<Rightarrow> exec_result" where
  "exec_switch self interp switch_value [] = Inr (BCL_OK, interp)"
| "exec_switch self interp switch_value (c # cs) =
     (if c \<ge> length (blocks interp) then Inl Fault
      else let case_block = blocks interp ! c in
        if btype case_block = BLOCK_CASE then
          (if switch_value = bcl_expand_vars interp (value_or_empty (condition case_block))
           then exec_block_items self interp (items case_block)
           else exec_switch self interp switch_value cs)
        else if btype case_block = BLOCK_DEFAULT then exec_block_items self interp (items case_block)
        else exec_switch self interp switch_value cs)"

text \<open>The first ElseIf or Else among the children of an If or ElseIf block.\<close>

definition find_sibling :: "bcl_interp_t \<Rightarrow> nat list \<Rightarrow> nat option" where
  "find_sibling interp cs =
     find (\<lambda>c. c < length (blocks interp)
               \<and> (btype (blocks interp ! c) = BLOCK_ELSEIF \<or> btype (blocks interp ! c) = BLOCK_ELSE)) cs"

text \<open>
  \<^verbatim>\<open>bcl_exec_block\<close>.  The \<^verbatim>\<open>while\<close> loop of a While block is unfolded by one
  iteration: after a body that ends with Ok or Continue the loop goes on, which is the
  execution of the same block again from the state reached.
\<close>

definition bcl_exec_block :: "knot \<Rightarrow> bcl_interp_t \<Rightarrow> nat option \<Rightarrow> exec_result" where
  "bcl_exec_block self interp p =
     (case p of
        None \<Rightarrow> Inr (BCL_ERROR, interp)
      | Some b \<Rightarrow>
          if b \<ge> length (blocks interp) then Inl Fault
          else let blk = blocks interp ! b in
            (case btype blk of
               BLOCK_NONE \<Rightarrow> exec_block_items self interp (items blk)
             | BLOCK_ELSE \<Rightarrow> exec_block_items self interp (items blk)
             | BLOCK_WHILE \<Rightarrow>
                 (case eval_block_condition self interp (condition blk) of
                    Inl e \<Rightarrow> Inl e
                  | Inr (c, i1) \<Rightarrow>
                      if \<not> c then Inr (BCL_OK, i1)
                      else
                        (case exec_block_items self i1 (items blk) of
                           Inl e \<Rightarrow> Inl e
                         | Inr (res, i2) \<Rightarrow> loop_step self b res i2))
             | BLOCK_FOR \<Rightarrow> exec_for self interp blk
             | BLOCK_FOREACH \<Rightarrow> exec_foreach self interp blk
             | BLOCK_PROC \<Rightarrow> exec_proc interp b blk
             | BLOCK_SWITCH \<Rightarrow>
                 (case condition blk of
                    None \<Rightarrow> exec_error interp ''SWITCH: missing expression''
                  | Some cond \<Rightarrow> exec_switch self interp (bcl_expand_vars interp cond) (children blk))
             | BLOCK_CASE \<Rightarrow> exec_error interp ''Block type not yet implemented''
             | BLOCK_DEFAULT \<Rightarrow> exec_error interp ''Block type not yet implemented''
             | _ \<Rightarrow>
                 (case eval_block_condition self interp (condition blk) of
                    Inl e \<Rightarrow> Inl e
                  | Inr (c, i1) \<Rightarrow>
                      if c then exec_block_items self i1 (items blk)
                      else (case find_sibling i1 (children blk) of
                              None \<Rightarrow> Inr (BCL_OK, i1)
                            | Some sibling \<Rightarrow> exec_via self i1 (Some sibling)))))"

text \<open>
  The knot: \<open>run n\<close> allows \<open>n\<close> nested entries into \<^verbatim>\<open>bcl_exec_block\<close> and \<^verbatim>\<open>bcl_eval\<close>
  (each further iteration of a While loop counts as one), and is \<open>Timeout\<close> beyond.
\<close>

primrec run :: "nat \<Rightarrow> knot" where
  "run 0 c interp = Inl Timeout"
| "run (Suc n) c interp =
     (case c of
        Exec_block p \<Rightarrow> map_sum id (\<lambda>(res, i). (res, None, i)) (bcl_exec_block (run n) interp p)
      | Eval code \<Rightarrow> bcl_eval (run n) interp code)"

text \<open>
  \<^verbatim>\<open>bcl_eval_structured\<close>: parse the text into blocks, execute the root.  The parsed
  blocks are allocated in the memory of the interpreter and stay there (the source frees
  the tree after the execution).
\<close>

definition bcl_eval_structured :: "nat \<Rightarrow> bcl_interp_t \<Rightarrow> string \<Rightarrow> exec_result" where
  "bcl_eval_structured n interp code =
     (case bcl_parse_blocks (blocks interp) code of
        Inl f \<Rightarrow> Inl Fault
      | Inr st \<Rightarrow>
          bcl_exec_block (run n) (interp\<lparr> blocks := heap st \<rparr>) (Some (length (blocks interp))))"


section \<open>Evaluation on concrete inputs\<close>

text \<open>
  The character classes on a character given by its bits, and the decimal digits: the
  equations with which the simplifier runs the model on a concrete script.
\<close>

lemma isspace_Char [ev]:
  "isspace (Char b0 b1 b2 b3 b4 b5 b6 b7) =
     (\<not> b7 \<and> \<not> b6 \<and> ((b5 \<and> \<not> b4 \<and> \<not> b3 \<and> \<not> b2 \<and> \<not> b1 \<and> \<not> b0)
        \<or> (\<not> b5 \<and> \<not> b4 \<and> b3 \<and> ((\<not> b2 \<and> (b1 \<or> b0)) \<or> (b2 \<and> \<not> b1)))))"
  by (cases b0; cases b1; cases b2; cases b3; cases b4; cases b5; cases b6; cases b7;
      simp add: isspace_def)

lemma isdigit_Char [ev]:
  "isdigit (Char b0 b1 b2 b3 b4 b5 b6 b7) =
     (\<not> b7 \<and> \<not> b6 \<and> b5 \<and> b4 \<and> \<not> (b3 \<and> (b2 \<or> b1)))"
  by (cases b0; cases b1; cases b2; cases b3; cases b4; cases b5; cases b6; cases b7;
      simp add: isdigit_def)

lemma isupper_Char [ev]:
  "isupper (Char b0 b1 b2 b3 b4 b5 b6 b7) =
     (\<not> b7 \<and> b6 \<and> \<not> b5 \<and> (b0 \<or> b1 \<or> b2 \<or> b3 \<or> b4) \<and> \<not> (b4 \<and> b3 \<and> (b2 \<or> (b1 \<and> b0))))"
  by (cases b0; cases b1; cases b2; cases b3; cases b4; cases b5; cases b6; cases b7;
      simp add: isupper_def)

lemma islower_Char [ev]:
  "islower (Char b0 b1 b2 b3 b4 b5 b6 b7) =
     (\<not> b7 \<and> b6 \<and> b5 \<and> (b0 \<or> b1 \<or> b2 \<or> b3 \<or> b4) \<and> \<not> (b4 \<and> b3 \<and> (b2 \<or> (b1 \<and> b0))))"
  by (cases b0; cases b1; cases b2; cases b3; cases b4; cases b5; cases b6; cases b7;
      simp add: islower_def)

lemma tolower_Char [ev]:
  "tolower (Char b0 b1 b2 b3 b4 b5 b6 b7) =
     (if isupper (Char b0 b1 b2 b3 b4 b5 b6 b7) then Char b0 b1 b2 b3 b4 True b6 b7
      else Char b0 b1 b2 b3 b4 b5 b6 b7)"
  unfolding tolower_def isupper_Char
  by (cases b0; cases b1; cases b2; cases b3; cases b4; cases b5; cases b6; cases b7;
      simp add: char_of_def bit_Suc_0_iff)

lemma digit_of_Char [ev]:
  "digit_of CHR ''0'' = 0" "digit_of CHR ''1'' = 1" "digit_of CHR ''2'' = 2"
  "digit_of CHR ''3'' = 3" "digit_of CHR ''4'' = 4" "digit_of CHR ''5'' = 5"
  "digit_of CHR ''6'' = 6" "digit_of CHR ''7'' = 7" "digit_of CHR ''8'' = 8"
  "digit_of CHR ''9'' = 9"
  by (simp_all add: digit_of_def)

lemma digit_char_simps [ev]:
  "digit_char 0 = CHR ''0''" "digit_char (Suc 0) = CHR ''1''" "digit_char 2 = CHR ''2''"
  "digit_char 3 = CHR ''3''" "digit_char 4 = CHR ''4''" "digit_char 5 = CHR ''5''"
  "digit_char 6 = CHR ''6''" "digit_char 7 = CHR ''7''" "digit_char 8 = CHR ''8''"
  "digit_char 9 = CHR ''9''"
  by (simp_all add: digit_char_def char_of_def bit_Suc_0_iff)

lemma run_numeral [ev]:
  "run (numeral k) c interp =
     (case c of
        Exec_block p \<Rightarrow>
          map_sum id (\<lambda>(res, i). (res, None, i)) (bcl_exec_block (run (pred_numeral k)) interp p)
      | Eval code \<Rightarrow> bcl_eval (run (pred_numeral k)) interp code)"
  by (simp add: numeral_eq_Suc)

lemmas [ev] = isalpha_def isalnum_def bcl_strcasecmp_eq_def bcl_strncasecmp_eq_def skip_spaces_def
  split_lines_def is_blank_def rtrim_def exponent_part_def scale10_def strtod_def atof_def
  bcl_str_to_number_def show_nat.simps round_half_even_def fmt_f0_def fmt_g15_def
  render_number_def block_create_def block_add_line_def block_add_block_item_def
  block_add_child_def get_first_token_def line_contains_end_def extract_condition_def
  do_word_def parse_proc_header_def STACK_SIZE_def push_def open_block_def open_sibling_def
  open_case_def close_block_def add_line_def parse_line_step_def bcl_parse_blocks_def
  bcl_hash_exists_def BCL_MAX_LINE_LEN_def BCL_MAX_TOKEN_LEN_def BCL_MAX_SCOPE_DEPTH_def
  bcl_interp_create_def scope_depth_def bcl_set_error_def scope_create_def bcl_scope_push_def
  bcl_scope_pop_def get_current_scope_def is_global_var_def bcl_var_set_def bcl_var_get_def
  bcl_var_exists_def bcl_var_unset_def bcl_value_to_bool_def needs_escape_def regex_escape_def
  process_escape_def is_comment_def bcl_next_token_def raw_tokens.simps is_name_char_def
  value_or_empty_def bcl_expand_vars.simps protect_result_def bcl_expand_subcommands.simps
  bcl_parse_line_def mk_token_def is_right_associative_def c_fmod_def c_pow_def bool_value_def
  libm_functions_def eval_function_def eval_function2_def is_function2_def is_func_char_def
  word_token_def two_char_op_def one_char_op_def parse_expr_token_def apply_func_def
  apply_not_def apply_binary_def apply_popped_def close_paren_def EXPR_STACK_SIZE_def
  expr_loop.simps cmd_error_def bcl_cmd_expr_def quoted_def bcl_cmd_set_def bcl_cmd_unset_def
  expected_integer_def bcl_cmd_incr_def bcl_cmd_append_def bcl_cmd_global_def bcl_cmd_break_def
  bcl_cmd_continue_def bcl_cmd_return_def double_to_int_def bcl_cmd_exit_def condition_value_def
  eval_condition_def exec_via_def bcl_eval_subcommand_def find_keyword_def bcl_cmd_if_def
  not_implemented_def bcl_proc_define_def bcl_proc_exists_def bcl_proc_call_def run_items_def
  command_table_def builtin_def bcl_dispatch_command_def bcl_eval_def eval_block_condition_def
  exec_error_def loop_step_def for_loop.simps strtok_r_def parse_for_def exec_for_def
  list_delim_def exec_foreach_def parse_params_def exec_proc_def find_sibling_def
  bcl_exec_block_def bcl_eval_structured_def Let_def


section \<open>Procedure calls with too few arguments\<close>

definition double_proc :: bcl_procedure_t where
  "double_proc = \<lparr> pname = ''double'', params = [(''x'', False)], body_block = Some 0 \<rparr>"

definition interp_with_double :: bcl_interp_t where
  "interp_with_double = bcl_interp_create\<lparr> procedures := [(''double'', double_proc)],
     global_vars := [(''x'', ''7'')] \<rparr>"

text \<open>
  Claim C5.  A call of a procedure with fewer arguments than the procedure has required
  (non-optional) parameters yields the Error signal, and it does so before any scope is
  pushed: the state after the call is the state before it with only the error message
  set, so the scope stack, its depth and every variable are unchanged.  This holds
  whatever the body and whatever the recursive entry points \<open>self\<close> are, since the body
  is never run.
\<close>

theorem proc_call_too_few_args:
  assumes "bcl_hash_get (procedures interp) name = Some proc"
    and "length args < length (filter (\<lambda>p. \<not> snd p) (params proc))"
  shows "\<exists>i'. bcl_proc_call self interp name args = Inr (BCL_ERROR, None, i')
           \<and> i' = bcl_set_error interp (''wrong # args: should be '' @ quoted (name @ '' param ...''))
           \<and> i' = interp\<lparr> error_msg := error_msg i' \<rparr>
           \<and> scope_stack i' = scope_stack interp
           \<and> scope_depth i' = scope_depth interp
           \<and> global_vars i' = global_vars interp
           \<and> procedures i' = procedures interp"
  using assms by (simp add: bcl_proc_call_def cmd_error_def bcl_set_error_def scope_depth_def)

theorem proc_call_too_few_args_witness:
  "bcl_hash_get (procedures interp_with_double) ''DOUBLE'' = Some double_proc
   \<and> length ([] :: string list) < length (filter (\<lambda>p. \<not> snd p) (params double_proc))
   \<and> (\<exists>i'. bcl_proc_call (run 5) interp_with_double ''DOUBLE'' [] = Inr (BCL_ERROR, None, i')
         \<and> scope_stack i' = [] \<and> global_vars i' = [(''x'', ''7'')])"
proof -
  have h1: "bcl_hash_get (procedures interp_with_double) ''DOUBLE'' = Some double_proc"
    by (simp add: interp_with_double_def double_proc_def ev)
  have h2: "length ([] :: string list) < length (filter (\<lambda>p. \<not> snd p) (params double_proc))"
    by (simp add: double_proc_def)
  show ?thesis
    using proc_call_too_few_args [OF h1 h2, of "run 5"] h1 h2
    by (auto simp: interp_with_double_def bcl_interp_create_def)
qed
section \<open>A For block with step zero\<close>

definition for_zero_block :: bcl_block_t where
  "for_zero_block = (block_create BLOCK_FOR)
     \<lparr> condition := Some ''1 TO 5 STEP 0'', items := [ITEM_LINE ''SET X 1''] \<rparr>"

definition interp_for_zero :: bcl_interp_t where
  "interp_for_zero = bcl_interp_create\<lparr> blocks := [for_zero_block] \<rparr>"

text \<open>
  Claim C10.  A For block whose condition parses as \<^verbatim>\<open>inicio TO fin STEP paso\<close> with a
  step that reads as the number 0 runs its body zero times: the loop \<open>for_loop\<close> with step
  0 returns Ok at once with the state it was given, whatever the body is, and so does the
  execution of the block; neither the counter variable nor anything else is written.
\<close>

theorem for_step_zero:
  assumes "b < length (blocks interp)"
    and "btype (blocks interp ! b) = BLOCK_FOR"
    and "condition (blocks interp ! b) = Some cond"
    and "parse_for cond = Some (inicio_str, fin_str, Some paso_str)"
    and "atof inicio_str = Inr inicio"
    and "atof fin_str = Inr fin"
    and "atof paso_str = Inr 0"
  shows "for_loop body interp inicio fin 0 = Inr (BCL_OK, interp)
         \<and> bcl_exec_block self interp (Some b) = Inr (BCL_OK, interp)"
  using assms by (simp add: for_loop.simps bcl_exec_block_def exec_for_def)

theorem for_step_zero_witness:
  "(0::nat) < length (blocks interp_for_zero)
   \<and> btype (blocks interp_for_zero ! 0) = BLOCK_FOR
   \<and> condition (blocks interp_for_zero ! 0) = Some ''1 TO 5 STEP 0''
   \<and> parse_for ''1 TO 5 STEP 0'' = Some (''1'', ''5'', Some ''0'')
   \<and> atof ''1'' = Inr 1 \<and> atof ''5'' = Inr 5 \<and> atof ''0'' = Inr 0
   \<and> bcl_exec_block (run 3) interp_for_zero (Some 0) = Inr (BCL_OK, interp_for_zero)"
proof -
  have h1: "(0::nat) < length (blocks interp_for_zero)"
    by (simp add: interp_for_zero_def)
  have h2: "btype (blocks interp_for_zero ! 0) = BLOCK_FOR"
    by (simp add: interp_for_zero_def for_zero_block_def block_create_def)
  have h3: "condition (blocks interp_for_zero ! 0) = Some ''1 TO 5 STEP 0''"
    by (simp add: interp_for_zero_def for_zero_block_def block_create_def)
  have h4: "parse_for ''1 TO 5 STEP 0'' = Some (''1'', ''5'', Some ''0'')"
    by (simp add: ev)
  have h5: "atof ''1'' = Inr 1" by (simp add: ev)
  have h6: "atof ''5'' = Inr 5" by (simp add: ev)
  have h7: "atof ''0'' = Inr 0" by (simp add: ev)
  show ?thesis
    using for_step_zero [OF h1 h2 h3 h4 h5 h6 h7, where self = "run 3"] h1 h2 h3 h4 h5 h6 h7
    by simp
qed
section \<open>Division by zero in expressions\<close>

text \<open>
  Claim C7.  A division whose right operand is zero yields 0, whatever the left operand,
  also when it is applied from the value stack.  \<^verbatim>\<open>EXPR\<close> with an expression never gives
  the Error signal: whenever it returns, the signal is Ok, a value is returned and the
  interpreter is unchanged.  \<^verbatim>\<open>EXPR 1 / 0\<close> returns \<^verbatim>\<open>0\<close> with Ok, as a command and as a
  line given to \<^verbatim>\<open>bcl_eval\<close>.
\<close>

theorem expr_division_by_zero:
  "apply_operator TOK_DIVIDE left 0 = Inr 0
   \<and> apply_binary TOK_DIVIDE (0 # left # rest) = Inr (0 # rest)
   \<and> (argv \<noteq> [] \<and> bcl_cmd_expr interp argv = Inr (res, v, i')
        \<longrightarrow> res = BCL_OK \<and> v \<noteq> None \<and> i' = interp)
   \<and> bcl_cmd_expr interp [''1'', ''/'', ''0''] = Inr (BCL_OK, Some ''0'', interp)
   \<and> bcl_eval (run n) interp ''EXPR 1 / 0'' = Inr (BCL_OK, Some ''0'', interp)"
proof -
  have a: "apply_operator TOK_DIVIDE left 0 = Inr 0" by simp
  have b: "apply_binary TOK_DIVIDE (0 # left # rest) = Inr (0 # rest)"
    by (simp add: apply_binary_def)
  have c: "argv \<noteq> [] \<and> bcl_cmd_expr interp argv = Inr (res, v, i')
        \<longrightarrow> res = BCL_OK \<and> v \<noteq> None \<and> i' = interp"
    by (auto simp: bcl_cmd_expr_def split: sum.splits)
  have d: "bcl_cmd_expr interp [''1'', ''/'', ''0''] = Inr (BCL_OK, Some ''0'', interp)"
    by (simp add: ev)
  have e: "bcl_eval (run n) interp ''EXPR 1 / 0'' = Inr (BCL_OK, Some ''0'', interp)"
    by (simp add: ev d)
  from a b c d e show ?thesis by blast
qed

theorem expr_division_by_zero_witness:
  "[''7'', ''/'', ''0'', ''+'', ''2''] \<noteq> []
   \<and> bcl_cmd_expr bcl_interp_create [''7'', ''/'', ''0'', ''+'', ''2'']
       = Inr (BCL_OK, Some ''2'', bcl_interp_create)"
proof -
  have h: "bcl_cmd_expr bcl_interp_create [''7'', ''/'', ''0'', ''+'', ''2'']
       = Inr (BCL_OK, Some ''2'', bcl_interp_create)"
    by (simp add: ev)
  show ?thesis
    using expr_division_by_zero [where argv = "[''7'', ''/'', ''0'', ''+'', ''2'']"
        and interp = bcl_interp_create and res = BCL_OK and v = "Some ''2''"
        and i' = bcl_interp_create] h
    by simp
qed
section \<open>Recursion depth of block execution\<close>

text \<open>
  A script whose block tree is a chain: an \<^verbatim>\<open>IF\<close> with a false condition followed by
  \<open>n\<close> \<^verbatim>\<open>ELSEIF\<close> lines with false conditions.  The parser makes every \<^verbatim>\<open>ELSEIF\<close> block
  a child of the block before it, and the executor of a block whose condition is false
  calls itself on that child.
\<close>

definition elseif_script :: "nat \<Rightarrow> string" where
  "elseif_script n =
     ''IF 0 THEN'' @ [CHR 0x0A] @ concat (replicate n (''ELSEIF 0 THEN'' @ [CHR 0x0A])) @ ''END''"

definition elseif_block :: "nat \<Rightarrow> nat \<Rightarrow> bcl_block_t" where
  "elseif_block n j =
     (if j = 0 then (block_create BLOCK_NONE)\<lparr> items := [ITEM_BLOCK (Some 1)] \<rparr>
      else (block_create (if j = 1 then BLOCK_IF else BLOCK_ELSEIF))
             \<lparr> condition := Some ''0'', children := (if j \<le> n then [Suc j] else []),
               start_line_num := j \<rparr>)"

definition elseif_heap :: "nat \<Rightarrow> bcl_block_t list" where
  "elseif_heap n = map (elseif_block n) [0..<n + 2]"

lemma strtok_all_prefix:
  "\<forall>c \<in> set l. \<not> d c \<Longrightarrow> strtok_all d acc (l @ rest) = strtok_all d (rev l @ acc) rest"
  by (induction l arbitrary: acc) auto

lemma split_lines_Cons:
  assumes "CHR 0x0A \<notin> set l" and "l \<noteq> []"
  shows "split_lines (l @ CHR 0x0A # rest) = l # split_lines rest"
proof -
  have "strtok_all (\<lambda>c. c = CHR 0x0A) [] (l @ CHR 0x0A # rest)
          = strtok_all (\<lambda>c. c = CHR 0x0A) (rev l @ []) (CHR 0x0A # rest)"
    using assms(1) by (intro strtok_all_prefix) auto
  then show ?thesis using assms(2) by (simp add: split_lines_def)
qed

lemma split_lines_elseifs:
  "split_lines (concat (replicate n (''ELSEIF 0 THEN'' @ [CHR 0x0A])) @ ''END'')
     = replicate n ''ELSEIF 0 THEN'' @ [''END'']"
proof (induction n)
  case 0
  show ?case by (simp add: split_lines_def)
next
  case (Suc n)
  have "split_lines (''ELSEIF 0 THEN'' @ CHR 0x0A # (concat (replicate n (''ELSEIF 0 THEN'' @ [CHR 0x0A])) @ ''END''))
          = ''ELSEIF 0 THEN'' # split_lines (concat (replicate n (''ELSEIF 0 THEN'' @ [CHR 0x0A])) @ ''END'')"
    by (rule split_lines_Cons) simp_all
  with Suc show ?case by simp
qed

lemma split_lines_elseif_script:
  "split_lines (elseif_script n) = ''IF 0 THEN'' # replicate n ''ELSEIF 0 THEN'' @ [''END'']"
proof -
  have "split_lines (''IF 0 THEN'' @ CHR 0x0A # (concat (replicate n (''ELSEIF 0 THEN'' @ [CHR 0x0A])) @ ''END''))
          = ''IF 0 THEN'' # split_lines (concat (replicate n (''ELSEIF 0 THEN'' @ [CHR 0x0A])) @ ''END'')"
    by (rule split_lines_Cons) simp_all
  then have "split_lines (''IF 0 THEN'' @ CHR 0x0A # (concat (replicate n (''ELSEIF 0 THEN'' @ [CHR 0x0A])) @ ''END''))
          = ''IF 0 THEN'' # (replicate n ''ELSEIF 0 THEN'' @ [''END''])"
    by (simp only: split_lines_elseifs)
  then show ?thesis by (simp add: elseif_script_def)
qed

lemma parse_lines_append:
  "parse_lines st i (xs @ ys) =
     (case parse_lines st i xs of Inl f \<Rightarrow> Inl f | Inr st' \<Rightarrow> parse_lines st' (i + length xs) ys)"
  by (induction xs arbitrary: st i) (auto split: sum.splits)

lemma parse_if_line:
  "parse_line_step st i ''IF 0 THEN''
     = open_block st ((block_create BLOCK_IF)\<lparr> condition := Some ''0'', start_line_num := i + 1 \<rparr>)"
  by (simp add: parse_line_step_def skip_spaces_def get_first_token_def bcl_strcasecmp_eq_def
        line_contains_end_def extract_condition_def bcl_strncasecmp_eq_def rtrim_def Let_def
        isspace_Char tolower_Char isupper_Char)

lemma parse_elseif_line:
  "parse_line_step st i ''ELSEIF 0 THEN''
     = open_sibling st ((block_create BLOCK_ELSEIF)\<lparr> condition := Some ''0'', start_line_num := i + 1 \<rparr>)"
  by (simp add: parse_line_step_def skip_spaces_def get_first_token_def bcl_strcasecmp_eq_def
        line_contains_end_def extract_condition_def bcl_strncasecmp_eq_def rtrim_def Let_def
        isspace_Char tolower_Char isupper_Char)

lemma parse_end_line: "parse_line_step st i ''END'' = Inr (close_block st)"
  by (simp add: parse_line_step_def skip_spaces_def get_first_token_def bcl_strcasecmp_eq_def
        Let_def isspace_Char tolower_Char isupper_Char)


lemma length_elseif_heap: "length (elseif_heap n) = n + 2"
  by (simp add: elseif_heap_def)

lemma elseif_heap_step:
  "block_add_child
     (elseif_heap n @ [(block_create BLOCK_ELSEIF)\<lparr> condition := Some ''0'', start_line_num := n + 2 \<rparr>])
     (Suc n) (n + 2) = elseif_heap (Suc n)"
  by (auto simp: list_eq_iff_nth_eq block_add_child_def elseif_heap_def elseif_block_def
        nth_append nth_list_update block_create_def less_Suc_eq)

lemma parse_elseif_step:
  "parse_line_step \<lparr> heap = elseif_heap n, stack = [Suc n, 0] \<rparr> (Suc n) ''ELSEIF 0 THEN''
     = Inr \<lparr> heap = elseif_heap (Suc n), stack = [Suc (Suc n), 0] \<rparr>"
  using elseif_heap_step [of n]
  by (simp add: parse_elseif_line open_sibling_def push_def STACK_SIZE_def Let_def
        length_elseif_heap)

lemma parse_elseif_chain:
  "parse_lines \<lparr> heap = [block_create BLOCK_NONE], stack = [0] \<rparr> 0
     (''IF 0 THEN'' # replicate n ''ELSEIF 0 THEN'')
   = Inr \<lparr> heap = elseif_heap n, stack = [Suc n, 0] \<rparr>"
proof (induction n)
  case 0
  show ?case
    by (simp add: parse_if_line open_block_def block_add_block_item_def push_def STACK_SIZE_def
          elseif_heap_def elseif_block_def block_create_def Let_def upt_rec)
next
  case (Suc n)
  have eq: "''IF 0 THEN'' # replicate (Suc n) ''ELSEIF 0 THEN''
          = (''IF 0 THEN'' # replicate n ''ELSEIF 0 THEN'') @ [''ELSEIF 0 THEN'']"
    by (simp add: replicate_append_same)
  have len: "length (''IF 0 THEN'' # replicate n ''ELSEIF 0 THEN'') = Suc n" by simp
  show ?case
    unfolding eq parse_lines_append Suc.IH len
    by (simp add: parse_elseif_step)
qed

lemma parse_elseif_script:
  "bcl_parse_blocks [] (elseif_script n) = Inr \<lparr> heap = elseif_heap n, stack = [0] \<rparr>"
proof -
  have "parse_lines \<lparr> heap = [block_create BLOCK_NONE], stack = [0] \<rparr> 0
          ((''IF 0 THEN'' # replicate n ''ELSEIF 0 THEN'') @ [''END''])
        = Inr \<lparr> heap = elseif_heap n, stack = [0] \<rparr>"
    unfolding parse_lines_append parse_elseif_chain
    by (simp add: parse_end_line close_block_def Let_def)
  then show ?thesis by (simp add: bcl_parse_blocks_def split_lines_elseif_script)
qed

lemma false_condition: "eval_block_condition self interp (Some ''0'') = Inr (False, interp)"
  by (simp add: ev)

lemma elseif_heap_nth: "j < n + 2 \<Longrightarrow> elseif_heap n ! j = elseif_block n j"
  by (simp add: elseif_heap_def del: upt_Suc)

lemma exec_elseif_block:
  assumes "blocks interp = elseif_heap n" and "0 < j" and "j \<le> Suc n"
  shows "bcl_exec_block self interp (Some j)
           = (if j \<le> n then exec_via self interp (Some (Suc j)) else Inr (BCL_OK, interp))"
  using assms
  by (simp add: bcl_exec_block_def length_elseif_heap elseif_heap_nth elseif_block_def
        block_create_def false_condition find_sibling_def Let_def)

lemma exec_elseif_chain:
  assumes "blocks interp = elseif_heap n"
  shows "0 < j \<Longrightarrow> j \<le> Suc n \<Longrightarrow>
         bcl_exec_block (run m) interp (Some j)
           = (if Suc n \<le> m + j then Inr (BCL_OK, interp) else Inl Timeout)"
proof (induction m arbitrary: j)
  case 0
  then show ?case using assms by (simp add: exec_elseif_block exec_via_def)
next
  case (Suc m)
  show ?case
  proof (cases "j \<le> n")
    case True
    then have "bcl_exec_block (run m) interp (Some (Suc j))
                 = (if Suc n \<le> m + Suc j then Inr (BCL_OK, interp) else Inl Timeout)"
      by (intro Suc.IH) simp_all
    then show ?thesis using True Suc.prems assms
      by (simp add: exec_elseif_block exec_via_def)
  next
    case False
    then show ?thesis using Suc.prems assms by (simp add: exec_elseif_block)
  qed
qed

lemma exec_elseif_root:
  assumes "blocks interp = elseif_heap n"
  shows "bcl_exec_block (run m) interp (Some 0)
           = (if Suc n \<le> m then Inr (BCL_OK, interp) else Inl Timeout)"
proof (cases m)
  case 0
  then show ?thesis using assms
    by (simp add: bcl_exec_block_def length_elseif_heap elseif_heap_nth elseif_block_def
          block_create_def exec_via_def)
next
  case (Suc k)
  have "bcl_exec_block (run k) interp (Some 1)
          = (if Suc n \<le> k + 1 then Inr (BCL_OK, interp) else Inl Timeout)"
    using assms by (intro exec_elseif_chain) simp_all
  then show ?thesis using Suc assms
    by (simp add: bcl_exec_block_def length_elseif_heap elseif_heap_nth elseif_block_def
          block_create_def exec_via_def)
qed

lemma eval_elseif_script:
  "bcl_eval_structured m bcl_interp_create (elseif_script n)
     = (if Suc n \<le> m then Inr (BCL_OK, bcl_interp_create\<lparr> blocks := elseif_heap n \<rparr>)
        else Inl Timeout)"
proof -
  have "blocks bcl_interp_create = []" by (simp add: bcl_interp_create_def)
  then show ?thesis
    by (simp add: bcl_eval_structured_def parse_elseif_script exec_elseif_root)
qed

text \<open>
  Procedure calls, by contrast, are bounded: at \<^verbatim>\<open>BCL_MAX_SCOPE_DEPTH\<close> open scopes a call
  gives the Error signal without running the body.
\<close>

lemma proc_call_at_scope_limit:
  assumes "bcl_hash_get (procedures interp) name = Some proc"
    and "\<not> length args < length (filter (\<lambda>p. \<not> snd p) (params proc))"
    and "BCL_MAX_SCOPE_DEPTH \<le> scope_depth interp"
  shows "bcl_proc_call self interp name args
           = Inr (BCL_ERROR, None, bcl_set_error interp ''Maximum scope depth exceeded'')"
  using assms by (simp add: bcl_proc_call_def bcl_scope_push_def)

text \<open>
  Claim C9.  The script of an \<^verbatim>\<open>IF\<close> with \<^verbatim>\<open>BCL_MAX_RECURSION\<close> = 1000 \<^verbatim>\<open>ELSEIF\<close>
  lines, all conditions false, is executed to the end with the Ok signal and no error
  message, although the execution of its block tree nests \<^verbatim>\<open>bcl_exec_block\<close> deeper
  than \<^verbatim>\<open>BCL_MAX_RECURSION\<close> (and deeper than \<^verbatim>\<open>BCL_MAX_SCOPE_DEPTH\<close>): with
  \<^verbatim>\<open>BCL_MAX_RECURSION\<close> nested entries allowed the run is cut off, with one more it
  ends.  The counter \<open>recursion_depth\<close> is still 0 at the end.  No limit is enforced on
  the recursion of block execution.
\<close>

theorem elseif_chain_exceeds_max_recursion:
  "bcl_eval_structured BCL_MAX_RECURSION bcl_interp_create (elseif_script BCL_MAX_RECURSION)
     = Inl Timeout
   \<and> bcl_eval_structured (Suc BCL_MAX_RECURSION) bcl_interp_create (elseif_script BCL_MAX_RECURSION)
     = Inr (BCL_OK, bcl_interp_create\<lparr> blocks := elseif_heap BCL_MAX_RECURSION \<rparr>)
   \<and> error_msg (bcl_interp_create\<lparr> blocks := elseif_heap BCL_MAX_RECURSION \<rparr>) = []
   \<and> recursion_depth (bcl_interp_create\<lparr> blocks := elseif_heap BCL_MAX_RECURSION \<rparr>) = 0
   \<and> BCL_MAX_SCOPE_DEPTH < BCL_MAX_RECURSION"
proof -
  have "error_msg (bcl_interp_create\<lparr> blocks := elseif_heap BCL_MAX_RECURSION \<rparr>) = []"
    and "recursion_depth (bcl_interp_create\<lparr> blocks := elseif_heap BCL_MAX_RECURSION \<rparr>) = 0"
    and "BCL_MAX_SCOPE_DEPTH < BCL_MAX_RECURSION"
    by (simp_all add: bcl_interp_create_def BCL_MAX_SCOPE_DEPTH_def BCL_MAX_RECURSION_def)
  then show ?thesis by (simp add: eval_elseif_script)
qed
section \<open>The scope stack across an evaluation\<close>

text \<open>
  What an evaluation may not change of the scope stack: its depth and every frame below
  the current one.  Commands write to the current frame or to the global variables; a
  procedure call pushes a frame and pops it again.
\<close>

definition frame_sig :: "bcl_interp_t \<Rightarrow> nat \<times> bcl_scope_t list" where
  "frame_sig interp = (length (scope_stack interp), tl (scope_stack interp))"

definition keeps_frames :: "knot \<Rightarrow> bool" where
  "keeps_frames self =
     (\<forall>c interp res v i'. self c interp = Inr (res, v, i') \<longrightarrow> frame_sig i' = frame_sig interp)"

lemma frame_sig_updates [simp]:
  "frame_sig (interp\<lparr> error_msg := e \<rparr>) = frame_sig interp"
  "frame_sig (interp\<lparr> global_vars := g \<rparr>) = frame_sig interp"
  "frame_sig (interp\<lparr> procedures := p \<rparr>) = frame_sig interp"
  "frame_sig (interp\<lparr> blocks := b \<rparr>) = frame_sig interp"
  "frame_sig (interp\<lparr> return_value := r \<rparr>) = frame_sig interp"
  "frame_sig (interp\<lparr> exit_code := x \<rparr>) = frame_sig interp"
  by (simp_all add: frame_sig_def)

lemma frame_sig_set_error [simp]: "frame_sig (bcl_set_error interp msg) = frame_sig interp"
  by (simp add: bcl_set_error_def)

lemma frame_sig_var_set [simp]: "frame_sig (bcl_var_set interp name val) = frame_sig interp"
  by (simp add: bcl_var_set_def frame_sig_def split: list.splits)

lemma frame_sig_var_unset [simp]: "frame_sig (bcl_var_unset interp name) = frame_sig interp"
  by (simp add: bcl_var_unset_def frame_sig_def split: list.splits)

lemma frame_sig_bind_params [simp]:
  "frame_sig (bind_params interp ps args) = frame_sig interp"
  by (induction interp ps args rule: bind_params.induct) simp_all

lemma frame_sig_proc_define [simp]:
  "frame_sig (bcl_proc_define interp name ps body) = frame_sig interp"
  by (simp add: bcl_proc_define_def)

lemma frame_sig_top:
  "frame_sig i = (Suc n, S) \<Longrightarrow> \<exists>sc. scope_stack i = sc # S"
  by (cases "scope_stack i") (auto simp: frame_sig_def)

lemma cmd_error_frames:
  "cmd_error interp msg = Inr (res, v, i') \<Longrightarrow> frame_sig i' = frame_sig interp"
  by (auto simp: cmd_error_def)

lemma bcl_cmd_set_frames:
  "bcl_cmd_set interp argv = Inr (res, v, i') \<Longrightarrow> frame_sig i' = frame_sig interp"
  by (auto simp: bcl_cmd_set_def cmd_error_def split: list.splits option.splits)

lemma bcl_cmd_unset_frames:
  "bcl_cmd_unset interp argv = Inr (res, v, i') \<Longrightarrow> frame_sig i' = frame_sig interp"
  by (auto simp: bcl_cmd_unset_def cmd_error_def split: list.splits)

lemma bcl_cmd_incr_frames:
  "bcl_cmd_incr interp argv = Inr (res, v, i') \<Longrightarrow> frame_sig i' = frame_sig interp"
  by (auto simp: bcl_cmd_incr_def expected_integer_def cmd_error_def Let_def
           split: if_splits sum.splits prod.splits)

lemma bcl_cmd_append_frames:
  "bcl_cmd_append interp argv = Inr (res, v, i') \<Longrightarrow> frame_sig i' = frame_sig interp"
  by (auto simp: bcl_cmd_append_def cmd_error_def Let_def split: list.splits)

lemma bcl_cmd_global_frames:
  "bcl_cmd_global interp argv = Inr (res, v, i') \<Longrightarrow> frame_sig i' = frame_sig interp"
  by (auto simp: bcl_cmd_global_def cmd_error_def bcl_set_error_def frame_sig_def
           split: if_splits list.splits)

lemma bcl_cmd_expr_frames:
  "bcl_cmd_expr interp argv = Inr (res, v, i') \<Longrightarrow> frame_sig i' = frame_sig interp"
  by (auto simp: bcl_cmd_expr_def cmd_error_def split: if_splits sum.splits)

lemma bcl_cmd_exit_frames:
  "bcl_cmd_exit interp argv = Inr (res, v, i') \<Longrightarrow> frame_sig i' = frame_sig interp"
  by (auto simp: bcl_cmd_exit_def expected_integer_def cmd_error_def
           split: if_splits sum.splits prod.splits list.splits)

lemma simple_cmds_frames:
  "bcl_cmd_break interp argv = Inr (res, v, i') \<Longrightarrow> frame_sig i' = frame_sig interp"
  "bcl_cmd_continue interp argv = Inr (res, v, i') \<Longrightarrow> frame_sig i' = frame_sig interp"
  "bcl_cmd_return interp argv = Inr (res, v, i') \<Longrightarrow> frame_sig i' = frame_sig interp"
  "not_implemented interp what = Inr (res, v, i') \<Longrightarrow> frame_sig i' = frame_sig interp"
  by (auto simp: bcl_cmd_break_def bcl_cmd_continue_def bcl_cmd_return_def not_implemented_def
        cmd_error_def)

lemma expand_subcommands_frames:
  "bcl_expand_subcommands ev interp acc s = Inr (r, i')
   \<Longrightarrow> (\<forall>i s r i'. ev i s = Inr (r, i') \<longrightarrow> frame_sig i' = frame_sig i)
   \<Longrightarrow> frame_sig i' = frame_sig interp"
proof (induction ev interp acc s arbitrary: r i' rule: bcl_expand_subcommands.induct)
  case (1 ev interp acc)
  then show ?case by (simp add: bcl_expand_subcommands.simps)
next
  case (2 ev interp acc c cs)
  note ev = "2.prems"(2)
  show ?case
  proof (cases "c = CHR ''[''")
    case False
    with 2 show ?thesis by (simp add: bcl_expand_subcommands.simps)
  next
    case True
    obtain cmd rest where mb: "match_bracket 1 [] cs = (cmd, rest)" by (cases "match_bracket 1 [] cs")
    from "2.prems"(1) True mb obtain expanded_cmd i1 cmd_result i2 where
      a: "bcl_expand_subcommands ev interp [] cmd = Inr (expanded_cmd, i1)" and
      b: "ev i1 expanded_cmd = Inr (cmd_result, i2)" and
      c: "bcl_expand_subcommands ev i2 (rev (protect_result cmd_result) @ acc)
            (if rest \<noteq> [] \<and> hd rest = CHR '']'' then tl rest else rest) = Inr (r, i')"
      by (auto simp: bcl_expand_subcommands.simps split: sum.splits)
    have "frame_sig i1 = frame_sig interp"
      using "2.IH"(1) [OF True mb [symmetric] a ev] .
    moreover have "frame_sig i2 = frame_sig i1" using ev b by blast
    moreover have "frame_sig i' = frame_sig i2"
      using "2.IH"(2) [OF True mb [symmetric] a refl b refl c ev] .
    ultimately show ?thesis by simp
  qed
qed

lemma eval_subcommand_frames:
  "keeps_frames self \<Longrightarrow>
   \<forall>i s r i'. bcl_eval_subcommand self i s = Inr (r, i') \<longrightarrow> frame_sig i' = frame_sig i"
  by (auto simp: keeps_frames_def bcl_eval_subcommand_def map_sum_def split: sum.splits)

lemma parse_line_frames:
  assumes "keeps_frames self"
    and "bcl_parse_line (bcl_eval_subcommand self) interp line = Inr (argv, i')"
  shows "frame_sig i' = frame_sig interp"
  using assms(2) expand_subcommands_frames [OF _ eval_subcommand_frames [OF assms(1)]]
  by (auto simp: bcl_parse_line_def split: if_splits sum.splits)

lemma exec_via_frames:
  "keeps_frames self \<Longrightarrow> exec_via self interp p = Inr (res, i') \<Longrightarrow> frame_sig i' = frame_sig interp"
  by (auto simp: keeps_frames_def exec_via_def map_sum_def split: sum.splits)

lemma bcl_cmd_if_frames:
  assumes "keeps_frames self" and "bcl_cmd_if self interp argv = Inr (res, v, i')"
  shows "frame_sig i' = frame_sig interp"
  using assms
  by (auto simp: bcl_cmd_if_def cmd_error_def keeps_frames_def Let_def
           split: if_splits option.splits sum.splits)

text \<open>A procedure call leaves the scope stack exactly as it found it.\<close>

lemma proc_call_scope_stack:
  assumes "keeps_frames self" and "bcl_proc_call self interp name args = Inr (res, v, i')"
  shows "scope_stack i' = scope_stack interp"
proof (cases "bcl_hash_get (procedures interp) name")
  case None
  with assms(2) show ?thesis by (auto simp: bcl_proc_call_def cmd_error_def bcl_set_error_def)
next
  case (Some proc)
  show ?thesis
  proof (cases "length args < length (filter (\<lambda>p. \<not> snd p) (params proc))
                \<or> BCL_MAX_SCOPE_DEPTH \<le> scope_depth interp")
    case True
    with assms(2) Some show ?thesis
      by (auto simp: bcl_proc_call_def cmd_error_def bcl_set_error_def bcl_scope_push_def
               split: if_splits)
  next
    case False
    let ?i1 = "interp\<lparr> scope_stack := scope_create # scope_stack interp \<rparr>"
    let ?i2 = "bind_params ?i1 (params proc) args"
    have "frame_sig ?i2 = frame_sig ?i1" by simp
    then have sig2: "frame_sig ?i2 = (Suc (length (scope_stack interp)), scope_stack interp)"
      by (simp add: frame_sig_def)
    from assms(2) Some False obtain r3 i3 where
      body: "(case body_block proc of None \<Rightarrow> Inr (BCL_OK, ?i2)
              | Some b \<Rightarrow> exec_via self ?i2 (Some b)) = Inr (r3, i3)"
      and res: "i' = snd (bcl_scope_pop (i3\<lparr> return_value := None \<rparr>)) \<or> i' = snd (bcl_scope_pop i3)"
      by (auto simp: bcl_proc_call_def bcl_scope_push_def split: sum.splits if_splits)
    have "frame_sig i3 = frame_sig ?i2"
      using body exec_via_frames [OF assms(1)] by (auto split: option.splits)
    then obtain sc where "scope_stack i3 = sc # scope_stack interp"
      using sig2 frame_sig_top by metis
    with res show ?thesis by (auto simp: bcl_scope_pop_def scope_depth_def)
  qed
qed

definition result_keeps_frames :: "bcl_interp_t \<Rightarrow> cmd_result \<Rightarrow> bool" where
  "result_keeps_frames interp r =
     (case r of Inl e \<Rightarrow> True | Inr (res, v, i') \<Rightarrow> frame_sig i' = frame_sig interp)"

lemma result_keeps_framesI:
  "(\<And>res v i'. r = Inr (res, v, i') \<Longrightarrow> frame_sig i' = frame_sig interp)
   \<Longrightarrow> result_keeps_frames interp r"
  by (auto simp: result_keeps_frames_def split: sum.splits)

lemma result_keeps_frames_if:
  "result_keeps_frames interp a \<Longrightarrow> result_keeps_frames interp b
   \<Longrightarrow> result_keeps_frames interp (if c then a else b)"
  by simp

lemma builtin_frames:
  assumes "keeps_frames self" and "builtin self cmd interp argv = Inr (res, v, i')"
  shows "frame_sig i' = frame_sig interp"
proof -
  have "result_keeps_frames interp (builtin self cmd interp argv)"
    unfolding builtin_def
    by (intro result_keeps_frames_if result_keeps_framesI)
       (erule bcl_cmd_set_frames bcl_cmd_unset_frames bcl_cmd_incr_frames bcl_cmd_append_frames
          bcl_cmd_global_frames bcl_cmd_expr_frames bcl_cmd_exit_frames simple_cmds_frames
          bcl_cmd_if_frames [OF assms(1)] | simp)+
  with assms(2) show ?thesis by (simp add: result_keeps_frames_def)
qed

lemma dispatch_frames:
  assumes "keeps_frames self" and "bcl_dispatch_command self interp name argv = Inr (res, v, i')"
  shows "frame_sig i' = frame_sig interp"
proof (cases "find (\<lambda>c. bcl_strcasecmp_eq c name) command_table")
  case (Some cmd)
  with assms(2) have "builtin self cmd interp argv = Inr (res, v, i')"
    by (simp add: bcl_dispatch_command_def)
  then show ?thesis by (rule builtin_frames [OF assms(1)])
next
  case None
  show ?thesis
  proof (cases "bcl_proc_exists interp name")
    case True
    with assms(2) None have "bcl_proc_call self interp name argv = Inr (res, v, i')"
      by (simp add: bcl_dispatch_command_def)
    from proc_call_scope_stack [OF assms(1) this] show ?thesis by (simp add: frame_sig_def)
  next
    case False
    with assms(2) None show ?thesis
      by (auto simp: bcl_dispatch_command_def cmd_error_def)
  qed
qed

lemma eval_lines_frames:
  assumes "keeps_frames self"
  shows "eval_lines self interp last_result ls = Inr (res, v, i')
         \<Longrightarrow> frame_sig i' = frame_sig interp"
proof (induction ls arbitrary: interp last_result)
  case Nil
  then show ?case by simp
next
  case (Cons line rest)
  from Cons.prems obtain argv i1 where
    pl: "bcl_parse_line (bcl_eval_subcommand self) interp line = Inr (argv, i1)"
    by (auto split: sum.splits)
  have s1: "frame_sig i1 = frame_sig interp" using parse_line_frames [OF assms pl] .
  show ?case
  proof (cases "argv = []")
    case True
    with Cons pl s1 show ?thesis by auto
  next
    case False
    with Cons.prems pl obtain r2 c2 i2 where
      d: "bcl_dispatch_command self i1 (hd argv) (tl argv) = Inr (r2, c2, i2)"
      by (auto split: sum.splits)
    have s2: "frame_sig i2 = frame_sig i1" using dispatch_frames [OF assms d] .
    show ?thesis
    proof (cases "r2 = BCL_OK")
      case True
      with Cons.prems pl d False have "eval_lines self i2 c2 rest = Inr (res, v, i')" by simp
      from Cons.IH [OF this] s1 s2 show ?thesis by simp
    next
      case ne: False
      with Cons.prems pl d False s1 s2 show ?thesis by auto
    qed
  qed
qed

lemma bcl_eval_frames:
  "keeps_frames self \<Longrightarrow> bcl_eval self interp code = Inr (res, v, i')
   \<Longrightarrow> frame_sig i' = frame_sig interp"
  by (simp add: bcl_eval_def eval_lines_frames)

lemma exec_block_items_frames:
  assumes "keeps_frames self"
  shows "exec_block_items self interp its = Inr (res, i') \<Longrightarrow> frame_sig i' = frame_sig interp"
proof (induction its arbitrary: interp)
  case Nil
  then show ?case by simp
next
  case (Cons it rest)
  show ?case
  proof (cases it)
    case (ITEM_LINE line)
    with Cons.prems obtain argv i1 where
      pl: "bcl_parse_line (bcl_eval_subcommand self) interp line = Inr (argv, i1)"
      by (auto split: sum.splits)
    have s1: "frame_sig i1 = frame_sig interp" using parse_line_frames [OF assms pl] .
    show ?thesis
    proof (cases "argv = []")
      case True
      with Cons ITEM_LINE pl s1 show ?thesis by auto
    next
      case False
      with Cons.prems ITEM_LINE pl obtain r2 c2 i2 where
        d: "bcl_dispatch_command self i1 (hd argv) (tl argv) = Inr (r2, c2, i2)"
        by (auto split: sum.splits)
      have s2: "frame_sig i2 = frame_sig i1" using dispatch_frames [OF assms d] .
      show ?thesis
      proof (cases "r2 = BCL_OK")
        case True
        with Cons.prems ITEM_LINE pl d False have "exec_block_items self i2 rest = Inr (res, i')"
          by simp
        from Cons.IH [OF this] s1 s2 show ?thesis by simp
      next
        case ne: False
        with Cons.prems ITEM_LINE pl d False s1 s2 show ?thesis by auto
      qed
    qed
  next
    case (ITEM_BLOCK p)
    with Cons.prems obtain r1 i1 where ev: "exec_via self interp p = Inr (r1, i1)"
      by (auto split: sum.splits)
    have s1: "frame_sig i1 = frame_sig interp" using exec_via_frames [OF assms ev] .
    show ?thesis
    proof (cases "r1 = BCL_OK")
      case True
      with Cons.prems ITEM_BLOCK ev have "exec_block_items self i1 rest = Inr (res, i')" by simp
      from Cons.IH [OF this] s1 show ?thesis by simp
    next
      case False
      with Cons.prems ITEM_BLOCK ev s1 show ?thesis by auto
    qed
  qed
qed

lemma eval_block_condition_frames:
  assumes "keeps_frames self" and "eval_block_condition self interp cond = Inr (c, i')"
  shows "frame_sig i' = frame_sig interp"
  using assms(2) expand_subcommands_frames [OF _ eval_subcommand_frames [OF assms(1)]]
  by (auto simp: eval_block_condition_def map_sum_def split: option.splits if_splits sum.splits)

lemma for_loop_frames:
  "for_loop body interp i fin paso = Inr (res, i')
   \<Longrightarrow> (\<forall>i r i'. body i = Inr (r, i') \<longrightarrow> frame_sig i' = frame_sig i)
   \<Longrightarrow> frame_sig i' = frame_sig interp"
proof (induction body interp i fin paso rule: for_loop.induct)
  case (1 body interp i fin paso)
  show ?case
  proof (cases "(paso > 0 \<and> i \<le> fin) \<or> (paso < 0 \<and> i \<ge> fin)")
    case False
    with "1.prems"(1) show ?thesis by (simp add: for_loop.simps)
  next
    case True
    with "1.prems"(1) obtain for_value r2 i2 where
      rn: "render_number i = Inr for_value" and
      b: "body (bcl_var_set interp ''__FOR'' for_value) = Inr (r2, i2)"
      by (subst (asm) for_loop.simps) (auto split: sum.splits)
    have s2: "frame_sig i2 = frame_sig interp" using "1.prems"(2) b by fastforce
    show ?thesis
    proof (cases "r2 = BCL_CONTINUE \<or> r2 = BCL_OK")
      case cont: True
      with "1.prems"(1) True rn b have "for_loop body i2 (i + paso) fin paso = Inr (res, i')"
        by (subst (asm) for_loop.simps) auto
      from "1.IH" [OF True rn b refl _ cont this "1.prems"(2)] cont s2
      show ?thesis by auto
    next
      case False
      with "1.prems"(1) True rn b s2 show ?thesis
        by (subst (asm) for_loop.simps) (auto split: if_splits)
    qed
  qed
qed

lemma foreach_loop_frames:
  "foreach_loop body interp var xs = Inr (res, i')
   \<Longrightarrow> (\<forall>i r i'. body i = Inr (r, i') \<longrightarrow> frame_sig i' = frame_sig i)
   \<Longrightarrow> frame_sig i' = frame_sig interp"
proof (induction xs arbitrary: interp)
  case Nil
  then show ?case by simp
next
  case (Cons x xs)
  from Cons.prems(1) obtain r2 i2 where b: "body (bcl_var_set interp var x) = Inr (r2, i2)"
    by (auto split: sum.splits)
  have s2: "frame_sig i2 = frame_sig interp" using Cons.prems(2) b by fastforce
  show ?case
  proof (cases "r2 = BCL_CONTINUE \<or> r2 = BCL_OK")
    case True
    with Cons.prems(1) b have "foreach_loop body i2 var xs = Inr (res, i')" by auto
    from Cons.IH [OF this Cons.prems(2)] s2 show ?thesis by simp
  next
    case False
    with Cons.prems(1) b s2 show ?thesis by (auto split: if_splits)
  qed
qed

lemma run_items_frames:
  "keeps_frames self \<Longrightarrow>
   \<forall>i r i'. run_items self its i = Inr (r, i') \<longrightarrow> frame_sig i' = frame_sig i"
  by (auto simp: run_items_def dest: exec_block_items_frames)

lemma exec_error_frames:
  "exec_error interp msg = Inr (res, i') \<Longrightarrow> frame_sig i' = frame_sig interp"
  by (auto simp: exec_error_def)

lemma exec_for_frames:
  assumes "keeps_frames self" and "exec_for self interp blk = Inr (res, i')"
  shows "frame_sig i' = frame_sig interp"
  using assms(2) for_loop_frames [OF _ run_items_frames [OF assms(1)]]
  by (auto simp: exec_for_def exec_error_def split: option.splits sum.splits prod.splits)

lemma exec_foreach_frames:
  assumes "keeps_frames self" and "exec_foreach self interp blk = Inr (res, i')"
  shows "frame_sig i' = frame_sig interp"
  using assms(2) foreach_loop_frames [OF _ run_items_frames [OF assms(1)]]
  by (auto simp: exec_foreach_def exec_error_def Let_def
           split: option.splits sum.splits prod.splits if_splits)

lemma exec_proc_frames:
  "exec_proc interp b blk = Inr (res, i') \<Longrightarrow> frame_sig i' = frame_sig interp"
  by (auto simp: exec_proc_def exec_error_def Let_def split: option.splits)

lemma exec_switch_frames:
  assumes "keeps_frames self"
  shows "exec_switch self interp switch_value cs = Inr (res, i') \<Longrightarrow> frame_sig i' = frame_sig interp"
  using exec_block_items_frames [OF assms]
  by (induction cs) (auto simp: Let_def split: if_splits)

lemma loop_step_frames:
  assumes "keeps_frames self" and "loop_step self b r interp = Inr (res, i')"
  shows "frame_sig i' = frame_sig interp"
  using assms(2) exec_via_frames [OF assms(1)]
  by (auto simp: loop_step_def split: if_splits)

lemma bcl_exec_block_frames:
  assumes "keeps_frames self" and "bcl_exec_block self interp p = Inr (res, i')"
  shows "frame_sig i' = frame_sig interp"
proof (cases p)
  case None
  with assms(2) show ?thesis by (simp add: bcl_exec_block_def)
next
  case (Some b)
  with assms(2) have inb: "b < length (blocks interp)"
    by (auto simp: bcl_exec_block_def split: if_splits)
  define blk where "blk = blocks interp ! b"
  note items = exec_block_items_frames [OF assms(1)]
  note cond = eval_block_condition_frames [OF assms(1)]
  have conditional: "frame_sig i' = frame_sig interp"
    if "(case eval_block_condition self interp (condition blk) of
           Inl e \<Rightarrow> Inl e
         | Inr (c, i1) \<Rightarrow>
             if c then exec_block_items self i1 (items blk)
             else (case find_sibling i1 (children blk) of
                     None \<Rightarrow> Inr (BCL_OK, i1)
                   | Some sibling \<Rightarrow> exec_via self i1 (Some sibling))) = Inr (res, i')"
    using that cond [of interp "condition blk"] items exec_via_frames [OF assms(1)]
    by (fastforce split: sum.splits if_splits option.splits)
  have while: "frame_sig i' = frame_sig interp"
    if "(case eval_block_condition self interp (condition blk) of
           Inl e \<Rightarrow> Inl e
         | Inr (c, i1) \<Rightarrow>
             if \<not> c then Inr (BCL_OK, i1)
             else (case exec_block_items self i1 (items blk) of
                     Inl e \<Rightarrow> Inl e
                   | Inr (res, i2) \<Rightarrow> loop_step self b res i2)) = Inr (res, i')"
    using that cond [of interp "condition blk"] items loop_step_frames [OF assms(1)]
    by (fastforce split: sum.splits if_splits)
  from assms(2) Some inb show ?thesis
    unfolding bcl_exec_block_def
    by (cases "btype blk")
       (auto simp: blk_def [symmetric] Let_def
             dest: items exec_for_frames [OF assms(1)] exec_foreach_frames [OF assms(1)]
                   exec_proc_frames exec_switch_frames [OF assms(1)] exec_error_frames
                   conditional while
             split: option.splits)
qed

lemma run_keeps_frames: "keeps_frames (run n)"
proof (induction n)
  case 0
  show ?case by (simp add: keeps_frames_def)
next
  case (Suc n)
  show ?case
    unfolding keeps_frames_def
  proof (intro allI impI)
    fix c interp res v i'
    assume r: "run (Suc n) c interp = Inr (res, v, i')"
    show "frame_sig i' = frame_sig interp"
    proof (cases c)
      case (Exec_block p)
      with r obtain r1 where "bcl_exec_block (run n) interp p = Inr (r1, i')"
        by (auto simp: map_sum_def split: sum.splits)
      then show ?thesis by (rule bcl_exec_block_frames [OF Suc])
    next
      case (Eval code)
      with r have "bcl_eval (run n) interp code = Inr (res, v, i')" by simp
      then show ?thesis by (rule bcl_eval_frames [OF Suc])
    qed
  qed
qed
section \<open>Return from a procedure\<close>

text \<open>
  The definition of a procedure \<^verbatim>\<open>double\<close>, and the interpreter after it has run: the
  body of the procedure is the block at address 2.
\<close>

definition double_script :: string where
  "double_script =
     ''PROC double WITH x DO'' @ [CHR 0x0A] @ ''RETURN [EXPR $x * 2]'' @ [CHR 0x0A] @ ''END''"

definition double_defined :: bcl_interp_t where
  "double_defined = bcl_interp_create
     \<lparr> procedures := [(''double'', \<lparr> pname = ''double'', params = [(''x'', False)],
                                     body_block = Some 2 \<rparr>)],
       blocks := [(block_create BLOCK_NONE)\<lparr> items := [ITEM_BLOCK (Some 1)] \<rparr>,
                  (block_create BLOCK_PROC)\<lparr> proc_name := Some ''double'', proc_params := Some ''x'',
                     items := [ITEM_LINE ''RETURN [EXPR $x * 2]''], start_line_num := 1 \<rparr>,
                  (block_create BLOCK_NONE)\<lparr> items := [ITEM_LINE ''RETURN [EXPR $x * 2]''] \<rparr>] \<rparr>"

definition double_at_return :: bcl_interp_t where
  "double_at_return = double_defined
     \<lparr> scope_stack := [scope_create\<lparr> vars := [(''x'', ''21'')] \<rparr>], return_value := Some ''42'' \<rparr>"

text \<open>
  Claim C1.  A call of a procedure whose body ends with the Return signal returns Ok; its
  result is the value that the Return left in the interpreter; and the state after the
  call is the state at the end of the body with that value taken out and the scope stack
  put back to what it was before the call: the frame of the call is gone, with every
  variable set in it, and the frames of the callers are as they were.
\<close>

theorem proc_call_return:
  assumes "bcl_hash_get (procedures interp) name = Some proc"
    and "length (filter (\<lambda>p. \<not> snd p) (params proc)) \<le> length args"
    and "scope_depth interp < BCL_MAX_SCOPE_DEPTH"
    and "body_block proc = Some b"
    and "bcl_exec_block (run n)
           (bind_params (interp\<lparr> scope_stack := scope_create # scope_stack interp \<rparr>)
              (params proc) args) (Some b) = Inr (BCL_RETURN, i3)"
  shows "bcl_proc_call (run (Suc n)) interp name args
           = Inr (BCL_OK, Some (value_or_empty (return_value i3)),
                  i3\<lparr> return_value := None, scope_stack := scope_stack interp \<rparr>)"
proof -
  let ?i2 = "bind_params (interp\<lparr> scope_stack := scope_create # scope_stack interp \<rparr>)
               (params proc) args"
  have "frame_sig i3 = frame_sig ?i2"
    using bcl_exec_block_frames [OF run_keeps_frames assms(5)] .
  also have "\<dots> = frame_sig (interp\<lparr> scope_stack := scope_create # scope_stack interp \<rparr>)"
    by simp
  also have "\<dots> = (Suc (length (scope_stack interp)), scope_stack interp)"
    by (simp add: frame_sig_def)
  finally obtain sc where top: "scope_stack i3 = sc # scope_stack interp"
    using frame_sig_top by blast
  show ?thesis
    using assms top
    by (simp add: bcl_proc_call_def bcl_scope_push_def bcl_scope_pop_def scope_depth_def
          exec_via_def)
qed

theorem proc_call_return_witness:
  "bcl_eval_structured 5 bcl_interp_create double_script = Inr (BCL_OK, double_defined)
   \<and> bcl_hash_get (procedures double_defined) ''double''
       = Some \<lparr> pname = ''double'', params = [(''x'', False)], body_block = Some 2 \<rparr>
   \<and> scope_depth double_defined < BCL_MAX_SCOPE_DEPTH
   \<and> bcl_exec_block (run 3)
         (bind_params (double_defined\<lparr> scope_stack := scope_create # scope_stack double_defined \<rparr>)
            [(''x'', False)] [''21'']) (Some 2) = Inr (BCL_RETURN, double_at_return)
   \<and> bcl_proc_call (run 4) double_defined ''double'' [''21'']
       = Inr (BCL_OK, Some ''42'', double_defined)
   \<and> bcl_var_get double_defined ''x'' = None"
proof -
  let ?proc = "\<lparr> pname = ''double'', params = [(''x'', False)], body_block = Some 2 \<rparr>"
  have h0: "bcl_eval_structured 5 bcl_interp_create double_script = Inr (BCL_OK, double_defined)"
    by (simp add: double_script_def double_defined_def ev cong: let_weak_cong)
  have h1: "bcl_hash_get (procedures double_defined) ''double'' = Some ?proc"
    by (simp add: double_defined_def ev)
  have h2: "length (filter (\<lambda>p. \<not> snd p) (params ?proc)) \<le> length [''21'']" by simp
  have h3: "scope_depth double_defined < BCL_MAX_SCOPE_DEPTH"
    by (simp add: double_defined_def ev)
  have h4: "body_block ?proc = Some 2" by simp
  have h5: "bcl_exec_block (run 3)
         (bind_params (double_defined\<lparr> scope_stack := scope_create # scope_stack double_defined \<rparr>)
            (params ?proc) [''21'']) (Some 2) = Inr (BCL_RETURN, double_at_return)"
    by (simp add: double_at_return_def double_defined_def ev cong: let_weak_cong)
  have h6: "bcl_var_get double_defined ''x'' = None"
    by (simp add: double_defined_def ev)
  have "bcl_proc_call (run 4) double_defined ''double'' [''21'']
          = Inr (BCL_OK, Some ''42'', double_defined)"
    using proc_call_return [OF h1 h2 h3 h4 h5]
    by (simp add: double_at_return_def double_defined_def bcl_interp_create_def
          value_or_empty_def)
  with h0 h1 h3 h5 h6 show ?thesis by simp
qed
section \<open>The block store across an evaluation\<close>

text \<open>
  The only writes to the store of blocks during an evaluation are those of an executed
  \<^verbatim>\<open>PROC\<close> block: it empties itself and allocates the body of the procedure.  So a
  block that is not a \<^verbatim>\<open>PROC\<close> block stays where it is and as it is.  This is what
  lets the loop of a While block be modelled as the execution of the same block again.
\<close>

definition block_at :: "nat \<Rightarrow> bcl_block_t \<Rightarrow> bcl_interp_t \<Rightarrow> bool" where
  "block_at b blk interp = (b < length (blocks interp) \<and> blocks interp ! b = blk)"

definition keeps_block :: "nat \<Rightarrow> bcl_block_t \<Rightarrow> knot \<Rightarrow> bool" where
  "keeps_block b blk self =
     (\<forall>c interp res v i'. self c interp = Inr (res, v, i') \<longrightarrow> block_at b blk interp
        \<longrightarrow> block_at b blk i')"

lemma block_at_same: "blocks i' = blocks i \<Longrightarrow> block_at b blk i \<Longrightarrow> block_at b blk i'"
  by (simp add: block_at_def)

lemma blocks_set_error [simp]: "blocks (bcl_set_error interp msg) = blocks interp"
  by (simp add: bcl_set_error_def)

lemma blocks_var_set [simp]: "blocks (bcl_var_set interp name val) = blocks interp"
  by (simp add: bcl_var_set_def split: list.splits)

lemma blocks_var_unset [simp]: "blocks (bcl_var_unset interp name) = blocks interp"
  by (simp add: bcl_var_unset_def split: list.splits)

lemma blocks_bind_params [simp]: "blocks (bind_params interp ps args) = blocks interp"
  by (induction interp ps args rule: bind_params.induct) simp_all

lemma blocks_scope_pop [simp]: "blocks (snd (bcl_scope_pop interp)) = blocks interp"
  by (simp add: bcl_scope_pop_def)

lemma blocks_scope_push [simp]: "blocks (snd (bcl_scope_push interp)) = blocks interp"
  by (simp add: bcl_scope_push_def)

lemma commands_blocks:
  "cmd_error interp msg = Inr (res, v, i') \<Longrightarrow> blocks i' = blocks interp"
  "bcl_cmd_set interp argv = Inr (res, v, i') \<Longrightarrow> blocks i' = blocks interp"
  "bcl_cmd_unset interp argv = Inr (res, v, i') \<Longrightarrow> blocks i' = blocks interp"
  "bcl_cmd_append interp argv = Inr (res, v, i') \<Longrightarrow> blocks i' = blocks interp"
  "bcl_cmd_global interp argv = Inr (res, v, i') \<Longrightarrow> blocks i' = blocks interp"
  "bcl_cmd_expr interp argv = Inr (res, v, i') \<Longrightarrow> blocks i' = blocks interp"
  "bcl_cmd_break interp argv = Inr (res, v, i') \<Longrightarrow> blocks i' = blocks interp"
  "bcl_cmd_continue interp argv = Inr (res, v, i') \<Longrightarrow> blocks i' = blocks interp"
  "bcl_cmd_return interp argv = Inr (res, v, i') \<Longrightarrow> blocks i' = blocks interp"
  "not_implemented interp what = Inr (res, v, i') \<Longrightarrow> blocks i' = blocks interp"
  by (auto simp: cmd_error_def bcl_cmd_set_def bcl_cmd_unset_def bcl_cmd_append_def
        bcl_cmd_global_def bcl_cmd_expr_def bcl_cmd_break_def bcl_cmd_continue_def
        bcl_cmd_return_def not_implemented_def Let_def
        split: list.splits option.splits if_splits sum.splits)

lemma bcl_cmd_incr_blocks:
  "bcl_cmd_incr interp argv = Inr (res, v, i') \<Longrightarrow> blocks i' = blocks interp"
  by (auto simp: bcl_cmd_incr_def expected_integer_def cmd_error_def Let_def
           split: if_splits sum.splits prod.splits)

lemma bcl_cmd_exit_blocks:
  "bcl_cmd_exit interp argv = Inr (res, v, i') \<Longrightarrow> blocks i' = blocks interp"
  by (auto simp: bcl_cmd_exit_def expected_integer_def cmd_error_def
           split: if_splits sum.splits prod.splits list.splits)

lemma expand_subcommands_block:
  "bcl_expand_subcommands ev interp acc s = Inr (r, i')
   \<Longrightarrow> (\<forall>i s r i'. ev i s = Inr (r, i') \<longrightarrow> block_at b blk i \<longrightarrow> block_at b blk i')
   \<Longrightarrow> block_at b blk interp \<Longrightarrow> block_at b blk i'"
proof (induction ev interp acc s arbitrary: r i' rule: bcl_expand_subcommands.induct)
  case (1 ev interp acc)
  then show ?case by (simp add: bcl_expand_subcommands.simps)
next
  case (2 ev interp acc c cs)
  note ev = "2.prems"(2)
  show ?case
  proof (cases "c = CHR ''[''")
    case False
    with 2 show ?thesis by (simp add: bcl_expand_subcommands.simps)
  next
    case True
    obtain cmd rest where mb: "match_bracket 1 [] cs = (cmd, rest)" by (cases "match_bracket 1 [] cs")
    from "2.prems"(1) True mb obtain expanded_cmd i1 cmd_result i2 where
      a: "bcl_expand_subcommands ev interp [] cmd = Inr (expanded_cmd, i1)" and
      b: "ev i1 expanded_cmd = Inr (cmd_result, i2)" and
      c: "bcl_expand_subcommands ev i2 (rev (protect_result cmd_result) @ acc)
            (if rest \<noteq> [] \<and> hd rest = CHR '']'' then tl rest else rest) = Inr (r, i')"
      by (auto simp: bcl_expand_subcommands.simps split: sum.splits)
    have "block_at b blk i1"
      using "2.IH"(1) [OF True mb [symmetric] a ev "2.prems"(3)] .
    then have "block_at b blk i2" using ev b by blast
    then show ?thesis
      using "2.IH"(2) [OF True mb [symmetric] a refl b refl c ev] by simp
  qed
qed

lemma eval_subcommand_block:
  "keeps_block b blk self \<Longrightarrow>
   \<forall>i s r i'. bcl_eval_subcommand self i s = Inr (r, i') \<longrightarrow> block_at b blk i
      \<longrightarrow> block_at b blk i'"
  unfolding keeps_block_def bcl_eval_subcommand_def
  by (auto simp: map_sum_def split: sum.splits)

lemma parse_line_block:
  assumes "keeps_block b blk self"
    and "bcl_parse_line (bcl_eval_subcommand self) interp line = Inr (argv, i')"
    and "block_at b blk interp"
  shows "block_at b blk i'"
  using assms(2,3) expand_subcommands_block [OF _ eval_subcommand_block [OF assms(1)]]
  by (auto simp: bcl_parse_line_def split: if_splits sum.splits)

lemma exec_via_block:
  "keeps_block b blk self \<Longrightarrow> exec_via self interp p = Inr (res, i')
   \<Longrightarrow> block_at b blk interp \<Longrightarrow> block_at b blk i'"
  unfolding keeps_block_def exec_via_def
  by (auto simp: map_sum_def split: sum.splits)

lemma bcl_cmd_if_block:
  assumes "keeps_block b blk self" and "bcl_cmd_if self interp argv = Inr (res, v, i')"
    and "block_at b blk interp"
  shows "block_at b blk i'"
proof -
  have "blocks i' = blocks interp \<or> (\<exists>code. self (Eval code) interp = Inr (res, v, i'))"
    using assms(2)
    by (auto simp: bcl_cmd_if_def cmd_error_def Let_def split: if_splits option.splits sum.splits)
  then show ?thesis
    using assms(1,3) by (auto simp: keeps_block_def intro: block_at_same)
qed

lemma proc_call_block:
  assumes "keeps_block b blk self" and "bcl_proc_call self interp name args = Inr (res, v, i')"
    and "block_at b blk interp"
  shows "block_at b blk i'"
proof (cases "bcl_hash_get (procedures interp) name")
  case None
  with assms(2,3) show ?thesis
    by (auto simp: bcl_proc_call_def dest!: commands_blocks(1) intro: block_at_same)
next
  case (Some proc)
  obtain r0 i1 where push: "bcl_scope_push interp = (r0, i1)" by (cases "bcl_scope_push interp")
  then have b1: "blocks i1 = blocks interp"
    by (auto simp: bcl_scope_push_def split: if_splits)
  show ?thesis
  proof (cases "length args < length (filter (\<lambda>p. \<not> snd p) (params proc)) \<or> r0 \<noteq> BCL_OK")
    case True
    have "blocks i' = blocks interp"
      using assms(2) Some True push b1
      by (auto simp: bcl_proc_call_def split: if_splits dest!: commands_blocks(1))
    then show ?thesis using assms(3) by (rule block_at_same)
  next
    case False
    let ?i2 = "bind_params i1 (params proc) args"
    have at2: "block_at b blk ?i2" using assms(3) b1 by (simp add: block_at_def)
    from assms(2) Some False push obtain r3 i3 where
      body: "(case body_block proc of None \<Rightarrow> Inr (BCL_OK, ?i2)
              | Some p \<Rightarrow> exec_via self ?i2 (Some p)) = Inr (r3, i3)"
      and res: "i' = snd (bcl_scope_pop (i3\<lparr> return_value := None \<rparr>)) \<or> i' = snd (bcl_scope_pop i3)"
      by (auto simp: bcl_proc_call_def split: sum.splits if_splits)
    have "block_at b blk i3"
      using body at2 exec_via_block [OF assms(1)] by (auto split: option.splits)
    with res show ?thesis by (auto simp: block_at_def bcl_scope_pop_def)
  qed
qed

definition result_keeps_block ::
  "nat \<Rightarrow> bcl_block_t \<Rightarrow> bcl_interp_t \<Rightarrow> cmd_result \<Rightarrow> bool" where
  "result_keeps_block b blk interp r =
     (case r of Inl e \<Rightarrow> True | Inr (res, v, i') \<Rightarrow> block_at b blk interp \<longrightarrow> block_at b blk i')"

lemma result_keeps_blockI:
  "(\<And>res v i'. r = Inr (res, v, i') \<Longrightarrow> blocks i' = blocks interp)
   \<Longrightarrow> result_keeps_block b blk interp r"
  by (auto simp: result_keeps_block_def block_at_def split: sum.splits)

lemma result_keeps_block_if:
  "result_keeps_block b blk interp x \<Longrightarrow> result_keeps_block b blk interp y
   \<Longrightarrow> result_keeps_block b blk interp (if c then x else y)"
  by simp

lemma builtin_block:
  assumes "keeps_block b blk self" and "builtin self cmd interp argv = Inr (res, v, i')"
    and "block_at b blk interp"
  shows "block_at b blk i'"
proof -
  have if_case: "result_keeps_block b blk interp (bcl_cmd_if self interp argv)"
    using bcl_cmd_if_block [OF assms(1)]
    by (auto simp: result_keeps_block_def split: sum.splits)
  have "result_keeps_block b blk interp (builtin self cmd interp argv)"
    unfolding builtin_def
    by (intro result_keeps_block_if if_case result_keeps_blockI)
       (erule commands_blocks bcl_cmd_incr_blocks bcl_cmd_exit_blocks | simp)+
  with assms(2,3) show ?thesis by (simp add: result_keeps_block_def)
qed

lemma dispatch_block:
  assumes "keeps_block b blk self" and "bcl_dispatch_command self interp name argv = Inr (res, v, i')"
    and "block_at b blk interp"
  shows "block_at b blk i'"
proof (cases "find (\<lambda>c. bcl_strcasecmp_eq c name) command_table")
  case (Some cmd)
  with assms(2) have "builtin self cmd interp argv = Inr (res, v, i')"
    by (simp add: bcl_dispatch_command_def)
  then show ?thesis using assms(3) by (rule builtin_block [OF assms(1)])
next
  case None
  show ?thesis
  proof (cases "bcl_proc_exists interp name")
    case True
    with assms(2) None have "bcl_proc_call self interp name argv = Inr (res, v, i')"
      by (simp add: bcl_dispatch_command_def)
    then show ?thesis using assms(3) by (rule proc_call_block [OF assms(1)])
  next
    case False
    with assms(2) None have "blocks i' = blocks interp"
      by (auto simp: bcl_dispatch_command_def dest!: commands_blocks(1))
    then show ?thesis using assms(3) by (rule block_at_same)
  qed
qed

lemma eval_lines_block:
  assumes "keeps_block b blk self"
  shows "eval_lines self interp last_result ls = Inr (res, v, i')
         \<Longrightarrow> block_at b blk interp \<Longrightarrow> block_at b blk i'"
proof (induction ls arbitrary: interp last_result)
  case Nil
  then show ?case by (auto simp: block_at_def)
next
  case (Cons line rest)
  from Cons.prems(1) obtain argv i1 where
    pl: "bcl_parse_line (bcl_eval_subcommand self) interp line = Inr (argv, i1)"
    by (auto split: sum.splits)
  have s1: "block_at b blk i1" using parse_line_block [OF assms pl Cons.prems(2)] .
  show ?case
  proof (cases "argv = []")
    case True
    with Cons.prems(1) pl have "eval_lines self i1 last_result rest = Inr (res, v, i')" by simp
    from Cons.IH [OF this s1] show ?thesis .
  next
    case False
    with Cons.prems(1) pl obtain r2 c2 i2 where
      d: "bcl_dispatch_command self i1 (hd argv) (tl argv) = Inr (r2, c2, i2)"
      by (auto split: sum.splits)
    have s2: "block_at b blk i2" using dispatch_block [OF assms d s1] .
    show ?thesis
    proof (cases "r2 = BCL_OK")
      case True
      with Cons.prems(1) pl d False have "eval_lines self i2 c2 rest = Inr (res, v, i')" by simp
      from Cons.IH [OF this s2] show ?thesis .
    next
      case ne: False
      with Cons.prems(1) pl d False s2 show ?thesis by auto
    qed
  qed
qed

lemma exec_block_items_block:
  assumes "keeps_block b blk self"
  shows "exec_block_items self interp its = Inr (res, i')
         \<Longrightarrow> block_at b blk interp \<Longrightarrow> block_at b blk i'"
proof (induction its arbitrary: interp)
  case Nil
  then show ?case by auto
next
  case (Cons it rest)
  show ?case
  proof (cases it)
    case (ITEM_LINE line)
    with Cons.prems(1) obtain argv i1 where
      pl: "bcl_parse_line (bcl_eval_subcommand self) interp line = Inr (argv, i1)"
      by (auto split: sum.splits)
    have s1: "block_at b blk i1" using parse_line_block [OF assms pl Cons.prems(2)] .
    show ?thesis
    proof (cases "argv = []")
      case True
      with Cons.prems(1) ITEM_LINE pl have "exec_block_items self i1 rest = Inr (res, i')" by simp
      from Cons.IH [OF this s1] show ?thesis .
    next
      case False
      with Cons.prems(1) ITEM_LINE pl obtain r2 c2 i2 where
        d: "bcl_dispatch_command self i1 (hd argv) (tl argv) = Inr (r2, c2, i2)"
        by (auto split: sum.splits)
      have s2: "block_at b blk i2" using dispatch_block [OF assms d s1] .
      show ?thesis
      proof (cases "r2 = BCL_OK")
        case True
        with Cons.prems(1) ITEM_LINE pl d False
        have "exec_block_items self i2 rest = Inr (res, i')" by simp
        from Cons.IH [OF this s2] show ?thesis .
      next
        case ne: False
        with Cons.prems(1) ITEM_LINE pl d False s2 show ?thesis by auto
      qed
    qed
  next
    case (ITEM_BLOCK p)
    with Cons.prems(1) obtain r1 i1 where ev: "exec_via self interp p = Inr (r1, i1)"
      by (auto split: sum.splits)
    have s1: "block_at b blk i1" using exec_via_block [OF assms ev Cons.prems(2)] .
    show ?thesis
    proof (cases "r1 = BCL_OK")
      case True
      with Cons.prems(1) ITEM_BLOCK ev have "exec_block_items self i1 rest = Inr (res, i')" by simp
      from Cons.IH [OF this s1] show ?thesis .
    next
      case False
      with Cons.prems(1) ITEM_BLOCK ev s1 show ?thesis by auto
    qed
  qed
qed

lemma eval_block_condition_block:
  assumes "keeps_block b blk self" and "eval_block_condition self interp cond = Inr (c, i')"
    and "block_at b blk interp"
  shows "block_at b blk i'"
  using assms(2,3) expand_subcommands_block [OF _ eval_subcommand_block [OF assms(1)]]
  by (auto simp: eval_block_condition_def map_sum_def split: option.splits if_splits sum.splits)

lemma for_loop_block:
  "for_loop body interp i fin paso = Inr (res, i')
   \<Longrightarrow> (\<forall>i r i'. body i = Inr (r, i') \<longrightarrow> block_at b blk i \<longrightarrow> block_at b blk i')
   \<Longrightarrow> block_at b blk interp \<Longrightarrow> block_at b blk i'"
proof (induction body interp i fin paso rule: for_loop.induct)
  case (1 body interp i fin paso)
  show ?case
  proof (cases "(paso > 0 \<and> i \<le> fin) \<or> (paso < 0 \<and> i \<ge> fin)")
    case False
    with "1.prems"(1,3) show ?thesis by (simp add: for_loop.simps)
  next
    case True
    with "1.prems"(1) obtain for_value r2 i2 where
      rn: "render_number i = Inr for_value" and
      bd: "body (bcl_var_set interp ''__FOR'' for_value) = Inr (r2, i2)"
      by (subst (asm) for_loop.simps) (auto split: sum.splits)
    have "block_at b blk (bcl_var_set interp ''__FOR'' for_value)"
      using "1.prems"(3) by (simp add: block_at_def)
    then have s2: "block_at b blk i2" using "1.prems"(2) bd by blast
    show ?thesis
    proof (cases "r2 = BCL_CONTINUE \<or> r2 = BCL_OK")
      case cont: True
      with "1.prems"(1) True rn bd have "for_loop body i2 (i + paso) fin paso = Inr (res, i')"
        by (subst (asm) for_loop.simps) auto
      from "1.IH" [OF True rn bd refl _ cont this "1.prems"(2) s2] cont
      show ?thesis by auto
    next
      case False
      with "1.prems"(1) True rn bd s2 show ?thesis
        by (subst (asm) for_loop.simps) (auto split: if_splits)
    qed
  qed
qed

lemma foreach_loop_block:
  "foreach_loop body interp var xs = Inr (res, i')
   \<Longrightarrow> (\<forall>i r i'. body i = Inr (r, i') \<longrightarrow> block_at b blk i \<longrightarrow> block_at b blk i')
   \<Longrightarrow> block_at b blk interp \<Longrightarrow> block_at b blk i'"
proof (induction xs arbitrary: interp)
  case Nil
  then show ?case by auto
next
  case (Cons x xs)
  from Cons.prems(1) obtain r2 i2 where bd: "body (bcl_var_set interp var x) = Inr (r2, i2)"
    by (auto split: sum.splits)
  have "block_at b blk (bcl_var_set interp var x)"
    using Cons.prems(3) by (simp add: block_at_def)
  then have s2: "block_at b blk i2" using Cons.prems(2) bd by blast
  show ?case
  proof (cases "r2 = BCL_CONTINUE \<or> r2 = BCL_OK")
    case True
    with Cons.prems(1) bd have "foreach_loop body i2 var xs = Inr (res, i')" by auto
    from Cons.IH [OF this Cons.prems(2) s2] show ?thesis .
  next
    case False
    with Cons.prems(1) bd s2 show ?thesis by (auto split: if_splits)
  qed
qed

lemma run_items_block:
  "keeps_block b blk self \<Longrightarrow>
   \<forall>i r i'. run_items self its i = Inr (r, i') \<longrightarrow> block_at b blk i \<longrightarrow> block_at b blk i'"
  by (auto simp: run_items_def dest: exec_block_items_block)

lemma exec_error_block:
  "exec_error interp msg = Inr (res, i') \<Longrightarrow> block_at b blk interp \<Longrightarrow> block_at b blk i'"
  by (auto simp: exec_error_def block_at_def)

lemma exec_for_block:
  assumes "keeps_block b blk self" and "exec_for self interp blk' = Inr (res, i')"
    and "block_at b blk interp"
  shows "block_at b blk i'"
  using assms(2,3) for_loop_block [OF _ run_items_block [OF assms(1)]]
  by (auto simp: exec_for_def split: option.splits sum.splits prod.splits
           dest: exec_error_block)

lemma exec_foreach_block:
  assumes "keeps_block b blk self" and "exec_foreach self interp blk' = Inr (res, i')"
    and "block_at b blk interp"
  shows "block_at b blk i'"
  using assms(2,3) foreach_loop_block [OF _ run_items_block [OF assms(1)]]
  by (auto simp: exec_foreach_def Let_def
           split: option.splits sum.splits prod.splits if_splits dest: exec_error_block)

text \<open>An executed \<^verbatim>\<open>PROC\<close> block writes to itself and to a new address only.\<close>

lemma exec_proc_block:
  assumes "exec_proc interp p (blocks interp ! p) = Inr (res, i')"
    and "btype (blocks interp ! p) = BLOCK_PROC" and "btype blk \<noteq> BLOCK_PROC"
    and "block_at b blk interp"
  shows "block_at b blk i'"
proof -
  from assms(2,3,4) have ne: "b \<noteq> p" by (auto simp: block_at_def)
  from assms(1) have "blocks i' = blocks interp
      \<or> (\<exists>x y. blocks i' = (blocks interp)[p := x] @ [y])"
    by (auto simp: exec_proc_def exec_error_def bcl_proc_define_def Let_def split: option.splits)
  with assms(4) ne show ?thesis by (auto simp: block_at_def nth_append)
qed

lemma exec_switch_block:
  assumes "keeps_block b blk self"
  shows "exec_switch self interp switch_value cs = Inr (res, i')
         \<Longrightarrow> block_at b blk interp \<Longrightarrow> block_at b blk i'"
  using exec_block_items_block [OF assms]
  by (induction cs) (auto simp: Let_def split: if_splits)

lemma loop_step_block:
  assumes "keeps_block b blk self" and "loop_step self w r interp = Inr (res, i')"
    and "block_at b blk interp"
  shows "block_at b blk i'"
  using assms(2,3) exec_via_block [OF assms(1)]
  by (auto simp: loop_step_def split: if_splits)

lemma bcl_exec_block_block:
  assumes "keeps_block b blk self" and "btype blk \<noteq> BLOCK_PROC"
    and "bcl_exec_block self interp p = Inr (res, i')" and "block_at b blk interp"
  shows "block_at b blk i'"
proof (cases p)
  case None
  with assms(3,4) show ?thesis by (simp add: bcl_exec_block_def)
next
  case (Some w)
  with assms(3) have inb: "w < length (blocks interp)"
    by (auto simp: bcl_exec_block_def split: if_splits)
  define cur where "cur = blocks interp ! w"
  note its = exec_block_items_block [OF assms(1)]
  note cond = eval_block_condition_block [OF assms(1)]
  have conditional: "block_at b blk i'"
    if "(case eval_block_condition self interp (condition cur) of
           Inl e \<Rightarrow> Inl e
         | Inr (c, i1) \<Rightarrow>
             if c then exec_block_items self i1 (items cur)
             else (case find_sibling i1 (children cur) of
                     None \<Rightarrow> Inr (BCL_OK, i1)
                   | Some sibling \<Rightarrow> exec_via self i1 (Some sibling))) = Inr (res, i')"
  proof -
    from that obtain c i1 where c: "eval_block_condition self interp (condition cur) = Inr (c, i1)"
      by (auto split: sum.splits)
    have "block_at b blk i1" using cond [OF c assms(4)] .
    then show ?thesis using that c its exec_via_block [OF assms(1)]
      by (auto split: if_splits option.splits)
  qed
  have while: "block_at b blk i'"
    if "(case eval_block_condition self interp (condition cur) of
           Inl e \<Rightarrow> Inl e
         | Inr (c, i1) \<Rightarrow>
             if \<not> c then Inr (BCL_OK, i1)
             else (case exec_block_items self i1 (items cur) of
                     Inl e \<Rightarrow> Inl e
                   | Inr (res, i2) \<Rightarrow> loop_step self w res i2)) = Inr (res, i')"
  proof -
    from that obtain c i1 where c: "eval_block_condition self interp (condition cur) = Inr (c, i1)"
      by (auto split: sum.splits)
    have "block_at b blk i1" using cond [OF c assms(4)] .
    then show ?thesis using that c its loop_step_block [OF assms(1)]
      by (auto split: if_splits sum.splits)
  qed
  have proc: "block_at b blk i'"
    if "btype cur = BLOCK_PROC" and "exec_proc interp w cur = Inr (res, i')"
    using that exec_proc_block [of interp w res i' blk b] assms(2,4) by (simp add: cur_def)
  from assms(3,4) Some inb show ?thesis
    unfolding bcl_exec_block_def
    by (cases "btype cur")
       (auto simp: cur_def [symmetric] Let_def
             dest: its exec_for_block [OF assms(1)] exec_foreach_block [OF assms(1)]
                   exec_switch_block [OF assms(1)] exec_error_block conditional while proc
             split: option.splits)
qed

lemma run_keeps_block: "btype blk \<noteq> BLOCK_PROC \<Longrightarrow> keeps_block b blk (run n)"
proof (induction n)
  case 0
  show ?case by (simp add: keeps_block_def)
next
  case (Suc n)
  show ?case
    unfolding keeps_block_def
  proof (intro allI impI)
    fix c interp res v i'
    assume r: "run (Suc n) c interp = Inr (res, v, i')" and at: "block_at b blk interp"
    show "block_at b blk i'"
    proof (cases c)
      case (Exec_block p)
      with r obtain r1 where "bcl_exec_block (run n) interp p = Inr (r1, i')"
        by (auto simp: map_sum_def split: sum.splits)
      then show ?thesis using at by (rule bcl_exec_block_block [OF Suc.IH [OF Suc.prems] Suc.prems])
    next
      case (Eval code)
      with r have "eval_lines (run n) interp None (split_lines code) = Inr (res, v, i')"
        by (simp add: bcl_eval_def)
      then show ?thesis using at by (rule eval_lines_block [OF Suc.IH [OF Suc.prems]])
    qed
  qed
qed


section \<open>While blocks\<close>

definition while_script :: string where
  "while_script =
     ''SET I 0'' @ [CHR 0x0A] @ ''WHILE $I < 1000000 DO'' @ [CHR 0x0A] @ ''INCR I'' @ [CHR 0x0A]
     @ ''IF $I == 3 THEN'' @ [CHR 0x0A] @ ''BREAK'' @ [CHR 0x0A] @ ''END'' @ [CHR 0x0A] @ ''END''"

text \<open>The blocks of that script, and the interpreter with them and a value of \<^verbatim>\<open>I\<close>.\<close>

definition while_store :: "bcl_block_t list" where
  "while_store =
     [(block_create BLOCK_NONE)\<lparr> items := [ITEM_LINE ''SET I 0'', ITEM_BLOCK (Some 1)] \<rparr>,
      (block_create BLOCK_WHILE)\<lparr> condition := Some ''$I < 1000000'',
         items := [ITEM_LINE ''INCR I'', ITEM_BLOCK (Some 2)], start_line_num := 2 \<rparr>,
      (block_create BLOCK_IF)\<lparr> condition := Some ''$I == 3'', items := [ITEM_LINE ''BREAK''],
         start_line_num := 4 \<rparr>]"

definition while_state :: "string \<Rightarrow> bcl_interp_t" where
  "while_state v = bcl_interp_create\<lparr> global_vars := [(''I'', v)], blocks := while_store \<rparr>"

text \<open>
  Claim C2.  The execution of a While block \<open>b\<close>, given what its condition evaluates to
  (the evaluation may itself change the state, to \<open>i1\<close>) and, when it is true, the signal
  \<open>res\<close> and the state \<open>i2\<close> in which the body ends: a false condition ends the loop with
  Ok; a body that ends with Break ends the loop with Ok; after Continue or Ok the loop
  goes on, which is the execution of the block again from \<open>i2\<close>, starting with its
  condition, and the block found at \<open>b\<close> in \<open>i2\<close> is the block that was there before;
  any other signal is the result of the block, with the state \<open>i2\<close>.
\<close>

theorem while_block_iteration:
  assumes "b < length (blocks interp)"
    and "btype (blocks interp ! b) = BLOCK_WHILE"
    and "eval_block_condition (run n) interp (condition (blocks interp ! b)) = Inr (c, i1)"
  shows "(\<not> c \<longrightarrow> bcl_exec_block (run n) interp (Some b) = Inr (BCL_OK, i1))
       \<and> (c \<and> exec_block_items (run n) i1 (items (blocks interp ! b)) = Inr (res, i2) \<longrightarrow>
            bcl_exec_block (run n) interp (Some b)
              = (if res = BCL_BREAK then Inr (BCL_OK, i2)
                 else if res = BCL_CONTINUE \<or> res = BCL_OK then exec_via (run n) i2 (Some b)
                 else Inr (res, i2))
            \<and> b < length (blocks i2) \<and> blocks i2 ! b = blocks interp ! b)
       \<and> exec_via (run (Suc m)) i2 (Some b) = bcl_exec_block (run m) i2 (Some b)"
proof -
  have np: "btype (blocks interp ! b) \<noteq> BLOCK_PROC" using assms(2) by simp
  note keeps = run_keeps_block [OF np, of b n]
  have at: "block_at b (blocks interp ! b) interp" using assms(1) by (simp add: block_at_def)
  have at1: "block_at b (blocks interp ! b) i1"
    using eval_block_condition_block [OF keeps assms(3) at] .
  have at2: "b < length (blocks i2) \<and> blocks i2 ! b = blocks interp ! b"
    if "exec_block_items (run n) i1 (items (blocks interp ! b)) = Inr (res, i2)"
    using exec_block_items_block [OF keeps that at1] by (simp add: block_at_def)
  have "exec_via (run (Suc m)) i2 (Some b) = bcl_exec_block (run m) i2 (Some b)"
    by (cases "bcl_exec_block (run m) i2 (Some b)") (auto simp: exec_via_def)
  with assms at2 show ?thesis
    by (simp add: bcl_exec_block_def loop_step_def)
qed

theorem while_block_iteration_witness:
  "bcl_eval_structured 4 bcl_interp_create while_script = Inr (BCL_OK, while_state ''3'')
   \<and> eval_block_condition (run 2) (while_state ''2'') (condition (blocks (while_state ''2'') ! 1))
       = Inr (True, while_state ''2'')
   \<and> exec_block_items (run 2) (while_state ''2'') (items (blocks (while_state ''2'') ! 1))
       = Inr (BCL_BREAK, while_state ''3'')
   \<and> bcl_exec_block (run 2) (while_state ''2'') (Some 1) = Inr (BCL_OK, while_state ''3'')
   \<and> exec_block_items (run 3) (while_state ''1'') (items (blocks (while_state ''1'') ! 1))
       = Inr (BCL_OK, while_state ''2'')
   \<and> bcl_exec_block (run 3) (while_state ''1'') (Some 1) = Inr (BCL_OK, while_state ''3'')"
proof -
  have s: "bcl_eval_structured 4 bcl_interp_create while_script = Inr (BCL_OK, while_state ''3'')"
    by (simp add: while_script_def while_state_def while_store_def ev cong: let_weak_cong)
  have n2: "(1::nat) < length (blocks (while_state ''2''))"
    and t2: "btype (blocks (while_state ''2'') ! 1) = BLOCK_WHILE"
    and n1: "(1::nat) < length (blocks (while_state ''1''))"
    and t1: "btype (blocks (while_state ''1'') ! 1) = BLOCK_WHILE"
    by (simp_all add: while_state_def while_store_def block_create_def)
  have c2: "eval_block_condition (run 2) (while_state ''2'') (condition (blocks (while_state ''2'') ! 1))
       = Inr (True, while_state ''2'')"
    by (simp add: while_state_def while_store_def ev cong: let_weak_cong)
  have b2: "exec_block_items (run 2) (while_state ''2'') (items (blocks (while_state ''2'') ! 1))
       = Inr (BCL_BREAK, while_state ''3'')"
    by (simp add: while_state_def while_store_def ev cong: let_weak_cong)
  have e2: "bcl_exec_block (run 2) (while_state ''2'') (Some 1) = Inr (BCL_OK, while_state ''3'')"
    using while_block_iteration [OF n2 t2 c2, of BCL_BREAK "while_state ''3''"] b2 by simp
  have c1: "eval_block_condition (run 3) (while_state ''1'') (condition (blocks (while_state ''1'') ! 1))
       = Inr (True, while_state ''1'')"
    by (simp add: while_state_def while_store_def ev cong: let_weak_cong)
  have b1: "exec_block_items (run 3) (while_state ''1'') (items (blocks (while_state ''1'') ! 1))
       = Inr (BCL_OK, while_state ''2'')"
    by (simp add: while_state_def while_store_def ev cong: let_weak_cong)
  have e1: "bcl_exec_block (run 3) (while_state ''1'') (Some 1) = Inr (BCL_OK, while_state ''3'')"
    using while_block_iteration [OF n1 t1 c1, of BCL_OK "while_state ''2''" 2] b1 e2
    by (simp add: numeral_3_eq_3 numeral_2_eq_2)
  from s c2 b2 e2 b1 e1 show ?thesis by simp
qed
section \<open>Switch blocks\<close>







section \<open>For blocks\<close>




















section \<open>Global variables in a local scope\<close>

lemma strcasecmp_refl: "bcl_strcasecmp_eq k k"
  by (simp add: bcl_strcasecmp_eq_def)

lemma strcasecmp_trans:
  "bcl_strcasecmp_eq a b \<Longrightarrow> bcl_strcasecmp_eq b c \<Longrightarrow> bcl_strcasecmp_eq a c"
  by (simp add: bcl_strcasecmp_eq_def)

lemma hash_get_set_same: "bcl_hash_get (bcl_hash_set t key val) key = Some val"
  by (induction t key val rule: bcl_hash_set.induct) (auto simp: strcasecmp_refl)

lemma hash_exists_set: "bcl_hash_exists t name \<Longrightarrow> bcl_hash_exists (bcl_hash_set t key val) name"
  by (induction t key val rule: bcl_hash_set.induct) (auto simp: bcl_hash_exists_def)

lemma hash_exists_fold_set:
  "bcl_hash_exists t name \<or> name \<in> set keys
   \<Longrightarrow> bcl_hash_exists (fold (\<lambda>key t. bcl_hash_set t key val) keys t) name"
proof (induction keys arbitrary: t)
  case Nil
  then show ?case by simp
next
  case (Cons k ks)
  have "bcl_hash_exists (bcl_hash_set t k val) name \<or> name \<in> set ks"
    using Cons.prems by (auto simp: hash_exists_set) (simp add: bcl_hash_exists_def hash_get_set_same)
  from Cons.IH [OF this] show ?case by simp
qed

text \<open>
  A script whose procedure declares \<^verbatim>\<open>counter\<close> global and increments it, and sets a
  variable of its own; and the interpreter inside the procedure, after the declaration.
\<close>

definition global_script :: string where
  "global_script = concat (map (\<lambda>l. l @ [CHR 0x0A])
     [''SET counter 1'', ''PROC bump DO'', ''GLOBAL counter'', ''INCR counter'', ''SET tmp 9'',
      ''END'', ''bump''])"

definition in_bump :: bcl_interp_t where
  "in_bump = bcl_interp_create
     \<lparr> global_vars := [(''counter'', ''1'')],
       scope_stack := [scope_create\<lparr> global_refs := [(''counter'', ''1'')] \<rparr>] \<rparr>"

text \<open>
  A script whose procedure declares global the name of its own parameter, and copies
  what it then reads under that name to the global variable \<^verbatim>\<open>seen\<close>.
\<close>

definition shadow_script :: string where
  "shadow_script = concat (map (\<lambda>l. l @ [CHR 0x0A])
     [''SET x g'', ''PROC p WITH x DO'', ''GLOBAL x seen'', ''SET seen $x'', ''END'', ''p arg''])"

text \<open>
  How variables are resolved.  With a local scope \<open>sc\<close> on top of the scope stack: a
  write to a name listed in the \<open>global_refs\<close> of \<open>sc\<close> goes to the global variables, and
  a write to a name for which \<^verbatim>\<open>is_global_var\<close> is false goes to the variables of
  \<open>sc\<close>; a read returns the variable of \<open>sc\<close> of that name if there is one and the
  global variable otherwise, whether the name is listed or not; \<^verbatim>\<open>GLOBAL\<close> lists each of
  its arguments in the \<open>global_refs\<close> of \<open>sc\<close> and changes nothing else; and popping the
  scope leaves the global variables as they are, so that what was written to them in a
  procedure is there after the call.
\<close>

lemma global_variable_routing:
  assumes "scope_stack interp = sc # rest"
  shows "(bcl_hash_exists (global_refs sc) name \<longrightarrow>
            bcl_var_set interp name v
              = interp\<lparr> global_vars := bcl_hash_set (global_vars interp) name v \<rparr>
            \<and> bcl_hash_get (global_vars (bcl_var_set interp name v)) name = Some v)
       \<and> (\<not> is_global_var (Some sc) name \<longrightarrow>
            bcl_var_set interp name v
              = interp\<lparr> scope_stack := sc\<lparr> vars := bcl_hash_set (vars sc) name v \<rparr> # rest \<rparr>)
       \<and> bcl_var_get interp name
            = (case bcl_hash_get (vars sc) name of
                 Some x \<Rightarrow> Some x
               | None \<Rightarrow> bcl_hash_get (global_vars interp) name)
       \<and> (name \<in> set argv \<longrightarrow>
            (\<exists>refs. bcl_cmd_global interp argv
                      = Inr (BCL_OK, Some [], interp\<lparr> scope_stack := sc\<lparr> global_refs := refs \<rparr> # rest \<rparr>)
                    \<and> bcl_hash_exists refs name))
       \<and> global_vars (snd (bcl_scope_pop interp)) = global_vars interp"
proof -
  have "name \<in> set argv \<Longrightarrow> argv \<noteq> []" by auto
  then show ?thesis
    using assms hash_exists_fold_set [of "global_refs sc" name argv "''1''"]
    by (auto simp: bcl_var_set_def is_global_var_def bcl_var_get_def bcl_cmd_global_def
          bcl_scope_pop_def scope_depth_def hash_get_set_same)
qed

lemma global_variable_routing_example:
  "scope_stack in_bump = [scope_create\<lparr> global_refs := [(''counter'', ''1'')] \<rparr>]
   \<and> bcl_hash_exists [(''counter'', ''1'')] ''counter''
   \<and> bcl_var_set in_bump ''counter'' ''2'' = in_bump\<lparr> global_vars := [(''counter'', ''2'')] \<rparr>
   \<and> \<not> is_global_var (Some (scope_create\<lparr> global_refs := [(''counter'', ''1'')] \<rparr>)) ''tmp''
   \<and> global_vars (bcl_var_set in_bump ''tmp'' ''9'') = [(''counter'', ''1'')]
   \<and> bcl_var_get in_bump ''counter'' = Some ''1''
   \<and> map_sum id (\<lambda>(res, i). (res, global_vars i, scope_stack i))
         (bcl_eval_structured 4 bcl_interp_create global_script)
       = Inr (BCL_OK, [(''counter'', ''2'')], [])"
proof -
  let ?sc = "scope_create\<lparr> global_refs := [(''counter'', ''1'')] \<rparr>"
  have h: "scope_stack in_bump = ?sc # []" by (simp add: in_bump_def)
  have e: "bcl_hash_exists (global_refs ?sc) ''counter''"
    and n: "\<not> is_global_var (Some ?sc) ''tmp''"
    by (simp_all add: ev)
  have s: "map_sum id (\<lambda>(res, i). (res, global_vars i, scope_stack i))
         (bcl_eval_structured 4 bcl_interp_create global_script)
       = Inr (BCL_OK, [(''counter'', ''2'')], [])"
    by (simp add: global_script_def ev cong: let_weak_cong)
  from global_variable_routing [OF h, of "''counter''" "''2''"] e
  have a: "bcl_var_set in_bump ''counter'' ''2'' = in_bump\<lparr> global_vars := [(''counter'', ''2'')] \<rparr>"
    by (simp add: in_bump_def ev)
  from global_variable_routing [OF h, of "''tmp''" "''9''"] n
  have b: "global_vars (bcl_var_set in_bump ''tmp'' ''9'') = [(''counter'', ''1'')]"
    by (simp add: in_bump_def)
  from global_variable_routing [OF h, of "''counter''"]
  have c: "bcl_var_get in_bump ''counter'' = Some ''1''"
    by (simp add: in_bump_def ev)
  from h e n a b c s show ?thesis by (simp add: ev)
qed

text \<open>
  Claim C6.  A name registered with \<^verbatim>\<open>GLOBAL\<close> is to be read from the global
  variables as it is written to them.  The run of the script below shows what
  \<^verbatim>\<open>bcl_var_get\<close> does instead: the procedure \<^verbatim>\<open>p\<close> has the parameter \<^verbatim>\<open>x\<close>, called
  with \<^verbatim>\<open>arg\<close>, while the global \<^verbatim>\<open>x\<close> is \<^verbatim>\<open>g\<close>; after \<^verbatim>\<open>GLOBAL x seen\<close> the line
  \<^verbatim>\<open>SET seen $x\<close> reads \<^verbatim>\<open>x\<close> and writes what it read to the global \<^verbatim>\<open>seen\<close>.  At the
  end the global variables are \<^verbatim>\<open>x = g\<close> and \<^verbatim>\<open>seen = arg\<close>: the read of the registered
  name returned the variable of the local scope, not the global one.
\<close>

theorem global_read_is_local_first:
  "map_sum id (\<lambda>(res, i). (res, global_vars i))
     (bcl_eval_structured 4 bcl_interp_create shadow_script)
   = Inr (BCL_OK, [(''x'', ''g''), (''seen'', ''arg'')])"
  by (simp add: shadow_script_def ev cong: let_weak_cong)

text \<open>
  Nor does \<^verbatim>\<open>GLOBAL\<close> register the prefix of an array: the procedure \<^verbatim>\<open>q\<close> declares
  \<^verbatim>\<open>arr(\<close> global and sets \<^verbatim>\<open>arr(1)\<close>; the element is read back inside the procedure
  (\<^verbatim>\<open>got = v\<close>) and is not there after the call (\<^verbatim>\<open>after\<close> is empty), so it was
  written to the local scope.
\<close>

definition prefix_script :: string where
  "prefix_script = concat (map (\<lambda>l. l @ [CHR 0x0A])
     [''PROC q DO'', ''GLOBAL arr('', ''SET arr(1) v'', ''GLOBAL got'', ''SET got $arr(1)'', ''END'',
      ''q'', ''SET after $arr(1)''])"

lemma global_prefix_write_is_local:
  "map_sum id (\<lambda>(res, i). (res, global_vars i))
     (bcl_eval_structured 4 bcl_interp_create prefix_script)
   = Inr (BCL_OK, [(''got'', ''v''), (''after'', [])])"
  by (simp add: prefix_script_def ev cong: let_weak_cong)


section \<open>The stack of the block parser\<close>





lemma btype_block_add [simp]:
  "r < length h \<Longrightarrow> btype (block_add_line h b line ! r) = btype (h ! r)"
  "r < length h \<Longrightarrow> btype (block_add_block_item h b c ! r) = btype (h ! r)"
  "r < length h \<Longrightarrow> btype (block_add_child h b c ! r) = btype (h ! r)"
  by (cases "b = r"; simp add: block_add_line_def block_add_block_item_def block_add_child_def)+

lemma length_block_add [simp]:
  "length (block_add_line h b line) = length h"
  "length (block_add_block_item h b c) = length h"
  "length (block_add_child h b c) = length h"
  by (simp_all add: block_add_line_def block_add_block_item_def block_add_child_def)






















end
